(* ===== verification/Prelude.thy ===== *)
theory Prelude
  imports Main "HOL-Library.Word" "HOL-Library.AList"
begin

text \<open>
  Shared vocabulary of the development: the Rust result type, the saturating operations of
  the Rust integer types, hash maps whose size or iteration the code uses, and the generic
  induction over runs of a deterministic step function that every stateful component uses.
\<close>

named_theorems wf_intros
  \<open>preservation lemmas: an operation keeps the well-formedness of its state\<close>

named_theorems op_defs
  \<open>definitions of operations that a component proof unfolds together\<close>

section \<open>Results and panics\<close>

text \<open>
  A Rust \<open>Result<T, String>\<close> is a sum with the error on the left. A call that may panic is
  a sum as well: the left value is the panic message, and the caller's state is the old one.
\<close>

type_synonym 'a res = "string + 'a"
type_synonym 'a call = "string + 'a"

text \<open>The question-mark operator: an error returns early, a value goes on.\<close>

definition res_bind :: "'e + 'a \<Rightarrow> ('a \<Rightarrow> 'e + 'b) \<Rightarrow> 'e + 'b" where
  "res_bind r f = (case r of Inl e \<Rightarrow> Inl e | Inr x \<Rightarrow> f x)"

lemma res_bind_simps [simp]:
  "res_bind (Inl e) f = Inl e"
  "res_bind (Inr x) f = f x"
  by (simp_all add: res_bind_def)

lemma res_bind_Inr_iff: "res_bind r f = Inr y \<longleftrightarrow> (\<exists>x. r = Inr x \<and> f x = Inr y)"
  by (cases r) simp_all

lemma res_bind_Inl_iff: "res_bind r f = Inl e \<longleftrightarrow> r = Inl e \<or> (\<exists>x. r = Inr x \<and> f x = Inl e)"
  by (cases r) auto

definition is_ok :: "'e + 'a \<Rightarrow> bool" where
  "is_ok r = (case r of Inl _ \<Rightarrow> False | Inr _ \<Rightarrow> True)"

lemma is_ok_simps [simp]: "\<not> is_ok (Inl e)" "is_ok (Inr x)"
  by (simp_all add: is_ok_def)

section \<open>Stateful calls that may fail\<close>

text \<open>
  A method that changes its object and returns a \<open>Result\<close>: the result, and the state it left
  behind, also when it failed. \<open>io_bind\<close> is the question-mark operator; \<open>triple P m Q E\<close> says that
  from a state in \<open>P\<close> the call ends in \<open>Q\<close> with its value, or in \<open>E\<close> with an error.
\<close>

type_synonym ('s, 'e, 'a) action = "'s \<Rightarrow> ('e + 'a) \<times> 's"
type_synonym ('s, 'a) io = "('s, string, 'a) action"

definition io_return :: "'a \<Rightarrow> ('s, 'e, 'a) action" where
  "io_return x s = (Inr x, s)"

definition io_fail :: "'e \<Rightarrow> ('s, 'e, 'a) action" where
  "io_fail e s = (Inl e, s)"

definition io_bind :: "('s, 'e, 'a) action \<Rightarrow> ('a \<Rightarrow> ('s, 'e, 'b) action) \<Rightarrow> ('s, 'e, 'b) action" where
  "io_bind m f s = (case m s of (Inl e, s') \<Rightarrow> (Inl e, s') | (Inr x, s') \<Rightarrow> f x s')"

lemmas io_defs = io_return_def io_fail_def io_bind_def

lemma io_bind_cases:
  assumes "io_bind m f s = (v, t)"
  obtains e where "m s = (Inl e, t)" "v = Inl e"
    | x s' where "m s = (Inr x, s')" "f x s' = (v, t)"
  using assms by (cases "m s"; cases "fst (m s)") (auto simp: io_bind_def)

definition triple ::
  "('s \<Rightarrow> bool) \<Rightarrow> ('s, 'e, 'a) action \<Rightarrow> ('a \<Rightarrow> 's \<Rightarrow> bool) \<Rightarrow> ('s \<Rightarrow> bool) \<Rightarrow> bool" where
  "triple P m Q E \<longleftrightarrow> (\<forall>s. P s \<longrightarrow> (case m s of (Inl e, s') \<Rightarrow> E s' | (Inr x, s') \<Rightarrow> Q x s'))"

lemma triple_return: "(\<And>s. P s \<Longrightarrow> Q x s) \<Longrightarrow> triple P (io_return x) Q E"
  by (simp add: triple_def io_return_def)

lemma triple_fail: "(\<And>s. P s \<Longrightarrow> E s) \<Longrightarrow> triple P (io_fail e) Q E"
  by (simp add: triple_def io_fail_def)

lemma triple_bind:
  "triple P m R E \<Longrightarrow> (\<And>x. triple (R x) (f x) Q E) \<Longrightarrow> triple P (io_bind m f) Q E"
  by (fastforce simp: triple_def io_bind_def split: prod.splits sum.splits)

lemma triple_conseq:
  "triple P' m Q' E' \<Longrightarrow> (\<And>s. P s \<Longrightarrow> P' s) \<Longrightarrow> (\<And>x s. Q' x s \<Longrightarrow> Q x s) \<Longrightarrow>
     (\<And>s. E' s \<Longrightarrow> E s) \<Longrightarrow> triple P m Q E"
  by (fastforce simp: triple_def split: prod.splits sum.splits)

lemma triple_if:
  "(b \<Longrightarrow> triple P m Q E) \<Longrightarrow> (\<not> b \<Longrightarrow> triple P m' Q E) \<Longrightarrow> triple P (if b then m else m') Q E"
  by simp

lemma triple_okD: "triple P m Q E \<Longrightarrow> P s \<Longrightarrow> m s = (Inr x, s') \<Longrightarrow> Q x s'"
  by (fastforce simp: triple_def)

lemma triple_errD: "triple P m Q E \<Longrightarrow> P s \<Longrightarrow> m s = (Inl e, s') \<Longrightarrow> E s'"
  by (fastforce simp: triple_def)

text \<open>Catching the errors a handler may catch: \<open>f\<close> says what the caught error is, if it can be caught.\<close>

definition io_catch :: "('e \<Rightarrow> 'f option) \<Rightarrow> ('s, 'e, 'a) action \<Rightarrow> ('s, 'e, 'f + 'a) action" where
  "io_catch f m s =
     (case m s of
        (Inr x, s') \<Rightarrow> (Inr (Inr x), s')
      | (Inl e, s') \<Rightarrow> (case f e of Some c \<Rightarrow> (Inr (Inl c), s') | None \<Rightarrow> (Inl e, s')))"

definition io_map :: "('a \<Rightarrow> 'b) \<Rightarrow> ('s, 'e, 'a) action \<Rightarrow> ('s, 'e, 'b) action" where
  "io_map g m = io_bind m (\<lambda>x. io_return (g x))"

text \<open>A step that changes the state only, and reading the state.\<close>

definition io_do :: "('s \<Rightarrow> 's) \<Rightarrow> ('s, 'e, unit) action" where
  "io_do f s = (Inr (), f s)"

definition io_get :: "('s \<Rightarrow> 'a) \<Rightarrow> ('s, 'e, 'a) action" where
  "io_get f s = (Inr (f s), s)"

fun io_each :: "('a \<Rightarrow> ('s, 'e, unit) action) \<Rightarrow> 'a list \<Rightarrow> ('s, 'e, unit) action" where
  "io_each f [] = io_return ()"
| "io_each f (x # xs) = io_bind (f x) (\<lambda>_. io_each f xs)"

lemma triple_do: "(\<And>s. P s \<Longrightarrow> Q () (f s)) \<Longrightarrow> triple P (io_do f) Q E"
  by (simp add: triple_def io_do_def)

lemma triple_get: "(\<And>s. P s \<Longrightarrow> Q (f s) s) \<Longrightarrow> triple P (io_get f) Q E"
  by (simp add: triple_def io_get_def)

lemma triple_map: "triple P m (\<lambda>x. Q (g x)) E \<Longrightarrow> triple P (io_map g m) Q E"
  unfolding io_map_def by (rule triple_bind, assumption) (rule triple_return)

lemma triple_catch:
  "triple P m (\<lambda>x. Q (Inr x)) E \<Longrightarrow> (\<And>c s. E s \<Longrightarrow> Q (Inl c) s) \<Longrightarrow> triple P (io_catch f m) Q E"
  by (fastforce simp: triple_def io_catch_def split: prod.splits sum.splits option.splits)

lemma triple_each:
  "(\<And>x. x \<in> set xs \<Longrightarrow> triple I (f x) (\<lambda>_. I) E) \<Longrightarrow> triple I (io_each f xs) (\<lambda>_. I) E"
  by (induction xs) (auto intro: triple_return triple_bind)

text \<open>A call that leaves a view of the state as it was, whatever its result.\<close>

definition keeps :: "('s \<Rightarrow> 'v) \<Rightarrow> ('s, 'e, 'a) action \<Rightarrow> bool" where
  "keeps view m \<longleftrightarrow> (\<forall>s. view (snd (m s)) = view s)"

named_theorems keeps_rules \<open>calls that keep a view of the state\<close>

lemma keeps_return [keeps_rules]: "keeps v (io_return x)"
  by (simp add: keeps_def io_return_def)

lemma keeps_fail [keeps_rules]: "keeps v (io_fail e)"
  by (simp add: keeps_def io_fail_def)

lemma keeps_get [keeps_rules]: "keeps v (io_get f)"
  by (simp add: keeps_def io_get_def)

lemma keeps_do: "(\<And>s. v (f s) = v s) \<Longrightarrow> keeps v (io_do f)"
  by (simp add: keeps_def io_do_def)

lemma keeps_bind [keeps_rules]: "keeps v m \<Longrightarrow> (\<And>x. keeps v (f x)) \<Longrightarrow> keeps v (io_bind m f)"
  unfolding keeps_def io_bind_def by (auto split: prod.splits sum.splits) (metis snd_conv)+

lemma keeps_map [keeps_rules]: "keeps v m \<Longrightarrow> keeps v (io_map g m)"
  unfolding io_map_def by (intro keeps_rules)

lemma keeps_catch [keeps_rules]: "keeps v m \<Longrightarrow> keeps v (io_catch f m)"
  unfolding keeps_def io_catch_def by (auto split: prod.splits sum.splits option.splits) (metis snd_conv)+

lemma keeps_if [keeps_rules]: "keeps v m \<Longrightarrow> keeps v m' \<Longrightarrow> keeps v (if b then m else m')"
  by simp

lemma keeps_each [keeps_rules]: "(\<And>x. keeps v (f x)) \<Longrightarrow> keeps v (io_each f xs)"
  by (induction xs) (auto intro: keeps_rules)

lemma keepsD: "keeps v m \<Longrightarrow> m s = (r, t) \<Longrightarrow> v t = v s"
  by (metis keeps_def snd_conv)

text \<open>Outcomes that depend on the error a call ends with.\<close>

definition ends_in ::
  "('s \<Rightarrow> bool) \<Rightarrow> ('s, 'e, 'a) action \<Rightarrow> ('a \<Rightarrow> 's \<Rightarrow> bool) \<Rightarrow> ('e \<Rightarrow> 's \<Rightarrow> bool) \<Rightarrow> bool" where
  "ends_in P m Q E \<longleftrightarrow> (\<forall>s. P s \<longrightarrow> (case m s of (Inl e, s') \<Rightarrow> E e s' | (Inr x, s') \<Rightarrow> Q x s'))"

lemma ends_in_return: "(\<And>s. P s \<Longrightarrow> Q x s) \<Longrightarrow> ends_in P (io_return x) Q E"
  by (simp add: ends_in_def io_return_def)

lemma ends_in_fail: "(\<And>s. P s \<Longrightarrow> E e s) \<Longrightarrow> ends_in P (io_fail e) Q E"
  by (simp add: ends_in_def io_fail_def)

lemma ends_in_do: "(\<And>s. P s \<Longrightarrow> Q () (f s)) \<Longrightarrow> ends_in P (io_do f) Q E"
  by (simp add: ends_in_def io_do_def)

lemma ends_in_get: "(\<And>s. P s \<Longrightarrow> Q (f s) s) \<Longrightarrow> ends_in P (io_get f) Q E"
  by (simp add: ends_in_def io_get_def)

lemma ends_in_bind:
  "ends_in P m R E \<Longrightarrow> (\<And>x. ends_in (R x) (f x) Q E) \<Longrightarrow> ends_in P (io_bind m f) Q E"
  by (fastforce simp: ends_in_def io_bind_def split: prod.splits sum.splits)

lemma ends_in_conseq:
  "ends_in P' m Q' E' \<Longrightarrow> (\<And>s. P s \<Longrightarrow> P' s) \<Longrightarrow> (\<And>x s. Q' x s \<Longrightarrow> Q x s) \<Longrightarrow>
     (\<And>e s. E' e s \<Longrightarrow> E e s) \<Longrightarrow> ends_in P m Q E"
  by (fastforce simp: ends_in_def split: prod.splits sum.splits)

lemma ends_in_if:
  "(b \<Longrightarrow> ends_in P m Q E) \<Longrightarrow> (\<not> b \<Longrightarrow> ends_in P m' Q E) \<Longrightarrow> ends_in P (if b then m else m') Q E"
  by simp

lemma ends_in_catch:
  "ends_in P m (\<lambda>x. Q (Inr x)) (\<lambda>e s. case f e of Some c \<Rightarrow> Q (Inl c) s | None \<Rightarrow> E e s) \<Longrightarrow>
     ends_in P (io_catch f m) Q E"
  by (fastforce simp: ends_in_def io_catch_def split: prod.splits sum.splits option.splits)

lemma ends_in_keeps: "keeps v m \<Longrightarrow> ends_in (\<lambda>s. P (v s)) m (\<lambda>_ s. P (v s)) (\<lambda>_ s. P (v s))"
  by (auto simp: ends_in_def split: prod.splits sum.splits dest: keepsD)

section \<open>Traces under a policy\<close>

text \<open>
  What a component did to the outside is a list of actions, the newest last. A policy says which
  action may follow which past; a trace obeys it when every action of it was allowed by its past.
\<close>

definition obeys :: "('a list \<Rightarrow> 'a \<Rightarrow> bool) \<Rightarrow> 'a list \<Rightarrow> bool" where
  "obeys policy tr \<longleftrightarrow> (\<forall>i < length tr. policy (take i tr) (tr ! i))"

lemma obeys_Nil [simp]: "obeys policy []"
  by (simp add: obeys_def)

lemma obeys_snoc [simp]: "obeys policy (tr @ [a]) \<longleftrightarrow> obeys policy tr \<and> policy tr a"
  by (auto simp: obeys_def less_Suc_eq nth_append)

lemma obeys_at: "obeys policy (pre @ a # post) \<Longrightarrow> policy pre a"
  unfolding obeys_def by (drule spec [of _ "length pre"]) simp

lemma obeys_mono: "obeys p tr \<Longrightarrow> (\<And>past a. p past a \<Longrightarrow> q past a) \<Longrightarrow> obeys q tr"
  by (auto simp: obeys_def)

section \<open>Machine integers\<close>

type_synonym u8 = "8 word"
type_synonym u16 = "16 word"
type_synonym u32 = "32 word"
type_synonym u64 = "64 word"

text \<open>\<open>saturating_add\<close> and \<open>saturating_sub\<close> of the unsigned types.\<close>

definition sat_add :: "'a::len word \<Rightarrow> 'a word \<Rightarrow> 'a word" where
  "sat_add a b = (if unat a + unat b < 2 ^ LENGTH('a) then a + b else - 1)"

definition sat_sub :: "'a::len word \<Rightarrow> 'a word \<Rightarrow> 'a word" where
  "sat_sub a b = (if b \<le> a then a - b else 0)"

lemma unat_minus_one: "unat (- 1 :: 'a::len word) = 2 ^ LENGTH('a) - 1"
  by (simp add: unsigned_minus_1_eq_mask mask_eq_exp_minus_1)

lemma unat_sat_add:
  "unat (sat_add a b) = min (unat a + unat b) (2 ^ LENGTH('a) - 1)" for a b :: "'a::len word"
  by (auto simp: sat_add_def unat_word_ariths unat_minus_one min_def)


lemma sat_add_le1: "a \<le> sat_add a b"
  unfolding word_le_nat_alt unat_sat_add using unsigned_less [of a, where ?'a = nat] by linarith

lemma sat_add_mono1: "a \<le> a' \<Longrightarrow> sat_add a b \<le> sat_add a' b"
  unfolding word_le_nat_alt unat_sat_add by linarith

lemma unat_sat_sub: "unat (sat_sub a b) = unat a - unat b"
  by (auto simp: sat_sub_def unat_sub word_le_nat_alt)

lemma sat_sub_0 [simp]: "sat_sub a 0 = a"
  by (simp add: sat_sub_def)

text \<open>The counter that saturates instead of wrapping: strictly larger below the maximum.\<close>

lemma sat_add_one_less: "a < sat_add a 1 \<longleftrightarrow> a \<noteq> - 1" for a :: "'a::len word"
proof -
  have "unat a < 2 ^ LENGTH('a)" by (rule unsigned_less)
  moreover have "a = - 1 \<longleftrightarrow> unat a = 2 ^ LENGTH('a) - 1"
    by (simp add: word_unat_eq_iff unat_minus_one)
  moreover have "unat (1 :: 'a word) = 1" by simp
  ultimately show ?thesis
    unfolding word_less_nat_alt unat_sat_add by linarith
qed

lemma sat_add_less: "a \<noteq> - 1 \<Longrightarrow> b \<noteq> 0 \<Longrightarrow> a < sat_add a b" for a b :: "'a::len word"
proof -
  assume "a \<noteq> - 1" "b \<noteq> 0"
  then have "unat a \<noteq> 2 ^ LENGTH('a) - 1" and "unat b \<noteq> 0"
    by (simp_all add: word_unat_eq_iff unat_minus_one)
  moreover have "unat a < 2 ^ LENGTH('a)" by (rule unsigned_less)
  ultimately show ?thesis
    unfolding word_less_nat_alt unat_sat_add by linarith
qed

lemma sat_add_one_neq_0: "sat_add a 1 \<noteq> 0" for a :: "'a::len word"
proof -
  have "(1::nat) < 2 ^ LENGTH('a)" by (rule one_less_power) simp_all
  then have "unat (sat_add a 1) \<noteq> 0" unfolding unat_sat_add by simp
  then show ?thesis by auto
qed

text \<open>An \<open>i64\<close> is an integer; its two's complement wrap and its saturation are written out.\<close>

definition i64_wrap :: "int \<Rightarrow> int" where
  "i64_wrap x = (x + 2 ^ 63) mod 2 ^ 64 - 2 ^ 63"

definition i64_sat :: "int \<Rightarrow> int" where
  "i64_sat x = max (- (2 ^ 63)) (min (2 ^ 63 - 1) x)"

lemma i64_wrap_id: "- (2 ^ 63) \<le> x \<Longrightarrow> x < 2 ^ 63 \<Longrightarrow> i64_wrap x = x"
  by (simp add: i64_wrap_def)

section \<open>Hash maps with a size and an iteration order\<close>

text \<open>
  Where the code only looks keys up, a hash map is a partial function. Where it also counts
  or walks the entries it is an association list with distinct keys; the order of the list is
  the map's unspecified iteration order, and no theorem depends on which one it is.
\<close>

type_synonym ('k, 'v) hmap = "('k \<times> 'v) list"

definition hm_wf :: "('k, 'v) hmap \<Rightarrow> bool" where
  "hm_wf m \<longleftrightarrow> distinct (map fst m)"

definition hm_get :: "('k, 'v) hmap \<Rightarrow> 'k \<Rightarrow> 'v option" where
  "hm_get m k = map_of m k"

definition hm_insert :: "'k \<Rightarrow> 'v \<Rightarrow> ('k, 'v) hmap \<Rightarrow> ('k, 'v) hmap" where
  "hm_insert k v m = AList.update k v m"

definition hm_remove :: "'k \<Rightarrow> ('k, 'v) hmap \<Rightarrow> ('k, 'v) hmap" where
  "hm_remove k m = filter (\<lambda>e. fst e \<noteq> k) m"

definition hm_retain :: "('k \<Rightarrow> 'v \<Rightarrow> bool) \<Rightarrow> ('k, 'v) hmap \<Rightarrow> ('k, 'v) hmap" where
  "hm_retain P m = filter (\<lambda>e. P (fst e) (snd e)) m"

definition hm_len :: "('k, 'v) hmap \<Rightarrow> nat" where
  "hm_len m = length m"

definition hm_values :: "('k, 'v) hmap \<Rightarrow> 'v list" where
  "hm_values m = map snd m"

lemmas hm_defs = hm_get_def hm_insert_def hm_remove_def hm_retain_def hm_len_def hm_values_def

lemma hm_wf_empty [simp]: "hm_wf []"
  by (simp add: hm_wf_def)

lemma distinct_keys_filter: "distinct (map fst m) \<Longrightarrow> distinct (map fst (filter P m))"
  by (induction m) auto

lemma hm_wf_insert [simp]: "hm_wf m \<Longrightarrow> hm_wf (hm_insert k v m)"
  by (simp add: hm_wf_def hm_insert_def distinct_update)

lemma hm_wf_remove [simp]: "hm_wf m \<Longrightarrow> hm_wf (hm_remove k m)"
  by (simp add: hm_wf_def hm_remove_def distinct_keys_filter)

lemma hm_wf_retain [simp]: "hm_wf m \<Longrightarrow> hm_wf (hm_retain P m)"
  by (simp add: hm_wf_def hm_retain_def distinct_keys_filter)

lemma hm_get_empty [simp]: "hm_get [] k = None"
  by (simp add: hm_get_def)

lemma hm_get_insert [simp]: "hm_get (hm_insert k v m) k' = (if k' = k then Some v else hm_get m k')"
  by (simp add: hm_get_def hm_insert_def update_conv')

lemma hm_get_remove [simp]: "hm_get (hm_remove k m) k' = (if k' = k then None else hm_get m k')"
  by (induction m) (auto simp: hm_defs)

lemma map_of_filter_retain:
  "distinct (map fst m) \<Longrightarrow> map_of (filter (\<lambda>e. P (fst e) (snd e)) m) k =
     (case map_of m k of None \<Rightarrow> None | Some v \<Rightarrow> if P k v then Some v else None)"
proof (induction m)
  case (Cons e m)
  moreover have "map_of m (fst e) = None"
    using Cons.prems by (auto simp: map_of_eq_None_iff)
  ultimately show ?case by (cases e) (auto split: option.splits)
qed simp

lemma hm_get_retain:
  "hm_wf m \<Longrightarrow> hm_get (hm_retain P m) k =
     (case hm_get m k of None \<Rightarrow> None | Some v \<Rightarrow> if P k v then Some v else None)"
  by (simp add: hm_wf_def hm_get_def hm_retain_def map_of_filter_retain)

lemma length_AList_update:
  "length (AList.update k v m) = (if k \<in> fst ` set m then length m else Suc (length m))"
proof (induction m)
  case (Cons e m)
  then show ?case by (cases e) auto
qed simp

lemma hm_len_insert:
  "hm_len (hm_insert k v m) = (if hm_get m k = None then Suc (hm_len m) else hm_len m)"
  by (simp add: hm_defs length_AList_update map_of_eq_None_iff)

lemma hm_len_retain: "hm_len (hm_retain P m) \<le> hm_len m"
  by (simp add: hm_defs)

lemma hm_len_remove: "hm_len (hm_remove k m) \<le> hm_len m"
  by (simp add: hm_defs)

lemma hm_remove_absent: "hm_get m k = None \<Longrightarrow> hm_remove k m = m"
  by (auto simp: hm_defs map_of_eq_None_iff filter_id_conv)

lemma hm_len_remove_in: "hm_wf m \<Longrightarrow> hm_get m k = Some v \<Longrightarrow> Suc (hm_len (hm_remove k m)) = hm_len m"
proof (induction m)
  case (Cons e m)
  then have wf: "hm_wf m" and fresh: "fst e \<notin> fst ` set m" by (simp_all add: hm_wf_def)
  show ?case
  proof (cases "fst e = k")
    case True
    then have "hm_get m k = None" using fresh by (simp add: hm_get_def map_of_eq_None_iff)
    then have "hm_remove k m = m" by (rule hm_remove_absent)
    with True show ?thesis by (simp add: hm_remove_def hm_len_def)
  next
    case False
    then have "hm_get m k = Some v" using Cons.prems by (cases e) (simp add: hm_get_def)
    with Cons.IH wf False show ?thesis by (simp add: hm_remove_def hm_len_def)
  qed
qed (simp add: hm_get_def)

lemma hm_get_in: "hm_wf m \<Longrightarrow> hm_get m k = Some v \<longleftrightarrow> (k, v) \<in> set m"
  by (simp add: hm_wf_def hm_get_def)

lemma hm_len_dom: "hm_wf m \<Longrightarrow> hm_len m = card {k. hm_get m k \<noteq> None}"
proof -
  assume wf: "hm_wf m"
  have "{k. hm_get m k \<noteq> None} = set (map fst m)"
    by (auto simp: hm_get_def map_of_eq_None_iff image_iff)
  then have "card {k. hm_get m k \<noteq> None} = length (map fst m)"
    using wf by (simp only: hm_wf_def distinct_card)
  then show ?thesis by (simp add: hm_len_def)
qed

section \<open>Runs of a step function\<close>

text \<open>
  Every stateful component is driven by a sequence of operations. The locale states the one
  obligation of an invariant (each step keeps it); the facts about whole runs follow once.
\<close>

locale step_system =
  fixes step :: "'s \<Rightarrow> 'e \<Rightarrow> 's"
    and inv :: "'s \<Rightarrow> bool"
  assumes step_inv: "inv s \<Longrightarrow> inv (step s e)"
begin

lemma run_inv: "inv s \<Longrightarrow> inv (foldl step s es)"
  by (induction es arbitrary: s) (auto intro: step_inv)

lemma run_closed:
  assumes "inv s" and "P s" and "\<And>s e. inv s \<Longrightarrow> P s \<Longrightarrow> P (step s e)"
  shows "P (foldl step s es)"
  using assms(1,2)
proof (induction es arbitrary: s)
  case (Cons e es)
  then show ?case by (simp add: step_inv assms(3))
qed simp

end

text \<open>A system with a quantity that no step decreases: a clock, a token counter, a log length.\<close>

locale monotone_system = step_system step inv
  for step :: "'s \<Rightarrow> 'e \<Rightarrow> 's" and inv :: "'s \<Rightarrow> bool" +
  fixes rank :: "'s \<Rightarrow> 'r::linorder"
  assumes step_mono: "inv s \<Longrightarrow> rank s \<le> rank (step s e)"
begin

lemma run_mono: "inv s \<Longrightarrow> rank s \<le> rank (foldl step s es)"
proof (induction es arbitrary: s)
  case (Cons e es)
  have "rank s \<le> rank (step s e)" and "inv (step s e)"
    using Cons.prems by (rule step_mono, rule step_inv)
  with Cons.IH [of "step s e"] show ?case by (auto intro: order_trans)
qed simp

end

text \<open>A system that forgets nothing it has taken charge of, as long as every event is legal.\<close>

locale retention =
  fixes step :: "'s \<Rightarrow> 'e \<Rightarrow> 's"
    and inv :: "'s \<Rightarrow> bool"
    and legal :: "'e \<Rightarrow> bool"
    and covered :: "'s \<Rightarrow> 'k set"
  assumes legal_inv: "inv s \<Longrightarrow> legal e \<Longrightarrow> inv (step s e)"
    and covered_kept: "inv s \<Longrightarrow> legal e \<Longrightarrow> covered s \<subseteq> covered (step s e)"
begin

lemma legal_run_inv: "inv s \<Longrightarrow> list_all legal es \<Longrightarrow> inv (foldl step s es)"
  by (induction es arbitrary: s) (auto intro: legal_inv)

lemma retained: "inv s \<Longrightarrow> list_all legal es \<Longrightarrow> covered s \<subseteq> covered (foldl step s es)"
proof (induction es arbitrary: s)
  case (Cons e es)
  then have "inv (step s e)" and "covered s \<subseteq> covered (step s e)"
    by (simp_all add: legal_inv covered_kept)
  with Cons show ?case by (auto dest: Cons.IH)
qed simp

lemma retained_in: "k \<in> covered s \<Longrightarrow> inv s \<Longrightarrow> list_all legal es \<Longrightarrow> k \<in> covered (foldl step s es)"
  using retained by blast

end

text \<open>How often a run accepts a step, and the guard that makes it at most once per key.\<close>

fun count_run :: "('s \<Rightarrow> 'e \<Rightarrow> 's) \<Rightarrow> ('s \<Rightarrow> 'e \<Rightarrow> bool) \<Rightarrow> 's \<Rightarrow> 'e list \<Rightarrow> nat" where
  "count_run step acc s [] = 0"
| "count_run step acc s (e # es) = (if acc s e then 1 else 0) + count_run step acc (step s e) es"

locale once_guard =
  fixes step :: "'s \<Rightarrow> 'e \<Rightarrow> 's"
    and seen :: "'s \<Rightarrow> 'k set"
    and accepts :: "'k \<Rightarrow> 's \<Rightarrow> 'e \<Rightarrow> bool"
  assumes accept_fresh: "accepts k s e \<Longrightarrow> k \<notin> seen s"
    and accept_marks: "accepts k s e \<Longrightarrow> k \<in> seen (step s e)"
    and seen_kept: "seen s \<subseteq> seen (step s e)"
begin

lemma seen_never: "k \<in> seen s \<Longrightarrow> count_run step (accepts k) s es = 0"
proof (induction es arbitrary: s)
  case (Cons e es)
  then show ?case using accept_fresh seen_kept by fastforce
qed simp

lemma at_most_once: "count_run step (accepts k) s es \<le> 1"
proof (induction es arbitrary: s)
  case (Cons e es)
  show ?case
  proof (cases "accepts k s e")
    case True
    then show ?thesis by (simp add: seen_never accept_marks)
  next
    case False
    then show ?thesis using Cons.IH [of "step s e"] by simp
  qed
qed simp

end

end
