(* ===== verification/Text.thy ===== *)
theory Text
  imports Prelude "HOL-Library.Sublist"
begin

text \<open>
  Rust strings. A \<open>str\<close> is its UTF-8 byte sequence, so \<open>len\<close> is \<open>length\<close>; the methods that walk
  \<open>char\<close>s (\<open>trim\<close>, \<open>chars().take(n)\<close>) go through \<open>utf8_chars\<close>, which groups each lead byte with
  its continuation bytes. Searching for a substring or an ASCII character is the same on bytes.
  Unicode case mapping is not modelled: the definitions that use \<open>to_lowercase\<close> take it as an
  argument; \<open>ascii_lower\<close> is its value on ASCII text.
\<close>

section \<open>Characters\<close>

definition code :: "char \<Rightarrow> nat" where
  "code c = of_char c"

definition is_digit :: "char \<Rightarrow> bool" where
  "is_digit c \<longleftrightarrow> 48 \<le> code c \<and> code c \<le> 57"

definition is_upper :: "char \<Rightarrow> bool" where
  "is_upper c \<longleftrightarrow> 65 \<le> code c \<and> code c \<le> 90"

definition is_lower :: "char \<Rightarrow> bool" where
  "is_lower c \<longleftrightarrow> 97 \<le> code c \<and> code c \<le> 122"

definition is_alnum :: "char \<Rightarrow> bool" where
  "is_alnum c \<longleftrightarrow> is_digit c \<or> is_upper c \<or> is_lower c"

definition is_ascii :: "char \<Rightarrow> bool" where
  "is_ascii c \<longleftrightarrow> code c < 128"

definition is_cont :: "char \<Rightarrow> bool" where
  "is_cont c \<longleftrightarrow> 128 \<le> code c \<and> code c < 192"

lemmas char_class_defs = code_def is_digit_def is_upper_def is_lower_def is_alnum_def is_ascii_def
  is_cont_def

definition ascii_lower_char :: "char \<Rightarrow> char" where
  "ascii_lower_char c = (if is_upper c then char_of (code c + 32) else c)"

definition ascii_upper_char :: "char \<Rightarrow> char" where
  "ascii_upper_char c = (if is_lower c then char_of (code c - 32) else c)"

definition ascii_lower :: "string \<Rightarrow> string" where
  "ascii_lower s = map ascii_lower_char s"

definition ascii_upper :: "string \<Rightarrow> string" where
  "ascii_upper s = map ascii_upper_char s"

definition eq_ignore_ascii_case :: "string \<Rightarrow> string \<Rightarrow> bool" where
  "eq_ignore_ascii_case a b \<longleftrightarrow> ascii_lower a = ascii_lower b"

lemma ascii_not_cont: "is_ascii c \<Longrightarrow> \<not> is_cont c"
  by (simp add: char_class_defs)

lemma code_ascii_lower: "code (ascii_lower_char c) = (if is_upper c then code c + 32 else code c)"
  by (simp add: ascii_lower_char_def is_upper_def code_def)

lemma ascii_lower_char_idem: "ascii_lower_char (ascii_lower_char c) = ascii_lower_char c"
  by (simp add: ascii_lower_char_def is_upper_def code_def)

lemma ascii_lower_idem: "ascii_lower (ascii_lower s) = ascii_lower s"
  by (simp add: ascii_lower_def ascii_lower_char_idem)

lemma ascii_lower_append [simp]: "ascii_lower (a @ b) = ascii_lower a @ ascii_lower b"
  by (simp add: ascii_lower_def)

text \<open>The classes by the two highest bits, for evaluation.\<close>

lemma code_bits: "code c = horner_sum of_bool 2
    [digit0 c, digit1 c, digit2 c, digit3 c, digit4 c, digit5 c, digit6 c, digit7 c]"
  by (simp add: code_def of_char_def)

lemma high_bits [code]:
  "is_cont c \<longleftrightarrow> digit7 c \<and> \<not> digit6 c" "is_ascii c \<longleftrightarrow> \<not> digit7 c"
  by (cases "digit0 c"; cases "digit1 c"; cases "digit2 c"; cases "digit3 c"; cases "digit4 c"; cases "digit5 c";
      cases "digit6 c"; cases "digit7 c"; simp add: is_cont_def is_ascii_def code_bits)+

lemma alnum_not_cont: "is_alnum c \<Longrightarrow> \<not> is_cont c"
  by (auto simp: char_class_defs)

section \<open>Code points\<close>

function utf8_chars :: "string \<Rightarrow> string list" where
  "utf8_chars [] = []"
| "utf8_chars (b # bs) = (b # takeWhile is_cont bs) # utf8_chars (dropWhile is_cont bs)"
  by pat_completeness auto
termination
  by (relation "measure length") (auto simp: le_imp_less_Suc length_dropWhile_le)

lemma concat_utf8_chars [simp]: "concat (utf8_chars s) = s"
  by (induction s rule: utf8_chars.induct) auto

lemma utf8_chars_ascii: "\<forall>c \<in> set s. \<not> is_cont c \<Longrightarrow> utf8_chars s = map (\<lambda>c. [c]) s"
proof (induction s)
  case (Cons c s)
  then have "takeWhile is_cont s = []" and "dropWhile is_cont s = s"
    by (cases s; simp)+
  with Cons show ?case by simp
qed simp

text \<open>Cutting a string between code points leaves the code points as they were.\<close>

lemma dropWhile_cont_head: "dropWhile is_cont bs = [] \<or> \<not> is_cont (hd (dropWhile is_cont bs))"
  by (metis hd_dropWhile)

lemma utf8_chars_append:
  "t = [] \<or> \<not> is_cont (hd t) \<Longrightarrow> utf8_chars (s @ t) = utf8_chars s @ utf8_chars t"
proof (induction s rule: utf8_chars.induct)
  case (2 b bs)
  show ?case
  proof (cases "\<exists>x \<in> set bs. \<not> is_cont x")
    case True
    then show ?thesis using 2 by (auto simp: takeWhile_append1 dropWhile_append1)
  next
    case False
    have t: "takeWhile is_cont t = []" "dropWhile is_cont t = t"
      using 2(2) by (cases t; simp)+
    have bs: "takeWhile is_cont bs = bs" "dropWhile is_cont bs = []"
      using False by (auto simp: takeWhile_eq_all_conv dropWhile_eq_Nil_conv)
    have "takeWhile is_cont (bs @ t) = bs" "dropWhile is_cont (bs @ t) = t"
      using False t by (auto simp: takeWhile_append2 dropWhile_append2)
    then show ?thesis by (simp only: append_Cons utf8_chars.simps bs append_Nil)
  qed
qed simp

lemma utf8_chars_drop: "utf8_chars (concat (drop n (utf8_chars s))) = drop n (utf8_chars s)"
proof (induction s arbitrary: n rule: utf8_chars.induct)
  case (2 b bs)
  then show ?case by (cases n) (simp_all del: utf8_chars.simps add: utf8_chars.simps(2) [of b bs])
qed simp

lemma utf8_drop_head:
  "0 < n \<Longrightarrow> concat (drop n (utf8_chars s)) = [] \<or> \<not> is_cont (hd (concat (drop n (utf8_chars s))))"
proof (induction s arbitrary: n rule: utf8_chars.induct)
  case (2 b bs)
  show ?case
  proof (cases "n = 1")
    case True
    then show ?thesis using dropWhile_cont_head by simp
  next
    case False
    then obtain m where "n = Suc m" "0 < m" using "2.prems" by (cases n) auto
    then show ?thesis using "2.IH" [of m] by simp
  qed
qed simp

lemma utf8_chars_take: "utf8_chars (concat (take n (utf8_chars s))) = take n (utf8_chars s)"
proof (cases "n = 0")
  case False
  have "utf8_chars s = utf8_chars (concat (take n (utf8_chars s)) @ concat (drop n (utf8_chars s)))"
    by (metis append_take_drop_id concat_append concat_utf8_chars)
  also have "\<dots> = utf8_chars (concat (take n (utf8_chars s))) @ drop n (utf8_chars s)"
    using False utf8_drop_head [of n s] by (simp add: utf8_chars_append utf8_chars_drop)
  finally have "take n (utf8_chars s) @ drop n (utf8_chars s) =
      utf8_chars (concat (take n (utf8_chars s))) @ drop n (utf8_chars s)"
    by simp
  then show ?thesis by (metis append_same_eq)
qed simp

text \<open>\<open>s.chars().take(n).collect()\<close>\<close>

definition take_chars :: "nat \<Rightarrow> string \<Rightarrow> string" where
  "take_chars n s = concat (take n (utf8_chars s))"

lemma length_take_chars: "length (utf8_chars (take_chars n s)) \<le> n"
  by (simp add: take_chars_def utf8_chars_take)

lemma prefix_take_chars: "prefix (take_chars n s) s"
proof -
  have "s = take_chars n s @ concat (drop n (utf8_chars s))"
    by (metis append_take_drop_id concat_append concat_utf8_chars take_chars_def)
  then show ?thesis by (rule prefixI)
qed

section \<open>Trimming\<close>

text \<open>The code points of the Unicode property \<open>White_Space\<close>.\<close>

definition unicode_whitespace :: "string list" where
  "unicode_whitespace =
     [[CHR 0x09], [CHR 0x0A], [CHR 0x0B], [CHR 0x0C], [CHR 0x0D], [CHR 0x20],
      [CHR 0xC2, CHR 0x85], [CHR 0xC2, CHR 0xA0], [CHR 0xE1, CHR 0x9A, CHR 0x80],
      [CHR 0xE2, CHR 0x80, CHR 0x80], [CHR 0xE2, CHR 0x80, CHR 0x81], [CHR 0xE2, CHR 0x80, CHR 0x82],
      [CHR 0xE2, CHR 0x80, CHR 0x83], [CHR 0xE2, CHR 0x80, CHR 0x84], [CHR 0xE2, CHR 0x80, CHR 0x85],
      [CHR 0xE2, CHR 0x80, CHR 0x86], [CHR 0xE2, CHR 0x80, CHR 0x87], [CHR 0xE2, CHR 0x80, CHR 0x88],
      [CHR 0xE2, CHR 0x80, CHR 0x89], [CHR 0xE2, CHR 0x80, CHR 0x8A], [CHR 0xE2, CHR 0x80, CHR 0xA8],
      [CHR 0xE2, CHR 0x80, CHR 0xA9], [CHR 0xE2, CHR 0x80, CHR 0xAF], [CHR 0xE2, CHR 0x81, CHR 0x9F],
      [CHR 0xE3, CHR 0x80, CHR 0x80]]"

definition is_ws :: "string \<Rightarrow> bool" where
  "is_ws c \<longleftrightarrow> c \<in> set unicode_whitespace"

definition trim_start :: "string \<Rightarrow> string" where
  "trim_start s = concat (dropWhile is_ws (utf8_chars s))"

definition trim_end :: "string \<Rightarrow> string" where
  "trim_end s = concat (rev (dropWhile is_ws (rev (utf8_chars s))))"

definition trim :: "string \<Rightarrow> string" where
  "trim s = trim_end (trim_start s)"

text \<open>\<open>trim_start_matches\<close> and \<open>trim_end_matches\<close> with ASCII characters.\<close>

definition trim_start_chars :: "char set \<Rightarrow> string \<Rightarrow> string" where
  "trim_start_chars P s = dropWhile (\<lambda>c. c \<in> P) s"

definition trim_end_chars :: "char set \<Rightarrow> string \<Rightarrow> string" where
  "trim_end_chars P s = rev (dropWhile (\<lambda>c. c \<in> P) (rev s))"

definition trim_chars :: "char set \<Rightarrow> string \<Rightarrow> string" where
  "trim_chars P s = trim_end_chars P (trim_start_chars P s)"

lemma trim_empty [simp]: "trim [] = []"
  by (simp add: trim_def trim_start_def trim_end_def)

lemma trim_no_ws: "\<forall>c \<in> set (utf8_chars s). \<not> is_ws c \<Longrightarrow> trim s = s"
proof -
  assume no: "\<forall>c \<in> set (utf8_chars s). \<not> is_ws c"
  have same: "dropWhile is_ws cs = cs" if "set cs \<subseteq> set (utf8_chars s)" for cs
    using no that by (cases cs) auto
  have "trim_start s = s" by (simp add: trim_start_def same)
  moreover have "trim_end s = s" by (simp add: trim_end_def same)
  ultimately show ?thesis by (simp add: trim_def)
qed

text \<open>A string of visible ASCII characters is trimmed to itself.\<close>

lemma not_ws_single: "33 \<le> code c \<Longrightarrow> \<not> is_ws [c]"
  by (auto simp: is_ws_def unicode_whitespace_def code_def)

lemma trim_visible: "\<forall>c \<in> set s. 33 \<le> code c \<and> is_ascii c \<Longrightarrow> trim s = s"
proof -
  assume vis: "\<forall>c \<in> set s. 33 \<le> code c \<and> is_ascii c"
  then have chars: "utf8_chars s = map (\<lambda>c. [c]) s"
    by (intro utf8_chars_ascii) (auto simp: is_ascii_def is_cont_def)
  have dw: "dropWhile is_ws (map (\<lambda>c. [c]) t) = map (\<lambda>c. [c]) t" if "set t \<subseteq> set s" for t
    using vis that by (cases t) (auto simp: not_ws_single)
  have single: "concat (map (\<lambda>c. [c]) t) = t" for t :: string
    by (induction t) simp_all
  have "trim_start s = s"
    unfolding trim_start_def chars by (subst dw) (simp_all add: single)
  moreover have "trim_end s = s"
    using dw [of "rev s"] single [of s] by (simp add: trim_end_def chars rev_map [symmetric])
  ultimately show ?thesis by (simp add: trim_def)
qed


section \<open>Searching and splitting\<close>

text \<open>\<open>starts_with\<close>, \<open>ends_with\<close> and \<open>contains\<close> are the library's \<open>prefix\<close>, \<open>suffix\<close> and
  \<open>sublist\<close>, with the pattern first.\<close>

definition strip_prefix :: "string \<Rightarrow> string \<Rightarrow> string option" where
  "strip_prefix p s = (if prefix p s then Some (drop (length p) s) else None)"

definition strip_suffix :: "string \<Rightarrow> string \<Rightarrow> string option" where
  "strip_suffix p s = (if suffix p s then Some (take (length s - length p) s) else None)"

lemma strip_prefix_Some: "strip_prefix p s = Some r \<longleftrightarrow> s = p @ r"
  by (auto simp: strip_prefix_def prefix_def)

lemma strip_suffix_Some: "strip_suffix p s = Some r \<longleftrightarrow> s = r @ p"
  by (auto simp: strip_suffix_def suffix_def)

text \<open>\<open>split\<close> by a character class: always at least one piece.\<close>

fun split_on :: "(char \<Rightarrow> bool) \<Rightarrow> string \<Rightarrow> string list" where
  "split_on P [] = [[]]"
| "split_on P (c # cs) =
     (if P c then [] # split_on P cs else (c # hd (split_on P cs)) # tl (split_on P cs))"

lemma split_on_ne [simp]: "split_on P s \<noteq> []"
  by (cases s) auto

text \<open>For evaluation: the rest is split once.\<close>

lemma split_on_code [code]:
  "split_on P [] = [[]]"
  "split_on P (c # cs) =
     (if P c then [] # split_on P cs else (case split_on P cs of w # ws \<Rightarrow> (c # w) # ws | [] \<Rightarrow> [[c]]))"
  by (auto split: list.split)

lemma split_on_none: "\<forall>c \<in> set s. \<not> P c \<Longrightarrow> split_on P s = [s]"
  by (induction s) auto

lemma split_on_append: "\<forall>c \<in> set s. \<not> P c \<Longrightarrow> P d \<Longrightarrow> split_on P (s @ d # t) = s # split_on P t"
  by (induction s) auto

lemma split_on_append_sep: "P d \<Longrightarrow> split_on P (s @ d # t) = split_on P s @ split_on P t"
  by (induction s) auto

lemma last_split_on: "P d \<Longrightarrow> last (split_on P (s @ d # t)) = last (split_on P t)"
  by (simp add: split_on_append_sep)

lemma suffix_last_split_on:
  "suffix x s \<Longrightarrow> \<forall>c \<in> set x. \<not> P c \<Longrightarrow> suffix x (last (split_on P s))"
proof (induction s)
  case (Cons c s)
  show ?case
  proof (cases "x = c # s")
    case True
    with Cons.prems(2) have "split_on P (c # s) = [c # s]" by (intro split_on_none) auto
    with True show ?thesis by simp
  next
    case False
    with Cons have IH: "suffix x (last (split_on P s))" by (auto simp: suffix_Cons)
    obtain q qs where q: "split_on P s = q # qs" by (meson neq_Nil_conv split_on_ne)
    with IH show ?thesis by (auto simp: suffix_Cons)
  qed
qed simp

lemma split_on_sublist: "p \<in> set (split_on P s) \<Longrightarrow> sublist p s"
proof (induction s arbitrary: p)
  case (Cons c s)
  obtain q qs where q: "split_on P s = q # qs" by (meson neq_Nil_conv split_on_ne)
  have "prefix (hd (split_on P s)) s" by (induction s) auto
  then have "prefix q s" using q by simp
  with Cons q show ?case by (auto simp: sublist_Cons_right split: if_splits)
qed simp

lemma sublist_set: "sublist p s \<Longrightarrow> set p \<subseteq> set s"
  by (auto simp: sublist_def)

lemma suffix_set: "suffix p s \<Longrightarrow> set p \<subseteq> set s"
  by (auto simp: suffix_def)

lemma prefix_set: "prefix p s \<Longrightarrow> set p \<subseteq> set s"
  by (auto simp: prefix_def)

lemma split_on_pieces: "p \<in> set (split_on P s) \<Longrightarrow> \<forall>c \<in> set p. \<not> P c \<and> c \<in> set s"
proof (induction s arbitrary: p)
  case (Cons c s)
  show ?case
  proof (cases "P c")
    case True
    with Cons show ?thesis by auto
  next
    case False
    obtain q qs where q: "split_on P s = q # qs" by (meson neq_Nil_conv split_on_ne)
    with Cons False show ?thesis by fastforce
  qed
qed simp

text \<open>Joining with a separator, and splitting what was joined.\<close>

fun join :: "string \<Rightarrow> string list \<Rightarrow> string" where
  "join sep [] = []"
| "join sep [x] = x"
| "join sep (x # y # xs) = x @ sep @ join sep (y # xs)"

lemma split_on_join:
  "xs \<noteq> [] \<Longrightarrow> P d \<Longrightarrow> \<forall>x \<in> set xs. \<forall>c \<in> set x. \<not> P c \<Longrightarrow> split_on P (join [d] xs) = xs"
  by (induction "[d]" xs rule: join.induct) (simp_all add: split_on_none split_on_append)

text \<open>\<open>split_once\<close> with a string and \<open>rsplit_once\<close> with a character.\<close>

fun split_once :: "string \<Rightarrow> string \<Rightarrow> (string \<times> string) option" where
  "split_once pat [] = (if pat = [] then Some ([], []) else None)"
| "split_once pat (c # cs) =
     (if prefix pat (c # cs) then Some ([], drop (length pat) (c # cs))
      else map_option (\<lambda>(a, b). (c # a, b)) (split_once pat cs))"

definition rsplit_once :: "char \<Rightarrow> string \<Rightarrow> (string \<times> string) option" where
  "rsplit_once c s =
     (case split_once [c] (rev s) of None \<Rightarrow> None | Some (a, b) \<Rightarrow> Some (rev b, rev a))"

lemma split_once_Some: "split_once pat s = Some (a, b) \<Longrightarrow> s = a @ pat @ b"
proof (induction s arbitrary: a)
  case (Cons c cs)
  then show ?case by (auto simp: prefix_def split: if_splits)
qed (auto split: if_splits)

lemma split_once_char_fresh: "d \<notin> set a \<Longrightarrow> split_once [d] (a @ d # b) = Some (a, b)"
  by (induction a) auto

lemma split_once_char_None: "split_once [d] s = None \<longleftrightarrow> d \<notin> set s"
  by (induction s) auto

lemma split_once_char_Some: "split_once [d] s = Some (a, b) \<longleftrightarrow> s = a @ d # b \<and> d \<notin> set a"
proof
  show "split_once [d] s = Some (a, b) \<Longrightarrow> s = a @ d # b \<and> d \<notin> set a"
    by (induction s arbitrary: a) (auto split: if_splits)
qed (auto simp: split_once_char_fresh)

lemma rsplit_once_fresh: "d \<notin> set b \<Longrightarrow> rsplit_once d (a @ d # b) = Some (a, b)"
  by (simp add: rsplit_once_def split_once_char_fresh)

lemma rsplit_once_None: "rsplit_once d s = None \<longleftrightarrow> d \<notin> set s"
  using split_once_char_None [of d "rev s"] by (cases "split_once [d] (rev s)") (auto simp: rsplit_once_def)

text \<open>\<open>replace\<close> of one character by a string, and of a non-empty pattern, left to right.\<close>

definition replace_char :: "char \<Rightarrow> string \<Rightarrow> string \<Rightarrow> string" where
  "replace_char d r s = concat (map (\<lambda>c. if c = d then r else [c]) s)"

function replace_str :: "string \<Rightarrow> string \<Rightarrow> string \<Rightarrow> string" where
  "replace_str pat r [] = []"
| "replace_str pat r (c # cs) =
     (if pat \<noteq> [] \<and> prefix pat (c # cs) then r @ replace_str pat r (drop (length pat) (c # cs))
      else c # replace_str pat r cs)"
  by pat_completeness auto
termination
  by (relation "measure (\<lambda>(pat, r, s). length s)") (auto simp: le_imp_less_Suc)

lemma replace_str_absent: "\<not> sublist pat s \<Longrightarrow> replace_str pat r s = s"
proof (induction pat r s rule: replace_str.induct)
  case (2 pat r c cs)
  then have "\<not> prefix pat (c # cs)" and "\<not> sublist pat cs"
    by (auto simp: sublist_Cons_right)
  with 2 show ?case by simp
qed simp

section \<open>Decimal numbers\<close>

fun digits :: "nat \<Rightarrow> string" where
  "digits n = (if n < 10 then [char_of (48 + n)] else digits (n div 10) @ [char_of (48 + n mod 10)])"

declare digits.simps [simp del]

definition show_int :: "int \<Rightarrow> string" where
  "show_int i = (if i < 0 then ''-'' @ digits (nat (- i)) else digits (nat i))"

text \<open>Value of a string of decimal digits, most significant first.\<close>

definition digits_value :: "string \<Rightarrow> nat" where
  "digits_value s = foldl (\<lambda>n c. n * 10 + (code c - 48)) 0 s"

lemma code_digit: "d < 10 \<Longrightarrow> code (char_of (48 + d)) = 48 + d"
  by (simp add: code_def)

lemma digits_value_digits: "digits_value (digits n) = n"
proof (induction n rule: digits.induct)
  case (1 n)
  then show ?case
    by (cases "n < 10") (simp_all add: digits.simps [of n] digits_value_def code_digit)
qed

lemma digits_all_digits: "c \<in> set (digits n) \<Longrightarrow> is_digit c"
proof (induction n rule: digits.induct)
  case (1 n)
  then show ?case
    by (cases "n < 10") (auto simp: digits.simps [of n] is_digit_def code_digit)
qed

lemma digits_inj: "digits m = digits n \<Longrightarrow> m = n"
  by (metis digits_value_digits)

lemma digits_ne [simp]: "digits n \<noteq> []"
  by (simp add: digits.simps [of n])

end
