(* ===== verification/Coordinator.thy ===== *)
theory Coordinator
  imports Prelude
begin

text \<open>
  The reference fleet coordinator (\<open>tools/reference-fleet/src/lib.rs\<close>): an in-memory state
  machine for leases with fencing tokens, semaphore slots, quota windows, heartbeats, cron
  deduplication, compare-and-swap configuration and idempotency keys. This theory has its
  state and its operations; the theories \<open>Coordinator_Leases\<close>, \<open>Coordinator_Capacity\<close> and
  \<open>Coordinator_Records\<close> have what they guarantee. Time, tokens and counters are \<open>u64\<close> words;
  the metrics use plain addition, which wraps in a release build.
\<close>

section \<open>State\<close>

record lease =
  lease_holder :: string
  lease_token :: u64
  lease_expires_at :: u64

datatype claim_error = HeldBy string u64

datatype cas_error = RevisionMismatch u64 u64

record kv_value =
  kv_revision :: u64
  kv_content :: string

record watch_event =
  we_key :: string
  we_revision :: u64
  we_value :: string

record metrics =
  claims_granted :: u64
  claims_rejected :: u64
  renewals_granted :: u64
  renewals_rejected :: u64
  stale_commits_rejected :: u64
  semaphore_denied :: u64
  quota_denied :: u64
  heartbeat_expired :: u64
  cron_duplicate_suppressed :: u64
  cas_conflicts :: u64
  side_effect_duplicates_suppressed :: u64

record semaphore =
  sem_capacity :: u64
  sem_holders :: "(string, u64) hmap"

record rate_window =
  rw_capacity :: u64
  rw_window_seconds :: u64
  rw_starts_at :: u64
  rw_used :: u64

record coordinator =
  now :: u64
  next_fencing_token :: u64
  leases :: "string \<Rightarrow> lease option"
  semaphores :: "string \<Rightarrow> semaphore option"
  rate_windows :: "string \<Rightarrow> rate_window option"
  heartbeats :: "string \<Rightarrow> u64 option"
  expired_heartbeats_recorded :: "string set"
  cron_fires :: "(string \<times> u64) set"
  kv :: "string \<Rightarrow> kv_value option"
  watch_events :: "watch_event list"
  side_effects :: "string \<Rightarrow> string option"
  metrics :: metrics

definition metrics_default :: metrics where
  "metrics_default =
     \<lparr> claims_granted = 0, claims_rejected = 0, renewals_granted = 0, renewals_rejected = 0,
       stale_commits_rejected = 0, semaphore_denied = 0, quota_denied = 0, heartbeat_expired = 0,
       cron_duplicate_suppressed = 0, cas_conflicts = 0, side_effect_duplicates_suppressed = 0 \<rparr>"

definition coordinator_default :: coordinator where
  "coordinator_default =
     \<lparr> now = 0, next_fencing_token = 0, leases = (\<lambda>_. None), semaphores = (\<lambda>_. None),
       rate_windows = (\<lambda>_. None), heartbeats = (\<lambda>_. None), expired_heartbeats_recorded = {},
       cron_fires = {}, kv = (\<lambda>_. None), watch_events = [], side_effects = (\<lambda>_. None),
       metrics = metrics_default \<rparr>"

text \<open>\<open>self.metrics.<field> += 1\<close>, with the field given by its update function.\<close>

definition tally :: "((u64 \<Rightarrow> u64) \<Rightarrow> metrics \<Rightarrow> metrics) \<Rightarrow> coordinator \<Rightarrow> coordinator" where
  "tally field c = c\<lparr>metrics := field (\<lambda>n. n + 1) (metrics c)\<rparr>"

lemma tally_simps [simp]:
  "now (tally f c) = now c"
  "next_fencing_token (tally f c) = next_fencing_token c"
  "leases (tally f c) = leases c"
  "semaphores (tally f c) = semaphores c"
  "rate_windows (tally f c) = rate_windows c"
  "heartbeats (tally f c) = heartbeats c"
  "expired_heartbeats_recorded (tally f c) = expired_heartbeats_recorded c"
  "cron_fires (tally f c) = cron_fires c"
  "kv (tally f c) = kv c"
  "watch_events (tally f c) = watch_events c"
  "side_effects (tally f c) = side_effects c"
  "metrics (tally f c) = f (\<lambda>n. n + 1) (metrics c)"
  by (simp_all add: tally_def)

section \<open>Operations\<close>

definition advance :: "coordinator \<Rightarrow> u64 \<Rightarrow> coordinator" where
  "advance c seconds = c\<lparr>now := sat_add (now c) seconds\<rparr>"

text \<open>\<open>self.leases.get(resource).filter(|lease| lease.expires_at > self.now)\<close>\<close>

definition active_lease :: "coordinator \<Rightarrow> string \<Rightarrow> lease option" where
  "active_lease c resource =
     (case leases c resource of
        None \<Rightarrow> None
      | Some l \<Rightarrow> if now c < lease_expires_at l then Some l else None)"

definition claim ::
  "coordinator \<Rightarrow> string \<Rightarrow> string \<Rightarrow> u64 \<Rightarrow> (coordinator \<times> (claim_error + lease)) call" where
  "claim c resource holder ttl_seconds =
     (if ttl_seconds = 0 then Inl ''lease TTL must be positive'' else
      case active_lease c resource of
        Some active \<Rightarrow>
          Inr (tally claims_rejected_update c,
               Inl (HeldBy (lease_holder active) (lease_expires_at active)))
      | None \<Rightarrow>
          let token = sat_add (next_fencing_token c) 1;
              lease = \<lparr> lease_holder = holder, lease_token = token,
                        lease_expires_at = sat_add (now c) ttl_seconds \<rparr>
          in Inr (tally claims_granted_update
                    (c\<lparr> next_fencing_token := token, leases := (leases c)(resource \<mapsto> lease) \<rparr>),
                  Inr lease))"

definition renew ::
  "coordinator \<Rightarrow> string \<Rightarrow> string \<Rightarrow> u64 \<Rightarrow> u64 \<Rightarrow> (coordinator \<times> bool) call" where
  "renew c resource holder token ttl_seconds =
     (if ttl_seconds = 0 then Inl ''lease TTL must be positive'' else
      case leases c resource of
        None \<Rightarrow> Inr (tally renewals_rejected_update c, False)
      | Some lease \<Rightarrow>
          if lease_expires_at lease \<le> now c \<or> lease_holder lease \<noteq> holder
             \<or> lease_token lease \<noteq> token
          then Inr (tally renewals_rejected_update c, False)
          else Inr (tally renewals_granted_update
                      (c\<lparr> leases := (leases c)(resource \<mapsto>
                             lease\<lparr> lease_expires_at := sat_add (now c) ttl_seconds \<rparr>) \<rparr>),
                    True))"

definition commit_if_current ::
  "coordinator \<Rightarrow> string \<Rightarrow> string \<Rightarrow> u64 \<Rightarrow> coordinator \<times> bool" where
  "commit_if_current c resource holder token =
     (let current =
        (case leases c resource of
           None \<Rightarrow> False
         | Some lease \<Rightarrow> now c < lease_expires_at lease \<and> lease_holder lease = holder
                          \<and> lease_token lease = token)
      in (if current then c else tally stale_commits_rejected_update c, current))"

definition acquire_slot ::
  "coordinator \<Rightarrow> string \<Rightarrow> string \<Rightarrow> u64 \<Rightarrow> u64 \<Rightarrow> (coordinator \<times> bool) call" where
  "acquire_slot c pool holder capacity ttl_seconds =
     (if capacity = 0 then Inl ''semaphore capacity must be positive''
      else if ttl_seconds = 0 then Inl ''slot TTL must be positive''
      else
        let sem = (case semaphores c pool of
                     Some s \<Rightarrow> s
                   | None \<Rightarrow> \<lparr> sem_capacity = capacity, sem_holders = [] \<rparr>)
        in if sem_capacity sem \<noteq> capacity then Inl ''capacity must be stable per pool''
        else
          let live = hm_retain (\<lambda>_ expiry. now c < expiry) (sem_holders sem);
              store = (\<lambda>hs. c\<lparr> semaphores := (semaphores c)(pool \<mapsto> sem\<lparr> sem_holders := hs \<rparr>) \<rparr>);
              granted = hm_insert holder (sat_add (now c) ttl_seconds) live
          in case hm_get live holder of
               Some _ \<Rightarrow> Inr (store granted, True)
             | None \<Rightarrow>
                 if unat (sem_capacity sem) \<le> hm_len live
                 then Inr (tally semaphore_denied_update (store live), False)
                 else Inr (store granted, True))"

definition consume_quota ::
  "coordinator \<Rightarrow> string \<Rightarrow> u64 \<Rightarrow> u64 \<Rightarrow> u64 \<Rightarrow> (coordinator \<times> bool) call" where
  "consume_quota c quota units capacity window_seconds =
     (if capacity = 0 then Inl ''quota capacity must be positive''
      else if window_seconds = 0 then Inl ''quota window must be positive''
      else
        let w = (case rate_windows c quota of
                   Some w \<Rightarrow> w
                 | None \<Rightarrow> \<lparr> rw_capacity = capacity, rw_window_seconds = window_seconds,
                              rw_starts_at = now c, rw_used = 0 \<rparr>)
        in if rw_capacity w \<noteq> capacity then Inl ''capacity must be stable per quota''
        else if rw_window_seconds w \<noteq> window_seconds then Inl ''window must be stable per quota''
        else
          let w' = (if sat_add (rw_starts_at w) (rw_window_seconds w) \<le> now c
                    then w\<lparr> rw_starts_at := now c, rw_used := 0 \<rparr> else w);
              store = (\<lambda>x. c\<lparr> rate_windows := (rate_windows c)(quota \<mapsto> x) \<rparr>)
          in if sat_sub (rw_capacity w') (rw_used w') < units
             then Inr (tally quota_denied_update (store w'), False)
             else Inr (store (w'\<lparr> rw_used := rw_used w' + units \<rparr>), True))"

definition heartbeat :: "coordinator \<Rightarrow> string \<Rightarrow> u64 \<Rightarrow> (coordinator \<times> unit) call" where
  "heartbeat c worker ttl_seconds =
     (if ttl_seconds = 0 then Inl ''heartbeat TTL must be positive''
      else Inr (c\<lparr> heartbeats := (heartbeats c)(worker \<mapsto> sat_add (now c) ttl_seconds),
                   expired_heartbeats_recorded := expired_heartbeats_recorded c - {worker} \<rparr>, ()))"

definition worker_is_alive :: "coordinator \<Rightarrow> string \<Rightarrow> coordinator \<times> bool" where
  "worker_is_alive c worker =
     (let alive = (case heartbeats c worker of None \<Rightarrow> False | Some e \<Rightarrow> now c < e)
      in if \<not> alive \<and> heartbeats c worker \<noteq> None \<and> worker \<notin> expired_heartbeats_recorded c
         then (tally heartbeat_expired_update
                 (c\<lparr> expired_heartbeats_recorded := insert worker (expired_heartbeats_recorded c) \<rparr>),
               alive)
         else (c, alive))"

definition fire_cron_once ::
  "coordinator \<Rightarrow> string \<Rightarrow> string \<Rightarrow> u64 \<Rightarrow> string \<Rightarrow> u64 \<Rightarrow> coordinator \<times> bool" where
  "fire_cron_once c leader_resource leader token job scheduled_at =
     (case commit_if_current c leader_resource leader token of
        (c', False) \<Rightarrow> (c', False)
      | (c', True) \<Rightarrow>
          if (job, scheduled_at) \<in> cron_fires c'
          then (tally cron_duplicate_suppressed_update c', False)
          else (c'\<lparr> cron_fires := insert (job, scheduled_at) (cron_fires c') \<rparr>, True))"

definition cas ::
  "coordinator \<Rightarrow> string \<Rightarrow> u64 \<Rightarrow> string \<Rightarrow> coordinator \<times> (cas_error + kv_value)" where
  "cas c key expected_revision val =
     (let actual_revision = (case kv c key of None \<Rightarrow> 0 | Some current \<Rightarrow> kv_revision current)
      in if actual_revision \<noteq> expected_revision
         then (tally cas_conflicts_update c,
               Inl (RevisionMismatch expected_revision actual_revision))
         else
           let next = \<lparr> kv_revision = sat_add actual_revision 1, kv_content = val \<rparr>
           in (c\<lparr> kv := (kv c)(key \<mapsto> next),
                  watch_events := watch_events c @
                    [\<lparr> we_key = key, we_revision = kv_revision next, we_value = kv_content next \<rparr>] \<rparr>,
               Inr next))"

definition perform_side_effect_once :: "coordinator \<Rightarrow> string \<Rightarrow> string \<Rightarrow> coordinator \<times> bool" where
  "perform_side_effect_once c idempotency_key payload =
     (case side_effects c idempotency_key of
        Some _ \<Rightarrow> (tally side_effect_duplicates_suppressed_update c, False)
      | None \<Rightarrow> (c\<lparr> side_effects := (side_effects c)(idempotency_key \<mapsto> payload) \<rparr>, True))"

lemmas coordinator_ops [op_defs] =
  advance_def claim_def renew_def commit_if_current_def acquire_slot_def consume_quota_def
  heartbeat_def worker_is_alive_def fire_cron_once_def cas_def perform_side_effect_once_def

section \<open>Runs\<close>

text \<open>
  Any caller's use of the coordinator is a sequence of method calls. A panicking call leaves the
  state as it was: every \<open>assert\<close> of the code stands before the first write that it guards, and
  the entry that \<open>acquire_slot\<close> and \<open>consume_quota\<close> may create has the asserted capacity.
\<close>

datatype fleet_op =
    Advance u64
  | Claim string string u64
  | Renew string string u64 u64
  | Commit string string u64
  | AcquireSlot string string u64 u64
  | ConsumeQuota string u64 u64 u64
  | Heartbeat string u64
  | WorkerIsAlive string
  | FireCron string string u64 string u64
  | Cas string u64 string
  | SideEffect string string

definition after :: "coordinator \<Rightarrow> (coordinator \<times> 'r) call \<Rightarrow> coordinator" where
  "after c r = (case r of Inl _ \<Rightarrow> c | Inr (c', _) \<Rightarrow> c')"

lemma after_simps [simp]: "after c (Inl m) = c" "after c (Inr (c', x)) = c'"
  by (simp_all add: after_def)

fun fleet_step :: "coordinator \<Rightarrow> fleet_op \<Rightarrow> coordinator" where
  "fleet_step c (Advance s) = advance c s"
| "fleet_step c (Claim r h ttl) = after c (claim c r h ttl)"
| "fleet_step c (Renew r h t ttl) = after c (renew c r h t ttl)"
| "fleet_step c (Commit r h t) = fst (commit_if_current c r h t)"
| "fleet_step c (AcquireSlot p h n ttl) = after c (acquire_slot c p h n ttl)"
| "fleet_step c (ConsumeQuota q u n w) = after c (consume_quota c q u n w)"
| "fleet_step c (Heartbeat w ttl) = after c (heartbeat c w ttl)"
| "fleet_step c (WorkerIsAlive w) = fst (worker_is_alive c w)"
| "fleet_step c (FireCron r h t j at) = fst (fire_cron_once c r h t j at)"
| "fleet_step c (Cas k n v) = fst (cas c k n v)"
| "fleet_step c (SideEffect k p) = fst (perform_side_effect_once c k p)"

abbreviation fleet_run :: "coordinator \<Rightarrow> fleet_op list \<Rightarrow> coordinator" where
  "fleet_run \<equiv> foldl fleet_step"

text \<open>The clock never goes back.\<close>

lemma fleet_step_now: "now c \<le> now (fleet_step c e)"
  by (cases e) (auto simp: coordinator_ops sat_add_le1 Let_def split: option.split prod.split bool.split)

end
