(* ===== verification/Coordinator_Leases.thy ===== *)
theory Coordinator_Leases
  imports Coordinator
begin

text \<open>
  What the coordinator's leases guarantee: a fencing token that has been superseded, or whose
  lease has expired, never authorises anything again, whatever calls follow; and a live lease
  keeps every other claimant out until it expires. The laws of the lease table that these rest
  on are the locale \<open>lease_authority\<close>, interpreted on the coordinator.
\<close>

section \<open>The interface of a lease table\<close>

locale lease_authority = step_system step inv
  for step :: "'s \<Rightarrow> 'e \<Rightarrow> 's" and inv :: "'s \<Rightarrow> bool" +
  fixes table :: "'s \<Rightarrow> 'r \<Rightarrow> lease option"
    and issued :: "'s \<Rightarrow> u64"
    and clock :: "'s \<Rightarrow> u64"
  assumes token_issued: "inv s \<Longrightarrow> table s r = Some l \<Longrightarrow> lease_token l \<le> issued s"
    and issued_mono: "issued s \<le> issued (step s e)"
    and clock_mono: "clock s \<le> clock (step s e)"
    and entry_origin: "inv s \<Longrightarrow> table (step s e) r = Some l' \<Longrightarrow>
      (\<exists>l. table s r = Some l \<and> lease_token l = lease_token l' \<and>
           (lease_expires_at l' = lease_expires_at l \<or> clock s < lease_expires_at l)) \<or>
      lease_token l' = sat_add (issued s) 1"
begin

lemma clock_run: "clock s \<le> clock (foldl step s es)"
  by (induction es arbitrary: s) (auto intro: order_trans clock_mono)

text \<open>A token below the current entry's stays below every later entry's.\<close>

lemma superseded_run:
  assumes "inv s" and "table s r = Some l" and "t < lease_token l"
    and "table (foldl step s es) r = Some l'"
  shows "t < lease_token l'"
proof -
  let ?P = "\<lambda>s. t < issued s \<and> (\<forall>l'. table s r = Some l' \<longrightarrow> t < lease_token l')"
  have "?P (foldl step s es)"
  proof (rule run_closed)
    show "?P s" using assms(1-3) token_issued [OF assms(1,2)] by auto
  next
    fix s e assume s: "inv s" "?P s"
    then have "t < issued (step s e)" using issued_mono [of s e] by (blast intro: order_less_le_trans)
    moreover have "t < sat_add (issued s) 1"
      using s(2) sat_add_le1 [of "issued s" 1] by (blast intro: order_less_le_trans)
    ultimately show "?P (step s e)" using s entry_origin [OF s(1)] by metis
  qed (rule assms(1))
  with assms(4) show ?thesis by blast
qed

text \<open>An entry that has expired never lives again under the same token.\<close>

lemma expired_run:
  assumes "inv s" and "table s r = Some l" and "lease_expires_at l \<le> clock s"
    and "lease_token l \<noteq> - 1"
    and "table (foldl step s es) r = Some l'" and "lease_token l' = lease_token l"
  shows "lease_expires_at l' \<le> clock (foldl step s es)"
proof -
  let ?t = "lease_token l"
  let ?P = "\<lambda>s. ?t \<le> issued s \<and>
    (\<forall>l'. table s r = Some l' \<and> lease_token l' = ?t \<longrightarrow> lease_expires_at l' \<le> clock s)"
  have "?P (foldl step s es)"
  proof (rule run_closed)
    show "?P s" using assms(1-3) token_issued [OF assms(1,2)] by auto
  next
    fix s e assume s: "inv s" "?P s"
    have new: "sat_add (issued s) 1 \<noteq> ?t"
      using s(2) assms(4) sat_add_one_less [of "issued s"] sat_add_le1 [of "issued s" 1]
      by (metis order_antisym_conv order_less_le leD)
    have "lease_expires_at l' \<le> clock (step s e)"
      if l': "table (step s e) r = Some l'" "lease_token l' = ?t" for l'
    proof -
      from entry_origin [OF s(1) l'(1)] new l'(2) obtain k where
        k: "table s r = Some k" "lease_token k = ?t"
        and ex: "lease_expires_at l' = lease_expires_at k \<or> clock s < lease_expires_at k"
        by auto
      with s(2) have "lease_expires_at k \<le> clock s" by blast
      with ex have "lease_expires_at l' \<le> clock s" by (auto simp: leD)
      then show ?thesis using clock_mono order_trans by blast
    qed
    moreover have "?t \<le> issued (step s e)" using s(2) issued_mono order_trans by blast
    ultimately show "?P (step s e)" by blast
  qed (rule assms(1))
  with assms(5,6) show ?thesis by blast
qed

end

section \<open>The coordinator provides it\<close>

definition lease_inv :: "coordinator \<Rightarrow> bool" where
  "lease_inv c \<longleftrightarrow> (\<forall>r l. leases c r = Some l \<longrightarrow> lease_token l \<le> next_fencing_token c)"

lemma lease_inv_token: "lease_inv c \<Longrightarrow> leases c r = Some l \<Longrightarrow> lease_token l \<le> next_fencing_token c"
  by (simp add: lease_inv_def)

lemma lease_inv_default: "lease_inv coordinator_default"
  by (simp add: lease_inv_def coordinator_default_def)

text \<open>Only \<open>claim\<close> and \<open>renew\<close> write the lease table; the other operations frame it.\<close>

lemma leases_frame:
  "leases (advance c s) = leases c"
  "leases (fst (commit_if_current c r h t)) = leases c"
  "leases (after c (acquire_slot c p h n ttl)) = leases c"
  "leases (after c (consume_quota c q u n win)) = leases c"
  "leases (after c (heartbeat c w ttl)) = leases c"
  "leases (fst (worker_is_alive c w)) = leases c"
  "leases (fst (fire_cron_once c r h t j at)) = leases c"
  "leases (fst (cas c k n v)) = leases c"
  "leases (fst (perform_side_effect_once c k p)) = leases c"
  by (auto simp: coordinator_ops Let_def split: option.split)

lemma tokens_frame:
  "next_fencing_token (advance c s) = next_fencing_token c"
  "next_fencing_token (fst (commit_if_current c r h t)) = next_fencing_token c"
  "next_fencing_token (after c (renew c r h t ttl)) = next_fencing_token c"
  "next_fencing_token (after c (acquire_slot c p h n ttl)) = next_fencing_token c"
  "next_fencing_token (after c (consume_quota c q u n win)) = next_fencing_token c"
  "next_fencing_token (after c (heartbeat c w ttl)) = next_fencing_token c"
  "next_fencing_token (fst (worker_is_alive c w)) = next_fencing_token c"
  "next_fencing_token (fst (fire_cron_once c r h t j at)) = next_fencing_token c"
  "next_fencing_token (fst (cas c k n v)) = next_fencing_token c"
  "next_fencing_token (fst (perform_side_effect_once c k p)) = next_fencing_token c"
  by (auto simp: coordinator_ops Let_def split: option.split)

lemmas lease_frame = leases_frame tokens_frame

lemma fleet_step_token: "next_fencing_token c \<le> next_fencing_token (fleet_step c e)"
  by (cases e) (auto simp: lease_frame claim_def Let_def sat_add_le1 split: option.split)

lemma claim_entry:
  "leases (after c (claim c r' h ttl)) r =
     (if r = r' \<and> ttl \<noteq> 0 \<and> active_lease c r = None
      then Some \<lparr> lease_holder = h, lease_token = sat_add (next_fencing_token c) 1,
                  lease_expires_at = sat_add (now c) ttl \<rparr>
      else leases c r)"
  by (auto simp: claim_def Let_def split: option.split)

lemma renew_entry:
  "leases (after c (renew c r' h t ttl)) r =
     (case leases c r of
        Some l \<Rightarrow> if r = r' \<and> ttl \<noteq> 0 \<and> now c < lease_expires_at l \<and> lease_holder l = h
                     \<and> lease_token l = t
                  then Some (l\<lparr> lease_expires_at := sat_add (now c) ttl \<rparr>) else Some l
      | None \<Rightarrow> None)"
  by (auto simp: renew_def not_le split: option.split)

lemma fleet_entry_origin:
  assumes "leases (fleet_step c e) r = Some l'"
  shows "(\<exists>l. leases c r = Some l \<and> lease_token l = lease_token l' \<and>
            (lease_expires_at l' = lease_expires_at l \<or> now c < lease_expires_at l)) \<or>
         lease_token l' = sat_add (next_fencing_token c) 1"
  using assms
  by (cases e) (auto simp: lease_frame claim_entry renew_entry split: if_splits option.splits)

lemma fleet_step_lease_inv [wf_intros]: "lease_inv c \<Longrightarrow> lease_inv (fleet_step c e)"
proof (unfold lease_inv_def, intro allI impI)
  fix r l'
  assume inv: "\<forall>r l. leases c r = Some l \<longrightarrow> lease_token l \<le> next_fencing_token c"
    and l': "leases (fleet_step c e) r = Some l'"
  show "lease_token l' \<le> next_fencing_token (fleet_step c e)"
  proof (cases "\<exists>l. leases c r = Some l \<and> lease_token l = lease_token l'")
    case True
    with inv have "lease_token l' \<le> next_fencing_token c" by metis
    then show ?thesis using fleet_step_token order_trans by blast
  next
    case False
    with l' show ?thesis
      by (cases e) (auto simp: lease_frame claim_entry renew_entry claim_def Let_def
            split: if_splits option.splits)
  qed
qed

interpretation fleet: lease_authority fleet_step lease_inv leases next_fencing_token now
  by unfold_locales (auto intro: fleet_step_lease_inv lease_inv_token fleet_step_token fleet_step_now
      dest: fleet_entry_origin)

lemma commit_iff:
  "snd (commit_if_current c r h t) \<longleftrightarrow>
     (\<exists>l. leases c r = Some l \<and> now c < lease_expires_at l \<and> lease_holder l = h \<and> lease_token l = t)"
  by (auto simp: commit_if_current_def Let_def split: option.split)

lemma renew_iff:
  "ttl \<noteq> 0 \<Longrightarrow> (\<exists>c'. renew c r h t ttl = Inr (c', True)) \<longleftrightarrow>
     (\<exists>l. leases c r = Some l \<and> now c < lease_expires_at l \<and> lease_holder l = h \<and> lease_token l = t)"
  by (auto simp: renew_def not_le split: option.split)

lemma fire_needs_commit:
  "snd (fire_cron_once c r h t j at) \<Longrightarrow> snd (commit_if_current c r h t)"
  by (auto simp: fire_cron_once_def split: prod.splits bool.splits)


lemma reachable_lease_inv: "lease_inv (fleet_run coordinator_default es)"
  by (rule fleet.run_inv) (rule lease_inv_default)

lemma claim_granted:
  assumes "claim c r h ttl = Inr (c', Inr l)"
  shows "ttl \<noteq> 0" "active_lease c r = None" "lease_holder l = h"
    "lease_token l = sat_add (next_fencing_token c) 1"
    "lease_expires_at l = sat_add (now c) ttl" "leases c' r = Some l" "now c' = now c"
    "next_fencing_token c' = lease_token l"
  using assms by (auto simp: claim_def Let_def split: if_splits option.splits)

lemma claim_is_step: "claim c r h ttl = Inr (c', x) \<Longrightarrow> c' = fleet_step c (Claim r h ttl)"
  by simp

text \<open>A lease that is never renewed by its holder stays in the table while it is live.\<close>

lemma live_lease_kept_step:
  assumes "leases c r = Some l" and "now c < lease_expires_at l"
    and "\<And>ttl. e \<noteq> Renew r (lease_holder l) (lease_token l) ttl"
  shows "leases (fleet_step c e) r = Some l"
  using assms
  by (cases e) (auto simp: lease_frame claim_entry renew_entry active_lease_def)

lemma live_lease_kept:
  assumes "leases c r = Some l" and "now (fleet_run c es) < lease_expires_at l"
    and "\<forall>ttl. Renew r (lease_holder l) (lease_token l) ttl \<notin> set es"
  shows "leases (fleet_run c es) r = Some l"
  using assms(2,3)
proof (induction es rule: rev_induct)
  case Nil
  show ?case using assms(1) by simp
next
  case (snoc e es)
  have "now (fleet_run c es) < lease_expires_at l"
    using snoc.prems(1) fleet_step_now [of "fleet_run c es" e] by (auto intro: order_le_less_trans)
  with snoc show ?case by (auto intro!: live_lease_kept_step)
qed

section \<open>Properties\<close>

text \<open>C10: a superseded fencing token is dead. Once a claim on a resource has been granted, no token
  that the coordinator had issued before it can commit, renew or fire a cron job on that resource,
  for any holder and after any further calls, as long as the \<open>u64\<close> token counter had not saturated
  when the claim was granted.\<close>

theorem stale_token_fenced:
  assumes "claim (fleet_run coordinator_default es0) r h ttl = Inr (c1, Inr l)"
    and "next_fencing_token (fleet_run coordinator_default es0) \<noteq> - 1"
    and "t \<le> next_fencing_token (fleet_run coordinator_default es0)"
    and "ttl' \<noteq> 0"
  shows "\<not> snd (commit_if_current (fleet_run c1 es) r h' t) \<and>
         \<not> snd (fire_cron_once (fleet_run c1 es) r h' t job at) \<and>
         (\<exists>c2. renew (fleet_run c1 es) r h' t ttl' = Inr (c2, False))"
proof -
  let ?c = "fleet_run coordinator_default es0"
  have c1: "c1 = fleet_run coordinator_default (es0 @ [Claim r h ttl])"
    using claim_is_step [OF assms(1)] by simp
  have "t < lease_token l"
    using assms(2,3) sat_add_one_less [of "next_fencing_token ?c"] claim_granted(4) [OF assms(1)]
    by (auto intro: order_le_less_trans)
  then have above: "t < lease_token l'" if "leases (fleet_run c1 es) r = Some l'" for l'
    using that fleet.superseded_run [OF _ claim_granted(6) [OF assms(1)]]
    by (simp add: c1 reachable_lease_inv del: foldl_append)
  then have dead: "\<not> (\<exists>l'. leases (fleet_run c1 es) r = Some l' \<and> now (fleet_run c1 es) < lease_expires_at l'
      \<and> lease_holder l' = h' \<and> lease_token l' = t)"
    by blast
  then show ?thesis
    using fire_needs_commit [of "fleet_run c1 es" r h' t job at] renew_iff [OF assms(4)]
    unfolding commit_iff by (auto simp: renew_def assms(4) split: option.splits)
qed

text \<open>C25: an expired lease cannot be resurrected. Once the clock has reached a lease's expiry, its
  fencing token never commits and is never renewed again on that resource, whatever calls
  follow, unless the token is the saturated maximum.\<close>

theorem expired_lease_never_revives:
  assumes "leases (fleet_run coordinator_default es0) r = Some l"
    and "lease_expires_at l \<le> now (fleet_run coordinator_default es0)"
    and "lease_token l \<noteq> - 1" and "ttl \<noteq> 0"
  shows "\<not> snd (commit_if_current (fleet_run (fleet_run coordinator_default es0) es) r h (lease_token l)) \<and>
         (\<exists>c2. renew (fleet_run (fleet_run coordinator_default es0) es) r h (lease_token l) ttl = Inr (c2, False))"
proof -
  let ?d = "fleet_run (fleet_run coordinator_default es0) es"
  have "lease_expires_at l' \<le> now ?d" if "leases ?d r = Some l'" "lease_token l' = lease_token l" for l'
    using fleet.expired_run [OF reachable_lease_inv assms(1-3) that] .
  then have dead: "\<not> (\<exists>l'. leases ?d r = Some l' \<and> now ?d < lease_expires_at l' \<and> lease_holder l' = h
      \<and> lease_token l' = lease_token l)"
    by (auto simp: leD)
  then show ?thesis
    unfolding commit_iff by (auto simp: renew_def assms(4) split: option.splits)
qed

text \<open>C35: exactly one agent wins a race. After a granted claim, as long as the lease has not expired
  and its holder has not renewed it, every further claim on the resource (by anyone) is rejected
  naming the holder and the expiry, changes no lease and issues no token, and the holder's commit
  is accepted, whatever other calls were made in between.\<close>

theorem live_lease_excludes:
  assumes "claim c r h ttl = Inr (c1, Inr l)"
    and "now (fleet_run c1 es) < lease_expires_at l"
    and "\<forall>ttl'. Renew r h (lease_token l) ttl' \<notin> set es" and "ttl2 \<noteq> 0"
  shows "\<exists>c2. claim (fleet_run c1 es) r h2 ttl2 = Inr (c2, Inl (HeldBy h (lease_expires_at l))) \<and>
              leases c2 = leases (fleet_run c1 es) \<and>
              next_fencing_token c2 = next_fencing_token (fleet_run c1 es) \<and>
              snd (commit_if_current (fleet_run c1 es) r h (lease_token l))"
proof -
  have "leases (fleet_run c1 es) r = Some l"
    using live_lease_kept [OF claim_granted(6) [OF assms(1)] assms(2)] assms(3)
    by (simp add: claim_granted(3) [OF assms(1)])
  with assms(2,4) claim_granted(3) [OF assms(1)] show ?thesis
    by (auto simp: claim_def active_lease_def commit_iff)
qed

section \<open>Witnesses\<close>

lemmas lease_eval = claim_def renew_def commit_if_current_def fire_cron_once_def active_lease_def
  advance_def coordinator_default_def tally_def sat_add_def Let_def

theorem stale_token_fenced_witness:
  "\<not> snd (commit_if_current (fleet_run
      (fleet_step (fleet_run coordinator_default [Claim ''t'' ''a'' 5, Advance 5]) (Claim ''t'' ''b'' 5))
      [Advance 1]) ''t'' ''a'' 1)"
proof -
  let ?pre = "[Claim ''t'' ''a'' 5, Advance 5]"
  obtain c1 l where cl: "claim (fleet_run coordinator_default ?pre) ''t'' ''b'' 5 = Inr (c1, Inr l)"
    by (simp add: lease_eval)
  have "next_fencing_token (fleet_run coordinator_default ?pre) = 1" by (simp add: lease_eval)
  then show ?thesis
    using stale_token_fenced [OF cl, of 1 1 "[Advance 1]" "''a''"] cl by simp
qed

theorem expired_lease_never_revives_witness:
  "\<not> snd (commit_if_current
      (fleet_run (fleet_run coordinator_default [Claim ''t'' ''a'' 5, Advance 5]) [Claim ''t'' ''b'' 9])
      ''t'' ''a'' 1)"
proof -
  let ?pre = "[Claim ''t'' ''a'' 5, Advance 5]"
  have "leases (fleet_run coordinator_default ?pre) ''t'' =
      Some \<lparr> lease_holder = ''a'', lease_token = 1, lease_expires_at = 5 \<rparr>"
    and "now (fleet_run coordinator_default ?pre) = 5"
    by (simp_all add: lease_eval)
  then show ?thesis
    using expired_lease_never_revives [of ?pre "''t''" _ 1 "[Claim ''t'' ''b'' 9]" "''a''"] by fastforce
qed

theorem live_lease_excludes_witness:
  "\<exists>c2. claim (fleet_run (fleet_step coordinator_default (Claim ''t'' ''a'' 10)) [Advance 3])
        ''t'' ''b'' 10 = Inr (c2, Inl (HeldBy ''a'' 10))"
proof -
  obtain c1 l where cl: "claim coordinator_default ''t'' ''a'' 10 = Inr (c1, Inr l)"
    by (simp add: lease_eval)
  have "lease_expires_at l = 10" and "now (fleet_run c1 [Advance 3]) = 3"
    using claim_granted(5,7) [OF cl] by (simp_all add: lease_eval)
  then show ?thesis
    using live_lease_excludes [OF cl, of "[Advance 3]" 10 "''b''"] cl by auto
qed

end
