(* ===== verification/Coordinator_Capacity.thy ===== *)
theory Coordinator_Capacity
  imports Coordinator
begin

text \<open>
  The coordinator's finite capacities: semaphore slots are never oversubscribed, and the units
  granted from a quota inside one window never exceed its capacity. Liveness of workers is here
  too: a worker is alive exactly until its heartbeat's expiry, and an expiry is counted once.
\<close>

section \<open>Semaphore slots\<close>

definition slot_ok :: "semaphore \<Rightarrow> bool" where
  "slot_ok s \<longleftrightarrow> sem_capacity s \<noteq> 0 \<and> hm_wf (sem_holders s)
     \<and> hm_len (sem_holders s) \<le> unat (sem_capacity s)"

definition slot_inv :: "coordinator \<Rightarrow> bool" where
  "slot_inv c \<longleftrightarrow> (\<forall>p s. semaphores c p = Some s \<longrightarrow> slot_ok s)"

lemma slot_inv_default: "slot_inv coordinator_default"
  by (simp add: slot_inv_def coordinator_default_def)

text \<open>Who holds a slot of a pool at the coordinator's present time.\<close>

definition live_holders :: "coordinator \<Rightarrow> string \<Rightarrow> string set" where
  "live_holders c p =
     (case semaphores c p of
        None \<Rightarrow> {}
      | Some s \<Rightarrow> {h. \<exists>e. hm_get (sem_holders s) h = Some e \<and> now c < e})"

lemma semaphores_frame:
  "semaphores (advance c s) = semaphores c"
  "semaphores (after c (claim c r h ttl)) = semaphores c"
  "semaphores (after c (renew c r h t ttl)) = semaphores c"
  "semaphores (fst (commit_if_current c r h t)) = semaphores c"
  "semaphores (after c (consume_quota c q u n win)) = semaphores c"
  "semaphores (after c (heartbeat c w ttl)) = semaphores c"
  "semaphores (fst (worker_is_alive c w)) = semaphores c"
  "semaphores (fst (fire_cron_once c r h t j at)) = semaphores c"
  "semaphores (fst (cas c k m v)) = semaphores c"
  "semaphores (fst (perform_side_effect_once c k p)) = semaphores c"
  by (auto simp: coordinator_ops Let_def split: option.split)

lemma slot_ok_fresh: "n \<noteq> 0 \<Longrightarrow> slot_ok \<lparr> sem_capacity = n, sem_holders = [] \<rparr>"
  by (simp add: slot_ok_def hm_len_def)

lemma slot_ok_live: "slot_ok s \<Longrightarrow> slot_ok (s\<lparr> sem_holders := hm_retain P (sem_holders s) \<rparr>)"
  using hm_len_retain [of P "sem_holders s"] by (simp add: slot_ok_def)

lemma slot_ok_grant:
  assumes "slot_ok (s\<lparr> sem_holders := live \<rparr>)"
    and "hm_get live h \<noteq> None \<or> \<not> unat (sem_capacity s) \<le> hm_len live"
  shows "slot_ok (s\<lparr> sem_holders := hm_insert h e live \<rparr>)"
  using assms by (auto simp: slot_ok_def hm_len_insert)

text \<open>The three ways \<open>acquire_slot\<close> ends without a panic: refreshed, granted, denied.\<close>

lemma acquire_slot_cases:
  assumes "acquire_slot c p h n ttl = Inr (c', granted)"
  obtains sem live where
    "sem = (case semaphores c p of Some s \<Rightarrow> s | None \<Rightarrow> \<lparr> sem_capacity = n, sem_holders = [] \<rparr>)"
    "sem_capacity sem = n" "n \<noteq> 0" "ttl \<noteq> 0"
    "live = hm_retain (\<lambda>_ e. now c < e) (sem_holders sem)"
    "granted \<longleftrightarrow> hm_get live h \<noteq> None \<or> \<not> unat n \<le> hm_len live"
    "semaphores c' = (semaphores c)(p \<mapsto> sem\<lparr> sem_holders :=
       (if granted then hm_insert h (sat_add (now c) ttl) live else live) \<rparr>)"
    "now c' = now c"
  using assms
  by (auto simp: acquire_slot_def Let_def split: if_splits option.splits)

lemma acquire_slot_semaphores:
  assumes "slot_inv c" and "acquire_slot c p h n ttl = Inr (c', granted)"
  shows "slot_inv c'"
proof -
  obtain sem live where sem:
    "sem = (case semaphores c p of Some s \<Rightarrow> s | None \<Rightarrow> \<lparr> sem_capacity = n, sem_holders = [] \<rparr>)"
    "sem_capacity sem = n" "n \<noteq> 0"
    and live: "live = hm_retain (\<lambda>_ e. now c < e) (sem_holders sem)"
    and g: "granted \<longleftrightarrow> hm_get live h \<noteq> None \<or> \<not> unat n \<le> hm_len live"
    and c': "semaphores c' = (semaphores c)(p \<mapsto> sem\<lparr> sem_holders :=
       (if granted then hm_insert h (sat_add (now c) ttl) live else live) \<rparr>)"
    using assms(2) by (rule acquire_slot_cases)
  have "slot_ok sem"
    using assms(1) sem by (auto simp: slot_inv_def slot_ok_fresh split: option.splits)
  then have "slot_ok (sem\<lparr> sem_holders := live \<rparr>)"
    unfolding live by (rule slot_ok_live)
  then have "slot_ok (sem\<lparr> sem_holders :=
       (if granted then hm_insert h (sat_add (now c) ttl) live else live) \<rparr>)"
    using g sem(2) by (auto intro: slot_ok_grant)
  with assms(1) show ?thesis by (auto simp: slot_inv_def c')
qed

lemma fleet_step_slot_inv [wf_intros]: "slot_inv c \<Longrightarrow> slot_inv (fleet_step c e)"
proof (cases "\<exists>p h n ttl. e = AcquireSlot p h n ttl")
  case True
  moreover assume "slot_inv c"
  ultimately show ?thesis
    by (auto simp: after_def intro: acquire_slot_semaphores split: sum.splits)
next
  case False
  moreover assume "slot_inv c"
  ultimately show ?thesis by (cases e) (auto simp: slot_inv_def semaphores_frame)
qed

interpretation slots: step_system fleet_step slot_inv
  by unfold_locales (rule fleet_step_slot_inv)

lemma finite_hm_dom: "finite {h. \<exists>e. hm_get m h = Some e \<and> P e}"
  by (rule finite_subset [of _ "fst ` set m"])
    (auto simp: hm_get_def dest!: map_of_SomeD intro: rev_image_eqI)

lemma card_live_le:
  assumes "hm_wf m"
  shows "card {h. \<exists>e. hm_get m h = Some e \<and> P e} = hm_len (hm_retain (\<lambda>_ e. P e) m)"
proof -
  have "{h. \<exists>e. hm_get m h = Some e \<and> P e} = {h. hm_get (hm_retain (\<lambda>_ e. P e) m) h \<noteq> None}"
    using assms by (auto simp: hm_get_retain split: option.splits)
  then show ?thesis using hm_len_dom [OF hm_wf_retain [OF assms]] by simp
qed

lemma live_holders_bound:
  assumes "slot_inv c" and "semaphores c p = Some s"
  shows "card (live_holders c p) \<le> unat (sem_capacity s)"
proof -
  have "card (live_holders c p) = hm_len (hm_retain (\<lambda>_ e. now c < e) (sem_holders s))"
    using assms by (auto simp: live_holders_def slot_inv_def slot_ok_def card_live_le)
  also have "\<dots> \<le> hm_len (sem_holders s)" by (rule hm_len_retain)
  also have "\<dots> \<le> unat (sem_capacity s)" using assms by (auto simp: slot_inv_def slot_ok_def)
  finally show ?thesis .
qed

section \<open>Quota windows\<close>

definition quota_inv :: "coordinator \<Rightarrow> bool" where
  "quota_inv c \<longleftrightarrow> (\<forall>q w. rate_windows c q = Some w \<longrightarrow>
     rw_used w \<le> rw_capacity w \<and> rw_starts_at w \<le> now c)"

lemma quota_inv_default: "quota_inv coordinator_default"
  by (simp add: quota_inv_def coordinator_default_def)

lemma rate_windows_frame:
  "rate_windows (advance c s) = rate_windows c"
  "rate_windows (after c (claim c r h ttl)) = rate_windows c"
  "rate_windows (after c (renew c r h t ttl)) = rate_windows c"
  "rate_windows (fst (commit_if_current c r h t)) = rate_windows c"
  "rate_windows (after c (acquire_slot c p h n ttl)) = rate_windows c"
  "rate_windows (after c (heartbeat c w ttl)) = rate_windows c"
  "rate_windows (fst (worker_is_alive c w)) = rate_windows c"
  "rate_windows (fst (fire_cron_once c r h t j at)) = rate_windows c"
  "rate_windows (fst (cas c k m v)) = rate_windows c"
  "rate_windows (fst (perform_side_effect_once c k x)) = rate_windows c"
  by (auto simp: coordinator_ops Let_def split: option.split)

lemma consume_quota_now: "now (after c (consume_quota c q u n win)) = now c"
  by (auto simp: consume_quota_def Let_def split: option.split)

text \<open>Room for the units means that adding them does not wrap and stays within capacity.\<close>

lemma quota_room:
  fixes capa used units :: u64
  assumes "\<not> sat_sub capa used < units" and "used \<le> capa"
  shows "used + units \<le> capa" and "unat (used + units) = unat used + unat units"
proof -
  from assms have le: "unat used + unat units \<le> unat capa"
    by (simp add: word_less_nat_alt unat_sat_sub word_le_nat_alt)
  then have "unat used + unat units < 2 ^ LENGTH(64)"
    using unsigned_less [of capa, where ?'a = nat] by linarith
  then show eq: "unat (used + units) = unat used + unat units"
    by (simp add: unat_word_ariths)
  show "used + units \<le> capa" using le by (simp add: word_le_nat_alt eq)
qed

lemma fleet_step_quota_inv [wf_intros]:
  assumes "quota_inv c" shows "quota_inv (fleet_step c e)"
proof (cases "\<exists>q u n win. e = ConsumeQuota q u n win")
  case True
  then obtain q u n win where e: "e = ConsumeQuota q u n win" by blast
  show ?thesis
    using assms unfolding e quota_inv_def fleet_step.simps consume_quota_now
    by (auto simp: consume_quota_def Let_def quota_room(1) not_less split: if_splits option.splits)
next
  case False
  then have "rate_windows (fleet_step c e) = rate_windows c"
    by (cases e) (auto simp: rate_windows_frame)
  with assms show ?thesis
    using fleet_step_now [of c e] by (auto simp: quota_inv_def intro: order_trans)
qed

interpretation quotas: monotone_system fleet_step quota_inv now
  by unfold_locales (auto intro: fleet_step_quota_inv fleet_step_now)


text \<open>The units that a run grants from one quota.\<close>

definition quota_grant :: "string \<Rightarrow> coordinator \<Rightarrow> fleet_op \<Rightarrow> nat" where
  "quota_grant q c e =
     (case e of
        ConsumeQuota q' u n win \<Rightarrow>
          (case consume_quota c q' u n win of
             Inr (_, True) \<Rightarrow> if q' = q then unat u else 0
           | _ \<Rightarrow> 0)
      | _ \<Rightarrow> 0)"

fun quota_granted :: "string \<Rightarrow> coordinator \<Rightarrow> fleet_op list \<Rightarrow> nat" where
  "quota_granted q c [] = 0"
| "quota_granted q c (e # es) = quota_grant q c e + quota_granted q (fleet_step c e) es"

text \<open>Inside a window, a step adds what it grants to the window's use and keeps its frame.\<close>

lemma quota_step:
  assumes "quota_inv c" and "rate_windows c q = Some w"
    and "now c < sat_add (rw_starts_at w) (rw_window_seconds w)"
  shows "\<exists>w'. rate_windows (fleet_step c e) q = Some w' \<and> rw_capacity w' = rw_capacity w \<and>
     rw_window_seconds w' = rw_window_seconds w \<and> rw_starts_at w' = rw_starts_at w \<and>
     unat (rw_used w') = unat (rw_used w) + quota_grant q c e"
proof (cases "\<exists>q' u n win. e = ConsumeQuota q' u n win")
  case True
  then obtain q' u n win where e: "e = ConsumeQuota q' u n win" by blast
  have "rw_used w \<le> rw_capacity w" using assms(1,2) by (simp add: quota_inv_def)
  then show ?thesis
    using assms(2,3) unfolding e
    by (auto simp: consume_quota_def quota_grant_def Let_def quota_room(2) not_le)
next
  case False
  then have "rate_windows (fleet_step c e) = rate_windows c" and "quota_grant q c e = 0"
    by (cases e; auto simp: rate_windows_frame quota_grant_def)+
  with assms(2) show ?thesis by simp
qed

lemma quota_run:
  assumes "quota_inv c" and "rate_windows c q = Some w"
    and "now (fleet_run c es) < sat_add (rw_starts_at w) (rw_window_seconds w)"
  shows "unat (rw_used w) + quota_granted q c es \<le> unat (rw_capacity w)"
  using assms
proof (induction es arbitrary: c w)
  case Nil
  then show ?case by (simp add: quota_inv_def word_le_nat_alt)
next
  case (Cons e es)
  have "now c \<le> now (fleet_run c (e # es))" by (rule quotas.run_mono [OF Cons.prems(1)])
  then have "now c < sat_add (rw_starts_at w) (rw_window_seconds w)"
    using Cons.prems(3) by (rule order_le_less_trans)
  with quota_step [OF Cons.prems(1,2)] obtain w' where
    w': "rate_windows (fleet_step c e) q = Some w'" "rw_capacity w' = rw_capacity w"
      "rw_window_seconds w' = rw_window_seconds w" "rw_starts_at w' = rw_starts_at w"
      "unat (rw_used w') = unat (rw_used w) + quota_grant q c e"
    by blast
  have "unat (rw_used w') + quota_granted q (fleet_step c e) es \<le> unat (rw_capacity w')"
    using Cons.prems(1,3) w' by (intro Cons.IH) (auto intro: fleet_step_quota_inv)
  with w' show ?case by simp
qed

section \<open>Heartbeats\<close>

text \<open>A second check of a dead worker changes nothing: its expiry has been counted.\<close>

lemma worker_check_idempotent:
  "worker_is_alive (fst (worker_is_alive c w)) w = (fst (worker_is_alive c w), snd (worker_is_alive c w))"
  by (auto simp: worker_is_alive_def Let_def split: option.split)

section \<open>Properties\<close>

text \<open>C27: slots are never oversubscribed. In every state that any sequence of calls can reach, the
  holders of a pool's slots whose slot has not expired are at most as many as the pool's capacity.\<close>

theorem slots_never_oversubscribed:
  "card (live_holders (fleet_run coordinator_default es) p) \<le>
     (case semaphores (fleet_run coordinator_default es) p of None \<Rightarrow> 0 | Some s \<Rightarrow> unat (sem_capacity s))"
  using live_holders_bound [OF slots.run_inv [OF slot_inv_default]]
  by (auto simp: live_holders_def split: option.split)

text \<open>A slot request is decided exactly by the live holders. In a reachable state, a request that
  does not panic is granted if and only if the requester already holds a live slot or fewer slots
  than the capacity are live; the live holders afterwards are the old ones, with the requester
  added exactly when it was granted (the clock not being saturated).\<close>

lemma acquire_slot_decides:
  assumes "acquire_slot (fleet_run coordinator_default es) p h n ttl = Inr (c', granted)"
    and "now (fleet_run coordinator_default es) \<noteq> - 1"
  shows "(granted \<longleftrightarrow> h \<in> live_holders (fleet_run coordinator_default es) p \<or>
            card (live_holders (fleet_run coordinator_default es) p) < unat n) \<and>
         live_holders c' p = live_holders (fleet_run coordinator_default es) p \<union> (if granted then {h} else {})"
proof -
  let ?c = "fleet_run coordinator_default es"
  obtain sem live where sem:
    "sem = (case semaphores ?c p of Some s \<Rightarrow> s | None \<Rightarrow> \<lparr> sem_capacity = n, sem_holders = [] \<rparr>)"
    and "ttl \<noteq> 0"
    and live: "live = hm_retain (\<lambda>_ e. now ?c < e) (sem_holders sem)"
    and g: "granted \<longleftrightarrow> hm_get live h \<noteq> None \<or> \<not> unat n \<le> hm_len live"
    and c': "semaphores c' = (semaphores ?c)(p \<mapsto> sem\<lparr> sem_holders :=
       (if granted then hm_insert h (sat_add (now ?c) ttl) live else live) \<rparr>)" "now c' = now ?c"
    using assms(1) by (rule acquire_slot_cases)
  have wf: "hm_wf (sem_holders sem)"
    using slots.run_inv [OF slot_inv_default, of es] sem
    by (auto simp: slot_inv_def slot_ok_def split: option.splits)
  have holders: "live_holders ?c p = {k. \<exists>e. hm_get (sem_holders sem) k = Some e \<and> now ?c < e}"
    using sem by (auto simp: live_holders_def split: option.splits)
  have get: "hm_get live k = None \<longleftrightarrow> k \<notin> live_holders ?c p" for k
    using wf by (auto simp: live holders hm_get_retain split: option.splits)
  have expiry: "hm_get live k = Some e \<Longrightarrow> now ?c < e" for k e
    using wf by (auto simp: live hm_get_retain split: option.splits if_splits)
  have "card (live_holders ?c p) = hm_len live"
    unfolding holders live by (rule card_live_le [OF wf])
  then have decided: "granted \<longleftrightarrow> h \<in> live_holders ?c p \<or> card (live_holders ?c p) < unat n"
    using g get [of h] by auto
  have "now ?c < sat_add (now ?c) ttl" using assms(2) \<open>ttl \<noteq> 0\<close> by (rule sat_add_less)
  then have "k \<in> live_holders c' p \<longleftrightarrow> k \<in> live_holders ?c p \<or> (granted \<and> k = h)" for k
    using get [of k] expiry [of k] by (auto simp: live_holders_def [of c'] c')
  then have "live_holders c' p = live_holders ?c p \<union> (if granted then {h} else {})"
    by auto
  with decided show ?thesis ..
qed

text \<open>C36: a quota is shared and bounded. From any reachable state, the units granted from a quota to all
  callers before its window ends, together with what the window had already granted, never exceed
  the quota's capacity.\<close>

theorem quota_window_bound:
  assumes "rate_windows (fleet_run coordinator_default es0) q = Some w"
    and "now (fleet_run (fleet_run coordinator_default es0) es) < sat_add (rw_starts_at w) (rw_window_seconds w)"
  shows "unat (rw_used w) + quota_granted q (fleet_run coordinator_default es0) es \<le> unat (rw_capacity w)"
  using quota_run [OF quotas.run_inv [OF quota_inv_default] assms] .

section \<open>Witnesses\<close>

lemmas capacity_eval = acquire_slot_def consume_quota_def advance_def coordinator_default_def
  tally_def sat_add_def sat_sub_def hm_defs Let_def

lemma acquire_slot_decides_instance:
  "\<exists>c'. acquire_slot (fleet_run coordinator_default [AcquireSlot ''p'' ''a'' 1 5]) ''p'' ''b'' 1 5 = Inr (c', False) \<and>
        live_holders c' ''p'' = live_holders (fleet_run coordinator_default [AcquireSlot ''p'' ''a'' 1 5]) ''p''"
proof -
  let ?pre = "[AcquireSlot ''p'' ''a'' 1 5]"
  obtain c' where c': "acquire_slot (fleet_run coordinator_default ?pre) ''p'' ''b'' 1 5 = Inr (c', False)"
    by (simp add: capacity_eval)
  moreover have "now (fleet_run coordinator_default ?pre) \<noteq> - 1" by (simp add: capacity_eval)
  ultimately show ?thesis using acquire_slot_decides [OF c'] by auto
qed

theorem quota_window_bound_witness:
  "rate_windows (fleet_run coordinator_default [ConsumeQuota ''q'' 6 10 60]) ''q'' =
     Some \<lparr> rw_capacity = 10, rw_window_seconds = 60, rw_starts_at = 0, rw_used = 6 \<rparr> \<and>
   6 + quota_granted ''q'' (fleet_run coordinator_default [ConsumeQuota ''q'' 6 10 60])
         [ConsumeQuota ''q'' 4 10 60, ConsumeQuota ''q'' 1 10 60] \<le> 10"
proof -
  let ?pre = "[ConsumeQuota ''q'' 6 10 60]" and ?es = "[ConsumeQuota ''q'' 4 10 60, ConsumeQuota ''q'' 1 10 60]"
  have w: "rate_windows (fleet_run coordinator_default ?pre) ''q'' =
     Some \<lparr> rw_capacity = 10, rw_window_seconds = 60, rw_starts_at = 0, rw_used = 6 \<rparr>"
    by (simp add: capacity_eval)
  moreover have "now (fleet_run (fleet_run coordinator_default ?pre) ?es) = 0"
    by (simp add: capacity_eval)
  ultimately show ?thesis using quota_window_bound [OF w, of ?es] by (simp add: sat_add_def)
qed

end
