(* ===== verification/Coordinator_Records.thy ===== *)
theory Coordinator_Records
  imports Coordinator
begin

text \<open>
  What the coordinator remembers for ever: cron fires and idempotency keys, each accepted at most
  once over any run, and the compare-and-swap store, whose watch log is its exact history.
\<close>

section \<open>At most once\<close>

definition fires :: "(string \<times> u64) \<Rightarrow> coordinator \<Rightarrow> fleet_op \<Rightarrow> bool" where
  "fires k c e =
     (case e of
        FireCron r h t job at \<Rightarrow> (job, at) = k \<and> snd (fire_cron_once c r h t job at)
      | _ \<Rightarrow> False)"

definition performs :: "string \<Rightarrow> coordinator \<Rightarrow> fleet_op \<Rightarrow> bool" where
  "performs k c e =
     (case e of SideEffect k' p \<Rightarrow> k' = k \<and> snd (perform_side_effect_once c k' p) | _ \<Rightarrow> False)"

lemma fire_cron_fires:
  "snd (fire_cron_once c r h t j at) \<longleftrightarrow>
     snd (commit_if_current c r h t) \<and> (j, at) \<notin> cron_fires c"
  "cron_fires (fst (fire_cron_once c r h t j at)) =
     (if snd (commit_if_current c r h t) then insert (j, at) (cron_fires c) else cron_fires c)"
  by (auto simp: fire_cron_once_def commit_if_current_def Let_def split: option.split)

lemma perform_effects:
  "snd (perform_side_effect_once c k p) \<longleftrightarrow> side_effects c k = None"
  "side_effects (fst (perform_side_effect_once c k p)) k' =
     (if k' = k \<and> side_effects c k = None then Some p else side_effects c k')"
  by (auto simp: perform_side_effect_once_def split: option.split)

lemma cron_fires_frame:
  "cron_fires (advance c s) = cron_fires c"
  "cron_fires (after c (claim c r h ttl)) = cron_fires c"
  "cron_fires (after c (renew c r h t ttl)) = cron_fires c"
  "cron_fires (fst (commit_if_current c r h t)) = cron_fires c"
  "cron_fires (after c (acquire_slot c p h n ttl)) = cron_fires c"
  "cron_fires (after c (consume_quota c q u n win)) = cron_fires c"
  "cron_fires (after c (heartbeat c w ttl)) = cron_fires c"
  "cron_fires (fst (worker_is_alive c w)) = cron_fires c"
  "cron_fires (fst (cas c k m v)) = cron_fires c"
  "cron_fires (fst (perform_side_effect_once c k x)) = cron_fires c"
  by (auto simp: coordinator_ops Let_def split: option.split)

lemma side_effects_frame:
  "side_effects (advance c s) = side_effects c"
  "side_effects (after c (claim c r h ttl)) = side_effects c"
  "side_effects (after c (renew c r h t ttl)) = side_effects c"
  "side_effects (fst (commit_if_current c r h t)) = side_effects c"
  "side_effects (after c (acquire_slot c p h n ttl)) = side_effects c"
  "side_effects (after c (consume_quota c q u n win)) = side_effects c"
  "side_effects (after c (heartbeat c w ttl)) = side_effects c"
  "side_effects (fst (worker_is_alive c w)) = side_effects c"
  "side_effects (fst (fire_cron_once c r h t j at)) = side_effects c"
  "side_effects (fst (cas c k m v)) = side_effects c"
  by (auto simp: coordinator_ops Let_def split: option.split)

lemma fleet_step_cron_fires: "cron_fires c \<subseteq> cron_fires (fleet_step c e)"
  by (cases e) (auto simp: cron_fires_frame fire_cron_fires)

lemma fleet_step_side_effects: "dom (side_effects c) \<subseteq> dom (side_effects (fleet_step c e))"
  by (cases e) (auto simp: side_effects_frame perform_effects)

interpretation cron: once_guard fleet_step cron_fires fires
  by unfold_locales
    (auto simp: fires_def fire_cron_fires fleet_step_cron_fires [THEN subsetD] split: fleet_op.splits)

interpretation effects: once_guard fleet_step "\<lambda>c. dom (side_effects c)" performs
  by unfold_locales
    (use fleet_step_side_effects in
      \<open>auto simp: performs_def perform_effects dom_def split: fleet_op.splits if_splits\<close>)

section \<open>Compare and swap\<close>

definition put_event :: "(string \<Rightarrow> kv_value option) \<Rightarrow> watch_event \<Rightarrow> (string \<Rightarrow> kv_value option)" where
  "put_event m e = m(we_key e \<mapsto> \<lparr> kv_revision = we_revision e, kv_content = we_value e \<rparr>)"

definition revision_of :: "coordinator \<Rightarrow> string \<Rightarrow> u64" where
  "revision_of c k = (case kv c k of None \<Rightarrow> 0 | Some v \<Rightarrow> kv_revision v)"

lemma revision_of_tally [simp]: "revision_of (tally f c) k = revision_of c k"
  by (simp add: revision_of_def)

definition key_events :: "string \<Rightarrow> watch_event list \<Rightarrow> watch_event list" where
  "key_events k evs = filter (\<lambda>e. we_key e = k) evs"

text \<open>The store is its watch log replayed, and a revision is the number of writes, saturating.\<close>

definition watch_inv :: "coordinator \<Rightarrow> bool" where
  "watch_inv c \<longleftrightarrow> kv c = foldl put_event (\<lambda>_. None) (watch_events c) \<and>
     (\<forall>k. unat (revision_of c k) = min (length (key_events k (watch_events c))) (2 ^ 64 - 1))"

lemma watch_inv_default: "watch_inv coordinator_default"
  by (simp add: watch_inv_def coordinator_default_def revision_of_def key_events_def)

lemma kv_frame:
  "kv (advance c s) = kv c \<and> watch_events (advance c s) = watch_events c"
  "kv (after c (claim c r h ttl)) = kv c \<and> watch_events (after c (claim c r h ttl)) = watch_events c"
  "kv (after c (renew c r h t ttl)) = kv c \<and> watch_events (after c (renew c r h t ttl)) = watch_events c"
  "kv (fst (commit_if_current c r h t)) = kv c \<and>
   watch_events (fst (commit_if_current c r h t)) = watch_events c"
  "kv (after c (acquire_slot c p h n ttl)) = kv c \<and>
   watch_events (after c (acquire_slot c p h n ttl)) = watch_events c"
  "kv (after c (consume_quota c q u n win)) = kv c \<and>
   watch_events (after c (consume_quota c q u n win)) = watch_events c"
  "kv (after c (heartbeat c w ttl)) = kv c \<and> watch_events (after c (heartbeat c w ttl)) = watch_events c"
  "kv (fst (worker_is_alive c w)) = kv c \<and> watch_events (fst (worker_is_alive c w)) = watch_events c"
  "kv (fst (fire_cron_once c r h t j at)) = kv c \<and>
   watch_events (fst (fire_cron_once c r h t j at)) = watch_events c"
  "kv (fst (perform_side_effect_once c k x)) = kv c \<and>
   watch_events (fst (perform_side_effect_once c k x)) = watch_events c"
  by (auto simp: coordinator_ops Let_def split: option.split)

lemma cas_outcome:
  "cas c k expected v =
     (if expected = revision_of c k
      then (let next = \<lparr> kv_revision = sat_add (revision_of c k) 1, kv_content = v \<rparr>;
                ev = \<lparr> we_key = k, we_revision = kv_revision next, we_value = v \<rparr>
            in (c\<lparr> kv := put_event (kv c) ev, watch_events := watch_events c @ [ev] \<rparr>, Inr next))
      else (tally cas_conflicts_update c, Inl (RevisionMismatch expected (revision_of c k))))"
  by (auto simp: cas_def revision_of_def put_event_def Let_def split: option.split)

lemma cas_watch_inv: "watch_inv c \<Longrightarrow> watch_inv (fst (cas c k expected v))"
proof (cases "expected = revision_of c k")
  case False
  moreover assume "watch_inv c"
  ultimately show ?thesis by (simp add: cas_outcome watch_inv_def)
next
  case True
  assume inv: "watch_inv c"
  let ?ev = "\<lparr> we_key = k, we_revision = sat_add (revision_of c k) 1, we_value = v \<rparr>"
  have kv: "kv (fst (cas c k expected v)) = put_event (kv c) ?ev"
    and we: "watch_events (fst (cas c k expected v)) = watch_events c @ [?ev]"
    using True by (simp_all add: cas_outcome Let_def)
  have rev: "revision_of (fst (cas c k expected v)) k' =
      (if k' = k then sat_add (revision_of c k) 1 else revision_of c k')" for k'
    by (simp add: revision_of_def kv put_event_def)
  show ?thesis
    using inv unfolding watch_inv_def kv we rev
    by (simp add: key_events_def unat_sat_add)
qed

lemma fleet_step_watch_inv [wf_intros]: "watch_inv c \<Longrightarrow> watch_inv (fleet_step c e)"
proof (cases "\<exists>k n v. e = Cas k n v")
  case True
  moreover assume "watch_inv c"
  ultimately show ?thesis by (auto intro: cas_watch_inv)
next
  case False
  moreover assume "watch_inv c"
  ultimately show ?thesis by (cases e) (auto simp: watch_inv_def revision_of_def kv_frame)
qed

interpretation watch: step_system fleet_step watch_inv
  by unfold_locales (rule fleet_step_watch_inv)

section \<open>Properties\<close>

text \<open>C37: a scheduled job fires at most once. Over any sequence of calls from any state, across
  any number of leadership changes, the call that fires a given job for a given scheduled time
  returns true at most once.\<close>

theorem cron_fires_at_most_once: "count_run fleet_step (fires (job, at)) c es \<le> 1"
  by (rule cron.at_most_once)

text \<open>An external side effect is performed at most once per idempotency key, over any sequence of
  calls from any state.\<close>

theorem side_effect_at_most_once: "count_run fleet_step (performs key) c es \<le> 1"
  by (rule effects.at_most_once)

text \<open>C26: the watch log is the store's history. In every reachable state the key-value store is
  the replay of its watch events in order, each key's revision is the number of its writes
  (saturating at the largest \<open>u64\<close>), and a compare-and-swap succeeds if and only if the expected
  revision is that number; a conflict reports it and changes neither the store nor the log.\<close>

theorem cas_linearises:
  "kv (fleet_run coordinator_default es) =
     foldl put_event (\<lambda>_. None) (watch_events (fleet_run coordinator_default es)) \<and>
   (case cas (fleet_run coordinator_default es) k expected v of
      (c', Inr new) \<Rightarrow>
        unat expected = min (length (key_events k (watch_events (fleet_run coordinator_default es)))) (2 ^ 64 - 1) \<and>
        kv c' k = Some new \<and> kv_content new = v \<and> kv_revision new = sat_add expected 1
    | (c', Inl (RevisionMismatch e actual)) \<Rightarrow>
        e = expected \<and> e \<noteq> actual \<and>
        unat actual = min (length (key_events k (watch_events (fleet_run coordinator_default es)))) (2 ^ 64 - 1) \<and>
        kv c' = kv (fleet_run coordinator_default es) \<and>
        watch_events c' = watch_events (fleet_run coordinator_default es))"
proof -
  have "watch_inv (fleet_run coordinator_default es)"
    by (rule watch.run_inv [OF watch_inv_default])
  then show ?thesis
    by (auto simp: cas_outcome watch_inv_def put_event_def Let_def)
qed

end
