(* ===== verification/Coordinator_Demo.thy ===== *)
theory Coordinator_Demo
  imports Coordinator
begin

text \<open>
  The demonstration program of the reference fleet, src/tools/reference-fleet/src/main.rs: a fixed run of
  the coordinator. What it prints is its result; a failed assertion or \<open>unwrap\<close> is a panic.
\<close>

definition calling :: "(coordinator \<Rightarrow> (coordinator \<times> 'r) call) \<Rightarrow> (coordinator, 'r) io" where
  "calling f c = (case f c of Inl e \<Rightarrow> (Inl e, c) | Inr (c', x) \<Rightarrow> (Inr x, c'))"

definition doing :: "(coordinator \<Rightarrow> coordinator \<times> 'r) \<Rightarrow> (coordinator, 'r) io" where
  "doing f c = (case f c of (c', x) \<Rightarrow> (Inr x, c'))"

definition unwrap :: "'e + 'a \<Rightarrow> (coordinator, 'a) io" where
  "unwrap r = (case r of Inl _ \<Rightarrow> io_fail ''called Result::unwrap() on an Err value'' | Inr x \<Rightarrow> io_return x)"

definition assert_m :: "bool \<Rightarrow> (coordinator, unit) io" where
  "assert_m b = (if b then io_return () else io_fail ''assertion failed'')"

record demo_report =
  race_rejected :: bool
  successor_token :: u64
  stale_commit_rejected :: bool
  first_cron_fire :: bool
  duplicate_fire_rejected :: bool
  oversubscription_rejected :: bool
  quota_exhaustion_enforced :: bool
  dead_worker_removed :: bool
  config_revision :: u64
  watch_count :: nat
  stale_cas_rejected :: bool
  duplicate_effect_rejected :: bool
  demo_metrics :: metrics

definition fleet_main :: "(coordinator, demo_report) io" where
  "fleet_main =
     io_bind (calling (\<lambda>c. claim c ''task:42'' ''coder-a'' 5)) (\<lambda>r.
     io_bind (unwrap r) (\<lambda>original.
     io_bind (calling (\<lambda>c. claim c ''task:42'' ''coder-b'' 5)) (\<lambda>race.
     io_bind (io_do (\<lambda>c. advance c 5)) (\<lambda>_.
     io_bind (calling (\<lambda>c. claim c ''task:42'' ''coder-b'' 5)) (\<lambda>r.
     io_bind (unwrap r) (\<lambda>successor.
     io_bind (doing (\<lambda>c. commit_if_current c ''task:42'' ''coder-a'' (lease_token original))) (\<lambda>committed.
     io_bind (calling (\<lambda>c. claim c ''leader:workspace-a'' ''planner-a'' 2)) (\<lambda>r.
     io_bind (unwrap r) (\<lambda>leader.
     io_bind (doing (\<lambda>c. fire_cron_once c ''leader:workspace-a'' ''planner-a'' (lease_token leader) ''daily-review'' 86400)) (\<lambda>first_fire.
     io_bind (io_do (\<lambda>c. advance c 2)) (\<lambda>_.
     io_bind (calling (\<lambda>c. claim c ''leader:workspace-a'' ''planner-b'' 2)) (\<lambda>r.
     io_bind (unwrap r) (\<lambda>replacement.
     io_bind (doing (\<lambda>c. fire_cron_once c ''leader:workspace-a'' ''planner-b'' (lease_token replacement) ''daily-review'' 86400)) (\<lambda>second_fire.
     io_bind (calling (\<lambda>c. acquire_slot c ''browser'' ''research-a'' 1 10)) (\<lambda>slot.
     io_bind (assert_m slot) (\<lambda>_.
     io_bind (calling (\<lambda>c. acquire_slot c ''browser'' ''research-b'' 1 10)) (\<lambda>second_slot.
     io_bind (calling (\<lambda>c. consume_quota c ''llm:org-a'' 10 10 60)) (\<lambda>quota.
     io_bind (assert_m quota) (\<lambda>_.
     io_bind (calling (\<lambda>c. consume_quota c ''llm:org-a'' 1 10 60)) (\<lambda>more_quota.
     io_bind (calling (\<lambda>c. heartbeat c ''reviewer-a'' 1)) (\<lambda>_.
     io_bind (io_do (\<lambda>c. advance c 1)) (\<lambda>_.
     io_bind (doing (\<lambda>c. worker_is_alive c ''reviewer-a'')) (\<lambda>alive.
     io_bind (doing (\<lambda>c. cas c ''fleet:model'' 0 ''primary'')) (\<lambda>r.
     io_bind (unwrap r) (\<lambda>config.
     io_bind (doing (\<lambda>c. cas c ''fleet:model'' 0 ''stale'')) (\<lambda>stale.
     io_bind (doing (\<lambda>c. perform_side_effect_once c ''email:task-42'' ''send'')) (\<lambda>sent.
     io_bind (assert_m sent) (\<lambda>_.
     io_bind (doing (\<lambda>c. perform_side_effect_once c ''email:task-42'' ''retry'')) (\<lambda>resent.
     io_get (\<lambda>c.
       \<lparr>race_rejected = \<not> is_ok race, successor_token = lease_token successor, stale_commit_rejected = \<not> committed,
        first_cron_fire = first_fire, duplicate_fire_rejected = \<not> second_fire, oversubscription_rejected = \<not> second_slot,
        quota_exhaustion_enforced = \<not> more_quota, dead_worker_removed = \<not> alive, config_revision = kv_revision config,
        watch_count = length (watch_events c), stale_cas_rejected = \<not> is_ok stale, duplicate_effect_rejected = \<not> resent,
        demo_metrics = metrics c\<rparr>))))))))))))))))))))))))))))))"

text \<open>The demonstration ends without a panic, and every line it prints says that the fleet is safe.\<close>

lemma fleet_demo_passes:
  "\<exists>c. fleet_main coordinator_default =
     (Inr \<lparr>race_rejected = True, successor_token = 2, stale_commit_rejected = True, first_cron_fire = True,
        duplicate_fire_rejected = True, oversubscription_rejected = True, quota_exhaustion_enforced = True,
        dead_worker_removed = True, config_revision = 1, watch_count = 1, stale_cas_rejected = True,
        duplicate_effect_rejected = True,
        demo_metrics = \<lparr>claims_granted = 4, claims_rejected = 1, renewals_granted = 0, renewals_rejected = 0,
          stale_commits_rejected = 1, semaphore_denied = 1, quota_denied = 1, heartbeat_expired = 1,
          cron_duplicate_suppressed = 1, cas_conflicts = 1, side_effect_duplicates_suppressed = 1\<rparr>\<rparr>, c)"
  by (simp add: fleet_main_def calling_def doing_def unwrap_def assert_m_def io_bind_def io_return_def io_do_def
      io_get_def coordinator_default_def metrics_default_def coordinator_ops active_lease_def sat_add_def sat_sub_def
      hm_defs Let_def is_ok_def)

end
