(* ===== verification/GitNames.thy ===== *)
theory GitNames
  imports Text
begin

text \<open>
  The pure part of \<open>src/git.rs\<close>: validation of branch names before they reach a git argument,
  slugs, the canonical form of a repository URL, and the stable branch of a session. A
  \<open>GitError\<close> is its message. The two anchored patterns and the two collapsing ones are written
  out as what they match; \<open>to_lowercase\<close> is the argument \<open>lowercase\<close>.
\<close>

section \<open>Branch names\<close>

text \<open>The class \<open>[A-Za-z0-9._/-]\<close> and the pattern \<open>^[A-Za-z0-9][A-Za-z0-9._/-]*$\<close>.\<close>

definition branch_char :: "char \<Rightarrow> bool" where
  "branch_char c \<longleftrightarrow> is_alnum c \<or> c = CHR ''.'' \<or> c = CHR ''_'' \<or> c = CHR ''/'' \<or> c = CHR ''-''"

definition branch_pattern :: "string \<Rightarrow> bool" where
  "branch_pattern s = (case s of [] \<Rightarrow> False | c # cs \<Rightarrow> is_alnum c \<and> list_all branch_char cs)"

definition path_parts :: "string \<Rightarrow> string list" where
  "path_parts s = split_on (\<lambda>c. c = CHR ''/'') s"

definition invalid_branch :: "string \<Rightarrow> bool" where
  "invalid_branch branch \<longleftrightarrow>
     \<not> branch_pattern branch
     \<or> prefix ''-'' branch
     \<or> prefix ''/'' branch
     \<or> suffix ''/'' branch
     \<or> suffix ''.lock'' branch
     \<or> sublist ''..'' branch
     \<or> sublist ''//'' branch
     \<or> sublist [CHR ''@'', CHR 0x7B] branch
     \<or> sublist [CHR 0x5C] branch
     \<or> list_ex (\<lambda>p. p = [] \<or> p = ''.'' \<or> p = ''..'' \<or> suffix ''.lock'' p) (path_parts branch)"

definition assert_safe_branch :: "string \<Rightarrow> string \<Rightarrow> string + unit" where
  "assert_safe_branch branch label =
     (if invalid_branch branch then Inl (''invalid git '' @ label @ '': '' @ branch) else Inr ())"

lemma assert_safe_branch_iff: "assert_safe_branch branch label = Inr () \<longleftrightarrow> \<not> invalid_branch branch"
  by (simp add: assert_safe_branch_def)

lemma assert_safe_branch_cases:
  "assert_safe_branch branch label = Inl e \<longleftrightarrow>
     invalid_branch branch \<and> e = ''invalid git '' @ label @ '': '' @ branch"
  by (auto simp: assert_safe_branch_def)

section \<open>Slugs\<close>

definition slug_char :: "char \<Rightarrow> bool" where
  "slug_char c \<longleftrightarrow> is_lower c \<or> is_digit c"

text \<open>\<open>[^a-z0-9]+\<close> replaced by one dash, and \<open>-{2,}\<close> by one dash.\<close>

fun collapse :: "(char \<Rightarrow> bool) \<Rightarrow> bool \<Rightarrow> string \<Rightarrow> string" where
  "collapse keep in_run [] = []"
| "collapse keep in_run (c # cs) =
     (if keep c then c # collapse keep False cs
      else if in_run then collapse keep True cs
      else CHR ''-'' # collapse keep True cs)"

definition collapse_dashes :: "string \<Rightarrow> string" where
  "collapse_dashes s = collapse (\<lambda>c. c \<noteq> CHR ''-'') False s"

definition slugify_branch_fragment :: "(string \<Rightarrow> string) \<Rightarrow> string \<Rightarrow> string" where
  "slugify_branch_fragment lowercase v =
     (let s = collapse slug_char False (lowercase v);
          s = trim_chars {CHR ''-''} s;
          s = collapse_dashes s;
          s = take_chars 80 s
      in if s = [] then ''thread'' else s)"

section \<open>Repository keys\<close>

text \<open>The scp-style pattern \<open>^([^@\s]+)@([^:\s]+):(.+)$\<close>: its first group ends at the first \<open>@\<close>,
  its second at the first colon after it, and its third is the rest of one line.\<close>

definition no_ws :: "string \<Rightarrow> bool" where
  "no_ws s \<longleftrightarrow> list_all (\<lambda>c. \<not> is_ws c) (utf8_chars s)"

definition scp_captures :: "string \<Rightarrow> (string \<times> string \<times> string) option" where
  "scp_captures v =
     (case split_once ''@'' v of
        None \<Rightarrow> None
      | Some (user, rest) \<Rightarrow>
          (case split_once '':'' rest of
             None \<Rightarrow> None
           | Some (host, path) \<Rightarrow>
               if user \<noteq> [] \<and> no_ws user \<and> host \<noteq> [] \<and> no_ws host \<and> path \<noteq> []
                  \<and> CHR 0x0A \<notin> set path
               then Some (user, host, path) else None))"

definition drop_git_suffix :: "string \<Rightarrow> string" where
  "drop_git_suffix s = (case strip_suffix ''.git'' s of Some r \<Rightarrow> r | None \<Rightarrow> s)"

definition scp_to_https :: "(string \<Rightarrow> string) \<Rightarrow> string \<Rightarrow> string" where
  "scp_to_https lowercase v =
     (case scp_captures v of
        Some (_, host, path) \<Rightarrow>
          ''https://'' @ lowercase host @ ''/'' @ trim_start_chars {CHR ''/''} path
      | None \<Rightarrow> v)"

text \<open>The remainder of a URL after its scheme: \<open>rest.split('@').next_back()\<close> drops everything up
  to the last \<open>@\<close>, then the host is what comes before the first slash.\<close>

definition url_key :: "(string \<Rightarrow> string) \<Rightarrow> string \<Rightarrow> string" where
  "url_key lowercase rest =
     (let rest = last (split_on (\<lambda>c. c = CHR ''@'') rest);
          (host, path) = (case split_once ''/'' rest of Some hp \<Rightarrow> hp | None \<Rightarrow> (rest, []));
          host = lowercase host;
          path = lowercase (trim_chars {CHR ''/''} path)
      in host @ ''/'' @ drop_git_suffix path)"

definition url_rest :: "string \<Rightarrow> string option" where
  "url_rest v =
     (case strip_prefix ''https://'' v of
        Some r \<Rightarrow> Some r
      | None \<Rightarrow>
          (case strip_prefix ''http://'' v of
             Some r \<Rightarrow> Some r
           | None \<Rightarrow> strip_prefix ''ssh://'' v))"

definition canonical_repo_key :: "(string \<Rightarrow> string) \<Rightarrow> string option \<Rightarrow> string option" where
  "canonical_repo_key lowercase input =
     (case input of
        None \<Rightarrow> None
      | Some i \<Rightarrow>
          let raw = trim i in
          if raw = [] then None
          else
            let v = (case strip_prefix ''git+'' raw of Some r \<Rightarrow> r | None \<Rightarrow> raw);
                v = scp_to_https lowercase v
            in case url_rest v of
                 Some rest \<Rightarrow> Some (url_key lowercase rest)
               | None \<Rightarrow> Some (drop_git_suffix (lowercase (trim_end_chars {CHR ''/''} v))))"

definition repo_urls_match :: "(string \<Rightarrow> string) \<Rightarrow> string option \<Rightarrow> string option \<Rightarrow> bool" where
  "repo_urls_match lowercase a b =
     (case (canonical_repo_key lowercase a, canonical_repo_key lowercase b) of
        (Some ka, Some kb) \<Rightarrow> ka = kb
      | _ \<Rightarrow> False)"

section \<open>Session branches\<close>

text \<open>\<open>hint.map(str::trim).filter(|s| !s.is_empty())\<close>\<close>

definition trimmed_nonempty :: "string option \<Rightarrow> string option" where
  "trimmed_nonempty v =
     (case v of None \<Rightarrow> None | Some s \<Rightarrow> if trim s = [] then None else Some (trim s))"

definition session_branch ::
  "(string \<Rightarrow> string) \<Rightarrow> string \<Rightarrow> string \<Rightarrow> string option \<Rightarrow> string option \<Rightarrow> string option \<Rightarrow> string + string" where
  "session_branch lowercase pre session_id branch_hint title_hint prompt_hint =
     (case trimmed_nonempty branch_hint of
        Some hint \<Rightarrow> res_bind (assert_safe_branch hint ''session branch'') (\<lambda>_. Inr hint)
      | None \<Rightarrow>
          let title = (case trimmed_nonempty title_hint of
                         Some t \<Rightarrow> t
                       | None \<Rightarrow> (case trimmed_nonempty prompt_hint of Some p \<Rightarrow> p | None \<Rightarrow> session_id));
              branch = pre @ ''/'' @ session_id @ ''/'' @ slugify_branch_fragment lowercase title
          in res_bind (assert_safe_branch branch ''session branch'') (\<lambda>_. Inr branch))"


section \<open>Facts about branch names\<close>

text \<open>What the checks amount to, with the ones that others imply left out.\<close>

definition ref_part_ok :: "string \<Rightarrow> bool" where
  "ref_part_ok p \<longleftrightarrow> p \<noteq> [] \<and> p \<noteq> ''.'' \<and> \<not> suffix ''.lock'' p"

definition well_formed_ref :: "string \<Rightarrow> bool" where
  "well_formed_ref b \<longleftrightarrow>
     branch_pattern b \<and> \<not> sublist ''..'' b \<and> list_all ref_part_ok (path_parts b)"

lemma branch_pattern_chars: "branch_pattern b \<Longrightarrow> c \<in> set b \<Longrightarrow> branch_char c"
  by (auto simp: branch_pattern_def branch_char_def list_all_iff split: list.splits)

lemma branch_pattern_hd: "branch_pattern b \<Longrightarrow> b \<noteq> [] \<and> is_alnum (hd b)"
  by (auto simp: branch_pattern_def split: list.splits)

lemma not_alnum [simp]:
  "\<not> is_alnum CHR ''-''" "\<not> is_alnum CHR ''/''" "\<not> is_alnum CHR ''.''" "\<not> is_alnum CHR ''@''"
  "\<not> is_alnum CHR ''{''" "\<not> is_alnum CHR 0x5C"
  by (simp_all add: char_class_defs)

lemma branch_pattern_no:
  assumes "branch_pattern b"
  shows "\<not> prefix ''-'' b" "\<not> prefix ''/'' b" "\<not> sublist [CHR ''@'', CHR 0x7B] b" "\<not> sublist [CHR 0x5C] b"
proof -
  show "\<not> prefix ''-'' b" "\<not> prefix ''/'' b"
    using assms by (auto simp: branch_pattern_def split: list.splits)
  have "\<not> branch_char CHR ''@''" "\<not> branch_char CHR 0x5C"
    by (simp_all add: branch_char_def)
  then have "CHR ''@'' \<notin> set b" "CHR 0x5C \<notin> set b"
    using branch_pattern_chars [OF assms] by blast+
  then show "\<not> sublist [CHR ''@'', CHR 0x7B] b" "\<not> sublist [CHR 0x5C] b"
    by (auto dest: sublist_set)
qed

lemma slash_end_part: "suffix ''/'' b \<Longrightarrow> [] \<in> set (path_parts b)"
  by (auto simp: suffix_def path_parts_def split_on_append_sep)

lemma double_slash_part: "sublist ''//'' b \<Longrightarrow> [] \<in> set (path_parts b)"
  by (auto simp: sublist_def path_parts_def split_on_append_sep)

lemma lock_end_part: "suffix ''.lock'' b \<Longrightarrow> \<exists>p \<in> set (path_parts b). suffix ''.lock'' p"
  unfolding path_parts_def
  by (rule bexI [of _ "last (split_on (\<lambda>c. c = CHR ''/'') b)"])
    (auto intro: suffix_last_split_on)

lemma invalid_branch_iff: "invalid_branch b \<longleftrightarrow> \<not> well_formed_ref b"
proof (cases "branch_pattern b")
  case True
  have parts: "p \<in> set (path_parts b) \<Longrightarrow> p = ''..'' \<Longrightarrow> sublist ''..'' b" for p
    unfolding path_parts_def using split_on_sublist by blast
  show ?thesis
    using branch_pattern_no [OF True] slash_end_part [of b] double_slash_part [of b]
      lock_end_part [of b] parts True
    by (auto simp: invalid_branch_def well_formed_ref_def ref_part_ok_def list_ex_iff list_all_iff)
qed (simp add: invalid_branch_def well_formed_ref_def)

section \<open>Facts about slugs\<close>

lemma set_collapse: "c \<in> set (collapse keep b s) \<Longrightarrow> keep c \<or> c = CHR ''-''"
  by (induction keep b s rule: collapse.induct) (auto split: if_splits)

lemma trim_chars_head:
  "trim_chars P s = [] \<or> hd (trim_chars P s) \<notin> P"
proof -
  let ?d = "dropWhile (\<lambda>c. c \<in> P) s"
  have head: "?d = [] \<or> hd ?d \<notin> P" by (metis hd_dropWhile)
  have "prefix (trim_chars P s) ?d"
    unfolding trim_chars_def trim_end_chars_def trim_start_chars_def
    by (metis suffix_dropWhile suffix_to_prefix rev_rev_ident)
  then have "trim_chars P s = [] \<or> (?d \<noteq> [] \<and> hd (trim_chars P s) = hd ?d)"
    by (cases "trim_chars P s"; cases ?d) (auto simp del: dropWhile_eq_Nil_conv)
  with head show ?thesis by metis
qed

lemma set_trim_chars: "set (trim_chars P s) \<subseteq> set s"
  unfolding trim_chars_def trim_end_chars_def trim_start_chars_def
  by (metis set_dropWhileD set_rev subsetI)

lemma set_collapse_dashes: "set (collapse_dashes s) \<subseteq> insert CHR ''-'' (set s)"
proof -
  have "c \<in> set (collapse keep b t) \<Longrightarrow> c \<in> set t \<or> c = CHR ''-''" for c keep b t
    by (induction keep b t rule: collapse.induct) (auto split: if_splits)
  then show ?thesis unfolding collapse_dashes_def by blast
qed

lemma hd_collapse_dashes: "s \<noteq> [] \<Longrightarrow> hd s \<noteq> CHR ''-'' \<Longrightarrow> collapse_dashes s \<noteq> [] \<and> hd (collapse_dashes s) = hd s"
  by (cases s) (auto simp: collapse_dashes_def)

definition slug_ok :: "string \<Rightarrow> bool" where
  "slug_ok s \<longleftrightarrow> s \<noteq> [] \<and> length s \<le> 80 \<and> slug_char (hd s) \<and>
     list_all (\<lambda>c. slug_char c \<or> c = CHR ''-'') s"

lemma take_chars_ascii: "list_all is_ascii s \<Longrightarrow> take_chars n s = take n s"
proof -
  assume "list_all is_ascii s"
  then have "utf8_chars s = map (\<lambda>c. [c]) s"
    by (intro utf8_chars_ascii) (auto simp: list_all_iff ascii_not_cont)
  moreover have "concat (map (\<lambda>c. [c]) t) = t" for t :: string by (induction t) simp_all
  ultimately show ?thesis by (simp add: take_chars_def take_map)
qed

lemma slugify_slug_ok: "slug_ok (slugify_branch_fragment lowercase v)"
proof -
  define a where "a = collapse slug_char False (lowercase v)"
  define b where "b = trim_chars {CHR ''-''} a"
  define c where "c = collapse_dashes b"
  have chars: "x \<in> set c \<Longrightarrow> slug_char x \<or> x = CHR ''-''" for x
    using set_collapse [of x slug_char False "lowercase v"] set_trim_chars [of "{CHR ''-''}" a]
      set_collapse_dashes [of b]
    by (auto simp: a_def b_def c_def)
  then have "list_all is_ascii c"
    by (auto simp: list_all_iff slug_char_def char_class_defs) fastforce
  then have take: "take_chars 80 c = take 80 c" by (rule take_chars_ascii)
  have slug: "slugify_branch_fragment lowercase v = (if take 80 c = [] then ''thread'' else take 80 c)"
    by (simp add: slugify_branch_fragment_def Let_def a_def [symmetric] b_def [symmetric]
        c_def [symmetric] take)
  show ?thesis
  proof (cases "take 80 c = []")
    case True
    then show ?thesis
      by (simp add: slug slug_ok_def slug_char_def char_class_defs)
  next
    case False
    then have "c \<noteq> []" by auto
    then have "b \<noteq> []" by (auto simp: c_def collapse_dashes_def)
    then have "hd b \<noteq> CHR ''-''" using trim_chars_head [of "{CHR ''-''}" a] by (auto simp: b_def)
    with \<open>b \<noteq> []\<close> have "hd c \<noteq> CHR ''-''" using hd_collapse_dashes by (simp add: c_def)
    with chars [of "hd c"] \<open>c \<noteq> []\<close> have "slug_char (hd c)" by auto
    then show ?thesis
      using False chars by (auto simp: slug slug_ok_def list_all_iff hd_take dest: in_set_takeD)
  qed
qed

lemma slug_ok_well_formed: "slug_ok s \<Longrightarrow> well_formed_ref s"
proof -
  assume ok: "slug_ok s"
  then obtain c cs where s: "s = c # cs" by (cases s) (auto simp: slug_ok_def)
  have no: "CHR ''.'' \<notin> set s" "CHR ''/'' \<notin> set s"
    using ok by (auto simp: slug_ok_def list_all_iff slug_char_def char_class_defs)
  have "branch_pattern s"
    using ok by (auto simp: s slug_ok_def branch_pattern_def list_all_iff branch_char_def
        slug_char_def is_alnum_def)
  moreover have "path_parts s = [s]"
    unfolding path_parts_def using no(2) by (intro split_on_none) auto
  moreover have "\<not> sublist ''..'' s" "\<not> suffix ''.lock'' s" "s \<noteq> ''.''"
    using no(1) by (auto dest: sublist_set suffix_set)
  ultimately show ?thesis by (simp add: well_formed_ref_def ref_part_ok_def s)
qed

lemma session_branch_cases:
  assumes "session_branch lowercase pre session_id branch_hint title_hint prompt_hint = Inr b"
  shows "well_formed_ref b" and
    "trimmed_nonempty branch_hint = Some b \<or>
     (trimmed_nonempty branch_hint = None \<and>
      (\<exists>title. b = pre @ ''/'' @ session_id @ ''/'' @ slugify_branch_fragment lowercase title))"
  using assms
  by (auto simp: session_branch_def Let_def res_bind_Inr_iff assert_safe_branch_iff invalid_branch_iff
      split: option.splits)


section \<open>Facts about repository keys\<close>

text \<open>What the theorems assume of \<open>to_lowercase\<close>: on ASCII text it is the ASCII lower case.\<close>

definition lowers_ascii :: "(string \<Rightarrow> string) \<Rightarrow> bool" where
  "lowers_ascii lowercase \<longleftrightarrow> (\<forall>s. list_all is_ascii s \<longrightarrow> lowercase s = ascii_lower s)"

lemma lowers_asciiD: "lowers_ascii lowercase \<Longrightarrow> list_all is_ascii s \<Longrightarrow> lowercase s = ascii_lower s"
  by (simp add: lowers_ascii_def)

lemma lowers_ascii_lower: "lowers_ascii ascii_lower"
  by (simp add: lowers_ascii_def)

text \<open>Visible ASCII text has no whitespace, so it is trimmed to itself.\<close>

definition visible :: "string \<Rightarrow> bool" where
  "visible s \<longleftrightarrow> list_all (\<lambda>c. 33 \<le> code c \<and> is_ascii c) s"

lemma visible_append [simp]: "visible (a @ b) \<longleftrightarrow> visible a \<and> visible b"
  by (simp add: visible_def)

lemma visible_trim: "visible s \<Longrightarrow> trim s = s"
  by (rule trim_visible) (simp add: visible_def list_all_iff)

lemma visible_no_ws: "visible s \<Longrightarrow> no_ws s"
proof -
  assume vis: "visible s"
  then have "utf8_chars s = map (\<lambda>c. [c]) s"
    by (intro utf8_chars_ascii) (auto simp: visible_def list_all_iff ascii_not_cont)
  with vis show ?thesis
    by (auto simp: no_ws_def visible_def list_all_iff not_ws_single)
qed

lemma visible_ascii: "visible s \<Longrightarrow> list_all is_ascii s"
  by (auto simp: visible_def list_all_iff)

lemma ascii_lower_visible: "visible s \<Longrightarrow> visible (ascii_lower s)"
  by (auto simp: visible_def ascii_lower_def list_all_iff is_ascii_def code_ascii_lower is_upper_def)

lemma ascii_lower_mem:
  "\<not> is_lower c \<Longrightarrow> c \<in> set (ascii_lower s) \<Longrightarrow> c \<in> set s"
  by (auto simp: ascii_lower_def ascii_lower_char_def is_lower_def is_upper_def code_def)

lemma visible_literals [simp]:
  "visible ''https://''" "visible ''/''" "visible ''@''" "visible '':''" "\<not> visible [CHR 0x0A]"
  by (simp_all add: visible_def is_ascii_def code_def)

lemma visible_no_newline: "visible s \<Longrightarrow> CHR 0x0A \<notin> set s"
  by (auto simp: visible_def list_all_iff is_ascii_def code_def)

lemma https_not_git_plus: "strip_prefix ''git+'' (''https://'' @ s) = None"
  by (simp add: strip_prefix_def)

lemma url_rest_https: "url_rest (''https://'' @ s) = Some s"
  by (simp add: url_rest_def strip_prefix_def)

lemma canonical_https:
  assumes "visible v" "v \<noteq> []" "\<not> prefix ''git+'' v" "scp_to_https lowercase v = ''https://'' @ rest"
  shows "canonical_repo_key lowercase (Some v) = Some (url_key lowercase rest)"
  unfolding canonical_repo_key_def option.case visible_trim [OF assms(1)] Let_def strip_prefix_def
  by (simp only: assms(2-4) if_False option.case url_rest_https)

lemma scp_none: "CHR ''@'' \<notin> set v \<Longrightarrow> scp_to_https lowercase v = v"
  by (simp add: scp_to_https_def scp_captures_def split_once_char_None [THEN iffD2])

lemma scp_some:
  assumes "visible user" "visible host" "visible path" "user \<noteq> []" "host \<noteq> []" "path \<noteq> []"
    and "CHR ''@'' \<notin> set user" "CHR '':'' \<notin> set host"
  shows "scp_to_https lowercase (user @ ''@'' @ host @ '':'' @ path) =
     ''https://'' @ lowercase host @ ''/'' @ trim_start_chars {CHR ''/''} path"
  using assms
  by (simp add: scp_to_https_def scp_captures_def split_once_char_fresh visible_no_ws
      visible_no_newline)

lemma url_key_host_path:
  assumes "CHR ''@'' \<notin> set (host @ path)" and "CHR ''/'' \<notin> set host"
  shows "url_key lowercase (host @ CHR ''/'' # path) =
     lowercase host @ CHR ''/'' # drop_git_suffix (lowercase (trim_chars {CHR ''/''} path))"
proof -
  have "split_on (\<lambda>c. c = CHR ''@'') (host @ CHR ''/'' # path) = [host @ CHR ''/'' # path]"
    using assms(1) by (intro split_on_none) auto
  then show ?thesis
    using assms(2) by (simp add: url_key_def split_once_char_fresh)
qed

lemma trim_start_chars_idem: "trim_chars P (trim_start_chars P s) = trim_chars P s"
  by (simp add: trim_chars_def trim_start_chars_def dropWhile_idem)

lemma url_key_after_at:
  "url_key lowercase (a @ CHR ''@'' # t) = url_key lowercase t"
  by (simp add: url_key_def last_split_on)

text \<open>The key of an https URL depends only on what follows its last \<open>@\<close>, also where that stands in the
  path: the code means to drop the user information, and drops the host with it.\<close>

lemma repo_match_ignores_host:
  assumes "visible a" "visible b" "visible t" "CHR ''@'' \<notin> set a" "CHR ''@'' \<notin> set b" "CHR '':'' \<notin> set t"
  shows "repo_urls_match lowercase (Some (''https://'' @ a @ CHR ''@'' # t))
           (Some (''https://'' @ b @ CHR ''@'' # t))"
proof -
  have "canonical_repo_key lowercase (Some (''https://'' @ x @ CHR ''@'' # t)) = Some (url_key lowercase t)"
    if x: "visible x" "CHR ''@'' \<notin> set x" for x
  proof -
    have "split_once ''@'' ((''https://'' @ x) @ CHR ''@'' # t) = Some (''https://'' @ x, t)"
      using x(2) by (intro split_once_char_fresh) simp
    then have same: "scp_to_https lowercase (''https://'' @ x @ CHR ''@'' # t) = ''https://'' @ x @ CHR ''@'' # t"
      using assms(6) by (simp add: scp_to_https_def scp_captures_def split_once_char_None [THEN iffD2])
    have vis: "visible (''https://'' @ x @ CHR ''@'' # t)"
      using x(1) assms(3) by (simp add: visible_def is_ascii_def code_def)
    show ?thesis
      using canonical_https [OF vis _ _ same] by (simp add: url_key_after_at)
  qed
  then show ?thesis using assms by (simp add: repo_urls_match_def)
qed

text \<open>A part that starts with a dot passes, although git refuses such a reference.\<close>

lemma hidden_part_accepted: "assert_safe_branch ''a/.b'' label = Inr ()"
proof -
  have "\<not> invalid_branch ''a/.b''" by code_simp
  then show ?thesis by (simp add: assert_safe_branch_iff)
qed

section \<open>Properties\<close>


text \<open>A slug is always a safe branch fragment. Whatever the title or prompt and whatever
  \<open>to_lowercase\<close> does to it, the slug is accepted as a branch name, has between 1 and 80
  characters, starts with a lower-case letter or a digit, and has only those and dashes.\<close>

theorem slug_is_safe:
  "assert_safe_branch (slugify_branch_fragment lowercase v) label = Inr () \<and>
   slug_ok (slugify_branch_fragment lowercase v)"
  using slugify_slug_ok [of lowercase v]
  by (simp add: assert_safe_branch_iff invalid_branch_iff slug_ok_well_formed)

text \<open>C34: a session branch is always safe to hand to git. If a branch is computed at all it starts with
  a letter or digit (so it cannot be read as an option), every character is a letter, a digit or one
  of dot, underscore, slash and dash, it has no two dots in a row, and it is either the caller's own
  trimmed hint or a slug under the configured prefix and the session id.\<close>

theorem session_branch_safe:
  assumes "session_branch lowercase pre session_id branch_hint title_hint prompt_hint = Inr b"
  shows "b \<noteq> [] \<and> is_alnum (hd b) \<and> list_all branch_char b \<and> \<not> sublist ''..'' b \<and>
    (if trimmed_nonempty branch_hint = None
     then \<exists>slug. slug_ok slug \<and> b = pre @ ''/'' @ session_id @ ''/'' @ slug
     else trimmed_nonempty branch_hint = Some b)"
proof -
  have "branch_pattern b" and dots: "\<not> sublist ''..'' b"
    using session_branch_cases(1) [OF assms] by (simp_all add: well_formed_ref_def)
  then have "b \<noteq> [] \<and> is_alnum (hd b) \<and> list_all branch_char b"
    using branch_pattern_hd branch_pattern_chars by (simp add: list_all_iff)
  with dots show ?thesis
    using session_branch_cases(2) [OF assms] slugify_slug_ok by fastforce
qed

text \<open>The scp form and the https form of a remote are the same repository. For visible ASCII
  parts, \<open>user@host:path\<close> and \<open>https://host/path\<close> have the same key, so they match.\<close>

lemma scp_and_https_match:
  assumes "lowers_ascii lowercase"
    and "visible user" "visible host" "visible path" "user \<noteq> []" "host \<noteq> []" "path \<noteq> []"
    and "CHR ''@'' \<notin> set user" "\<not> prefix ''git+'' (user @ ''@'' @ host @ '':'' @ path)"
    and "CHR '':'' \<notin> set host" "CHR ''/'' \<notin> set host" "CHR ''@'' \<notin> set (host @ path)"
  shows "repo_urls_match lowercase (Some (user @ ''@'' @ host @ '':'' @ path))
           (Some (''https://'' @ host @ ''/'' @ path))"
proof -
  let ?low = "ascii_lower host" and ?cut = "trim_start_chars {CHR ''/''} path"
  have low: "lowercase host = ?low" "lowercase ?low = ?low"
    using lowers_asciiD [OF assms(1)] visible_ascii [OF assms(3)]
      visible_ascii [OF ascii_lower_visible [OF assms(3)]] by (simp_all add: ascii_lower_idem)
  have sep: "CHR ''@'' \<notin> set ?low" "CHR ''/'' \<notin> set ?low"
    using assms(11,12) ascii_lower_mem [of _ host] by (auto simp: is_lower_def code_def)
  have cut: "CHR ''@'' \<notin> set ?cut"
    using assms(12) by (auto simp: trim_start_chars_def dest: set_dropWhileD)
  have "canonical_repo_key lowercase (Some (user @ ''@'' @ host @ '':'' @ path)) =
      Some (url_key lowercase (?low @ ''/'' @ ?cut))"
    using assms(2-5,9)
    by (intro canonical_https) (simp_all only: scp_some [OF assms(2-8,10)] low visible_append
        visible_literals append_assoc, simp_all)
  also have "\<dots> = Some (?low @ ''/'' @ drop_git_suffix (lowercase (trim_chars {CHR ''/''} path)))"
    using sep cut by (simp add: url_key_host_path low trim_start_chars_idem)
  finally have scp: "canonical_repo_key lowercase (Some (user @ ''@'' @ host @ '':'' @ path)) = \<dots>" .
  have "CHR ''@'' \<notin> set (''https://'' @ host @ ''/'' @ path)" using assms(12) by simp
  note same = scp_none [OF this, of lowercase]
  have "canonical_repo_key lowercase (Some (''https://'' @ host @ ''/'' @ path)) =
      Some (url_key lowercase (host @ ''/'' @ path))"
    using assms(3,4)
    by (intro canonical_https) (simp_all only: same visible_append visible_literals, simp_all)
  also have "\<dots> = Some (?low @ ''/'' @ drop_git_suffix (lowercase (trim_chars {CHR ''/''} path)))"
    using assms(11,12) by (simp add: url_key_host_path low)
  finally show ?thesis using scp by (simp add: repo_urls_match_def)
qed

section \<open>Witnesses\<close>

theorem session_branch_safe_witness:
  "session_branch ascii_lower ''agent'' ''t1'' (Some ''fix/a'') None None = Inr ''fix/a'' \<and>
   is_alnum (hd ''fix/a'')"
proof -
  have b: "session_branch ascii_lower ''agent'' ''t1'' (Some ''fix/a'') None None = Inr ''fix/a''"
    by code_simp
  then show ?thesis using session_branch_safe [OF b] by simp
qed

lemma scp_and_https_match_instance:
  "repo_urls_match ascii_lower (Some ''git@h.io:O/R.git'') (Some ''https://h.io/O/R.git'')"
  using scp_and_https_match [OF lowers_ascii_lower, of "''git''" "''h.io''" "''O/R.git''"]
  by (simp add: visible_def is_ascii_def code_def)

end
