(* ===== verification/Net.thy ===== *)
theory Net
  imports Text
begin

text \<open>
  The part of the Rust standard library that decides what an address literal is:
  \<open>IpAddr::from_str\<close> with its parser (\<open>read_number\<close>, \<open>read_ipv4_addr\<close>, \<open>read_ipv6_addr\<close>),
  \<open>is_loopback\<close>, and \<open>from_str\<close> of the unsigned integers. The configuration and the NATS
  transport policy rest on it.
\<close>

section \<open>Integers\<close>

definition hex_digit :: "char \<Rightarrow> nat option" where
  "hex_digit c =
     (if is_digit c then Some (code c - 48)
      else if 97 \<le> code c \<and> code c \<le> 102 then Some (code c - 87)
      else if 65 \<le> code c \<and> code c \<le> 70 then Some (code c - 55) else None)"

definition dec_digit :: "char \<Rightarrow> nat option" where
  "dec_digit c = (if is_digit c then Some (code c - 48) else None)"

definition number_value :: "nat \<Rightarrow> (char \<Rightarrow> nat option) \<Rightarrow> string \<Rightarrow> nat" where
  "number_value radix dig s = foldl (\<lambda>n c. n * radix + the (dig c)) 0 s"

text \<open>\<open>from_str\<close> of an unsigned type whose largest value is \<open>upper\<close>: an optional plus sign, at
  least one digit, no overflow.\<close>

definition parse_uint :: "nat \<Rightarrow> string \<Rightarrow> nat option" where
  "parse_uint upper s =
     (let ds = (case s of c # r \<Rightarrow> if c = CHR ''+'' then r else s | [] \<Rightarrow> s) in
      if ds \<noteq> [] \<and> list_all is_digit ds \<and> digits_value ds \<le> upper then Some (digits_value ds) else None)"

section \<open>Addresses\<close>

datatype ip_addr = V4 u8 u8 u8 u8 | V6 "u16 list"

fun ip_is_loopback :: "ip_addr \<Rightarrow> bool" where
  "ip_is_loopback (V4 a b c d) \<longleftrightarrow> a = 127"
| "ip_is_loopback (V6 gs) \<longleftrightarrow> gs = [0, 0, 0, 0, 0, 0, 0, 1]"

definition read_number ::
  "nat \<Rightarrow> (char \<Rightarrow> nat option) \<Rightarrow> nat \<Rightarrow> nat \<Rightarrow> bool \<Rightarrow> string \<Rightarrow> (nat \<times> string) option" where
  "read_number radix dig upper max_digits allow_zero_prefix s =
     (let ds = takeWhile (\<lambda>c. dig c \<noteq> None) s; v = number_value radix dig ds in
      if ds = [] \<or> max_digits < length ds \<or> upper < v
         \<or> (\<not> allow_zero_prefix \<and> hd ds = CHR ''0'' \<and> 1 < length ds)
      then None else Some (v, drop (length ds) s))"

definition read_separator ::
  "char \<Rightarrow> bool \<Rightarrow> (string \<Rightarrow> ('a \<times> string) option) \<Rightarrow> string \<Rightarrow> ('a \<times> string) option" where
  "read_separator sep first p s =
     (if first then p s
      else case s of [] \<Rightarrow> None | c # r \<Rightarrow> if c = sep then p r else None)"

definition read_octet :: "bool \<Rightarrow> string \<Rightarrow> (nat \<times> string) option" where
  "read_octet first = read_separator CHR ''.'' first (read_number 10 dec_digit 255 3 False)"

definition read_ipv4 :: "string \<Rightarrow> ((nat \<times> nat \<times> nat \<times> nat) \<times> string) option" where
  "read_ipv4 s =
     (case read_octet True s of None \<Rightarrow> None | Some (a, s) \<Rightarrow>
      (case read_octet False s of None \<Rightarrow> None | Some (b, s) \<Rightarrow>
       (case read_octet False s of None \<Rightarrow> None | Some (c, s) \<Rightarrow>
        (case read_octet False s of None \<Rightarrow> None | Some (d, s) \<Rightarrow> Some ((a, b, c, d), s)))))"

text \<open>\<open>read_groups\<close> with the number of slots left; the flag says no group was read yet.\<close>

fun read_groups :: "bool \<Rightarrow> nat \<Rightarrow> string \<Rightarrow> nat list \<times> bool \<times> string" where
  "read_groups first 0 s = ([], False, s)"
| "read_groups first (Suc n) s =
     (case (if 1 \<le> n then read_separator CHR '':'' first read_ipv4 s else None) of
        Some ((a, b, c, d), r) \<Rightarrow> ([256 * a + b, 256 * c + d], True, r)
      | None \<Rightarrow>
          (case read_separator CHR '':'' first (read_number 16 hex_digit 65535 4 True) s of
             None \<Rightarrow> ([], False, s)
           | Some (g, r) \<Rightarrow>
               (case read_groups False n r of (gs, v4, r') \<Rightarrow> (g # gs, v4, r'))))"

definition read_ipv6 :: "string \<Rightarrow> (nat list \<times> string) option" where
  "read_ipv6 s =
     (case read_groups True 8 s of (front, v4, r) \<Rightarrow>
        if length front = 8 then Some (front, r)
        else if v4 then None
        else case strip_prefix ''::'' r of
               None \<Rightarrow> None
             | Some r \<Rightarrow>
                 (case read_groups True (8 - (length front + 1)) r of (back, _, r) \<Rightarrow>
                    Some (front @ replicate (8 - (length front + length back)) 0 @ back, r)))"

definition parse_ip :: "string \<Rightarrow> ip_addr option" where
  "parse_ip s =
     (case read_ipv4 s of
        Some ((a, b, c, d), r) \<Rightarrow>
          if r = [] then Some (V4 (of_nat a) (of_nat b) (of_nat c) (of_nat d)) else None
      | None \<Rightarrow>
          (case read_ipv6 s of
             Some (gs, r) \<Rightarrow> if r = [] then Some (V6 (map of_nat gs)) else None
           | None \<Rightarrow> None))"

lemma read_groups_num:
  "read_groups first (numeral k) s =
     (case (if 1 < (numeral k :: nat) then read_separator CHR '':'' first read_ipv4 s else None) of
        Some ((a, b, c, d), r) \<Rightarrow> ([256 * a + b, 256 * c + d], True, r)
      | None \<Rightarrow>
          (case read_separator CHR '':'' first (read_number 16 hex_digit 65535 4 True) s of
             None \<Rightarrow> ([], False, s)
           | Some (g, r) \<Rightarrow>
               (case read_groups False (pred_numeral k) r of (gs, v4, r') \<Rightarrow> (g # gs, v4, r'))))"
proof -
  have "(numeral k :: nat) = Suc (pred_numeral k)" by (rule numeral_eq_Suc)
  moreover have "1 < (numeral k :: nat) \<longleftrightarrow> 1 \<le> pred_numeral k" using calculation by linarith
  ultimately show ?thesis by (simp only: read_groups.simps)
qed

lemma replicate_num: "replicate (numeral k) x = x # replicate (pred_numeral k) x"
  by (simp only: numeral_eq_Suc replicate_Suc)

lemmas ip_eval = parse_ip_def read_ipv4_def read_octet_def read_separator_def read_number_def
  read_ipv6_def number_value_def strip_prefix_def code_def is_digit_def dec_digit_def hex_digit_def
  Let_def read_groups_num replicate_num

lemma parse_ip_examples:
  "parse_ip ''127.0.0.53'' = Some (V4 127 0 0 53)"
  "parse_ip ''::1'' = Some (V6 [0, 0, 0, 0, 0, 0, 0, 1])"
  "parse_ip ''0127.0.0.1'' = None"
  "parse_ip ''broker.internal'' = None"
  by (simp_all add: ip_eval)

text \<open>A literal that parses as IPv6 contains a colon, and no address starts with a letter above
  the hexadecimal ones, a dash or an underscore: a DNS name is not mistaken for an address.\<close>

lemma read_number_start:
  "read_number radix dig upper k z s = Some (v, r) \<Longrightarrow> s \<noteq> [] \<and> dig (hd s) \<noteq> None"
  by (cases s) (auto simp: read_number_def Let_def split: if_splits)

lemma read_ipv4_start: "read_ipv4 s = Some (v, r) \<Longrightarrow> s \<noteq> [] \<and> is_digit (hd s)"
  by (auto simp: read_ipv4_def read_octet_def read_separator_def dec_digit_def
      dest!: read_number_start split: option.splits prod.splits if_splits)

lemma parse_ip_start: "parse_ip s = Some a \<Longrightarrow> s \<noteq> [] \<and> (hex_digit (hd s) \<noteq> None \<or> hd s = CHR '':'')"
proof -
  assume ip: "parse_ip s = Some a"
  show ?thesis
  proof (cases "read_ipv4 s")
    case (Some v)
    then show ?thesis using read_ipv4_start by (cases v) (fastforce simp: hex_digit_def)
  next
    case None
    then obtain gs r where v6: "read_ipv6 s = Some (gs, r)"
      using ip by (auto simp: parse_ip_def split: option.splits)
    show ?thesis
    proof (cases "read_number 16 hex_digit 65535 4 True s")
      case None': None
      have "read_groups True (Suc 7) s = ([], False, s)"
        using None None' by (simp only: read_groups.simps read_separator_def if_True) simp
      then have "read_groups True 8 s = ([], False, s)" by simp
      then have "strip_prefix ''::'' s \<noteq> None"
        using v6 by (auto simp: read_ipv6_def split: option.splits)
      then show ?thesis by (auto simp: strip_prefix_def prefix_def split: if_splits)
    next
      case (Some v)
      then show ?thesis using read_number_start by (cases v) fastforce
    qed
  qed
qed

end
