(* ===== verification/NatsTls.thy ===== *)
theory NatsTls
  imports Net
begin

text \<open>
  The transport policy of the NATS publisher (\<open>flag_enabled\<close>, \<open>url_host\<close>, \<open>host_is_loopback\<close>,
  \<open>tls_policy\<close> and the TLS part of \<open>connect_to_nats\<close> in src/src/nats.rs), and what it decides
  for a server list that is put together from well-formed parts.
\<close>

section \<open>The policy\<close>

datatype tls_policy_kind = Required | LoopbackPlaintext | ExplicitPlaintext

definition flag_enabled :: "string option \<Rightarrow> bool" where
  "flag_enabled v =
     (case v of None \<Rightarrow> False | Some s \<Rightarrow> trim s = ''1'' \<or> eq_ignore_ascii_case (trim s) ''true'')"

definition env_flag :: "(string \<Rightarrow> string option) \<Rightarrow> string \<Rightarrow> bool" where
  "env_flag env key = flag_enabled (env key)"

definition url_host :: "string \<Rightarrow> string" where
  "url_host server =
     (let rest = (case split_once ''://'' server of None \<Rightarrow> server | Some (_, r) \<Rightarrow> r);
          rest = (case rsplit_once CHR ''@'' rest of None \<Rightarrow> rest | Some (_, h) \<Rightarrow> h);
          rest = hd (split_on (\<lambda>c. c = CHR ''/'' \<or> c = CHR ''?'') rest)
      in case strip_prefix ''['' rest of
           Some bracketed \<Rightarrow> hd (split_on (\<lambda>c. c = CHR '']'') bracketed)
         | None \<Rightarrow>
             (case split_once '':'' rest of
                Some (host, port) \<Rightarrow> if port \<noteq> [] \<and> list_all is_digit port then host else rest
              | None \<Rightarrow> rest))"

definition host_is_loopback :: "string \<Rightarrow> bool" where
  "host_is_loopback host \<longleftrightarrow>
     eq_ignore_ascii_case host ''localhost''
     \<or> (case parse_ip host of None \<Rightarrow> False | Some ip \<Rightarrow> ip_is_loopback ip)"

definition tls_policy :: "string \<Rightarrow> bool \<Rightarrow> bool \<Rightarrow> tls_policy_kind" where
  "tls_policy url require_tls allow_plaintext =
     (if require_tls then Required
      else if list_all (\<lambda>server. host_is_loopback (url_host (trim server))) (split_on (\<lambda>c. c = CHR '','') url)
      then LoopbackPlaintext
      else if allow_plaintext then ExplicitPlaintext
      else Required)"

text \<open>The options of a connection attempt: whether TLS is required, and the credentials file.\<close>

definition connect_options :: "(string \<Rightarrow> string option) \<Rightarrow> string \<Rightarrow> bool \<times> string option" where
  "connect_options env url =
     (let policy = tls_policy url (env_flag env ''FIDUCIA_NATS_REQUIRE_TLS'')
                                  (env_flag env ''FIDUCIA_NATS_ALLOW_PLAINTEXT'')
      in (policy = Required, env ''NATS_CREDS_FILE''))"

section \<open>Server addresses by their parts\<close>

text \<open>
  An address as an operator writes it: an optional scheme, optional credentials, a name or a
  bracketed IPv6 literal, an optional port, and a path or query.
\<close>

datatype host_form = Name string | Bracketed string

fun host_text :: "host_form \<Rightarrow> string" where
  "host_text (Name h) = h"
| "host_text (Bracketed h) = h"

fun write_host :: "host_form \<Rightarrow> string" where
  "write_host (Name h) = h"
| "write_host (Bracketed h) = CHR ''['' # h @ '']''"

record server_parts =
  sp_scheme :: "string option"
  sp_user :: "string option"
  sp_host :: host_form
  sp_port :: "string option"
  sp_path :: string

definition write_authority :: "server_parts \<Rightarrow> string" where
  "write_authority p =
     (case sp_user p of None \<Rightarrow> [] | Some u \<Rightarrow> u @ ''@'') @ write_host (sp_host p)
     @ (case sp_port p of None \<Rightarrow> [] | Some d \<Rightarrow> CHR '':'' # d) @ sp_path p"

definition write_server :: "server_parts \<Rightarrow> string" where
  "write_server p = (case sp_scheme p of None \<Rightarrow> [] | Some s \<Rightarrow> s @ ''://'') @ write_authority p"

definition name_char :: "char \<Rightarrow> bool" where
  "name_char c \<longleftrightarrow> c \<notin> set '':/?@[],''"

fun host_ok :: "host_form \<Rightarrow> bool" where
  "host_ok (Name h) \<longleftrightarrow> list_all name_char h"
| "host_ok (Bracketed h) \<longleftrightarrow> list_all (\<lambda>c. name_char c \<or> c = CHR '':'') h"

definition server_ok :: "server_parts \<Rightarrow> bool" where
  "server_ok p \<longleftrightarrow>
     host_ok (sp_host p)
     \<and> (case sp_scheme p of None \<Rightarrow> CHR ''/'' \<notin> set (write_authority p) | Some s \<Rightarrow> CHR '':'' \<notin> set s)
     \<and> (case sp_port p of None \<Rightarrow> True | Some d \<Rightarrow> d \<noteq> [] \<and> list_all is_digit d)
     \<and> (sp_path p = [] \<or> hd (sp_path p) = CHR ''/'' \<or> hd (sp_path p) = CHR ''?'')
     \<and> CHR ''@'' \<notin> set (sp_path p)
     \<and> list_all (\<lambda>c. 33 \<le> code c \<and> is_ascii c \<and> c \<noteq> CHR '','') (write_server p)"

lemma split_scheme: "CHR '':'' \<notin> set s \<Longrightarrow> split_once ''://'' (s @ ''://'' @ r) = Some (s, r)"
  by (induction s) auto

lemma split_no_scheme: "CHR ''/'' \<notin> set r \<Longrightarrow> split_once ''://'' r = None"
  by (cases "split_once ''://'' r") (auto dest: split_once_Some)

lemma host_plain: "host_ok h \<Longrightarrow> c \<in> set (write_host h) \<Longrightarrow> c \<notin> {CHR ''/'', CHR ''?'', CHR ''@''}"
  by (cases h) (auto simp: name_char_def list_all_iff)

lemma digits_plain: "list_all is_digit d \<Longrightarrow> c \<in> set d \<Longrightarrow> c \<notin> {CHR ''/'', CHR ''?'', CHR ''@''}"
  by (auto simp: list_all_iff char_class_defs)

lemma split_path:
  "\<forall>c \<in> set a. \<not> P c \<Longrightarrow> p = [] \<or> P (hd p) \<Longrightarrow> hd (split_on P (a @ p)) = a"
  by (cases p) (auto simp: split_on_append split_on_none)

lemma authority_host:
  assumes h: "host_ok h" and d: "case port of None \<Rightarrow> True | Some d \<Rightarrow> d \<noteq> [] \<and> list_all is_digit d"
    and rest: "rest = write_host h @ (case port of None \<Rightarrow> [] | Some d \<Rightarrow> CHR '':'' # d)"
  shows "(case strip_prefix ''['' rest of
           Some bracketed \<Rightarrow> hd (split_on (\<lambda>c. c = CHR '']'') bracketed)
         | None \<Rightarrow>
             (case split_once '':'' rest of
                Some (host, port) \<Rightarrow> if port \<noteq> [] \<and> list_all is_digit port then host else rest
              | None \<Rightarrow> rest)) = host_text h"
proof (cases h)
  case (Bracketed x)
  then have "\<forall>c \<in> set x. c \<noteq> CHR '']''" using h by (auto simp: name_char_def list_all_iff)
  then show ?thesis
    using Bracketed rest by (simp add: strip_prefix_def split_on_append)
next
  case (Name x)
  then have x: "\<forall>c \<in> set x. name_char c" using h by (simp add: list_all_iff)
  then have colon: "CHR '':'' \<notin> set x" by (auto simp: name_char_def)
  have "\<not> prefix ''['' rest"
    using x rest Name by (cases x) (auto simp: name_char_def split: option.splits)
  then have "strip_prefix ''['' rest = None" by (simp add: strip_prefix_def)
  moreover have "split_once '':'' x = None" using colon by (simp add: split_once_char_None)
  ultimately show ?thesis
    using rest Name d colon by (cases port) (auto simp: split_once_char_fresh)
qed

lemma url_host_write:
  assumes ok: "server_ok p"
  shows "url_host (write_server p) = host_text (sp_host p)"
proof -
  define port where "port = (case sp_port p of None \<Rightarrow> [] | Some d \<Rightarrow> CHR '':'' # d)"
  define hp where "hp = write_host (sp_host p) @ port"
  have auth: "write_authority p = (case sp_user p of None \<Rightarrow> [] | Some u \<Rightarrow> u @ ''@'') @ hp @ sp_path p"
    by (simp add: write_authority_def hp_def port_def)
  have scheme: "(case split_once ''://'' (write_server p) of None \<Rightarrow> write_server p | Some (_, r) \<Rightarrow> r)
      = write_authority p"
  proof (cases "sp_scheme p")
    case None
    then have "CHR ''/'' \<notin> set (write_authority p)" using ok by (simp add: server_ok_def)
    with None show ?thesis by (simp only: write_server_def option.case append_Nil split_no_scheme not_False_eq_True)
  next
    case (Some s)
    then have "CHR '':'' \<notin> set s" using ok by (simp add: server_ok_def)
    with Some show ?thesis
      by (simp only: write_server_def option.case append_assoc split_scheme prod.case not_False_eq_True)
  qed
  have plain: "c \<in> set hp \<Longrightarrow> c \<notin> {CHR ''/'', CHR ''?'', CHR ''@''}" for c
  proof -
    assume "c \<in> set hp"
    then consider "c \<in> set (write_host (sp_host p))" | "c = CHR '':''"
      | d where "sp_port p = Some d" "c \<in> set d"
      by (cases "sp_port p") (auto simp: hp_def port_def)
    then show ?thesis
    proof cases
      case 1
      then show ?thesis using ok host_plain [of "sp_host p" c] by (simp add: server_ok_def)
    next
      case 3
      then show ?thesis using ok digits_plain [of d c] by (simp add: server_ok_def)
    qed simp
  qed
  have "CHR ''@'' \<notin> set (hp @ sp_path p)"
    using ok plain by (auto simp: server_ok_def)
  then have user: "(case rsplit_once CHR ''@'' (write_authority p) of None \<Rightarrow> write_authority p | Some (_, h) \<Rightarrow> h)
      = hp @ sp_path p"
    unfolding auth using rsplit_once_None [of "CHR ''@''" "hp @ sp_path p"]
    by (cases "sp_user p") (simp_all add: rsplit_once_fresh)
  have path: "hd (split_on (\<lambda>c. c = CHR ''/'' \<or> c = CHR ''?'') (hp @ sp_path p)) = hp"
    using ok plain by (intro split_path) (auto simp: server_ok_def)
  show ?thesis
    unfolding url_host_def Let_def scheme user path
    by (rule authority_host) (use ok in \<open>simp_all add: server_ok_def hp_def port_def\<close>)
qed

lemma trim_write: "server_ok p \<Longrightarrow> trim (write_server p) = write_server p"
  by (rule trim_visible) (auto simp: server_ok_def list_all_iff)

lemma servers_split:
  "ps \<noteq> [] \<Longrightarrow> list_all server_ok ps \<Longrightarrow>
     split_on (\<lambda>c. c = CHR '','') (join '','' (map write_server ps)) = map write_server ps"
  by (rule split_on_join) (auto simp: server_ok_def list_all_iff)

text \<open>C28: for a server list written from well-formed parts, the transport policy is decided by the
  hosts alone, whatever the credentials, ports and paths: forcing TLS wins; plaintext without
  an opt-out needs every host to be the loopback interface, so that one remote host taints
  the list; the opt-out is honoured only then; everything else requires TLS.\<close>

theorem tls_policy_by_hosts:
  assumes "ps \<noteq> []" and "list_all server_ok ps"
  shows "tls_policy (join '','' (map write_server ps)) require_tls allow_plaintext =
    (if require_tls then Required
     else if \<forall>p \<in> set ps. host_is_loopback (host_text (sp_host p)) then LoopbackPlaintext
     else if allow_plaintext then ExplicitPlaintext else Required)"
proof -
  have "list_all (\<lambda>s. host_is_loopback (url_host (trim s))) (map write_server ps) \<longleftrightarrow>
      (\<forall>p \<in> set ps. host_is_loopback (host_text (sp_host p)))"
    using assms(2) by (simp add: list_all_iff trim_write url_host_write)
  then show ?thesis
    by (simp only: tls_policy_def servers_split [OF assms])
qed

lemmas tls_eval = host_is_loopback_def eq_ignore_ascii_case_def ascii_lower_def ascii_lower_char_def
  is_upper_def code_def ip_eval

definition remote_server :: server_parts where
  "remote_server = \<lparr>sp_scheme = Some ''nats'', sp_user = Some ''u:p'', sp_host = Name ''broker.internal'',
     sp_port = Some ''4222'', sp_path = ''/x?y''\<rparr>"

definition local_server :: server_parts where
  "local_server = \<lparr>sp_scheme = None, sp_user = None, sp_host = Bracketed ''::1'',
     sp_port = Some ''4222'', sp_path = []\<rparr>"

theorem tls_policy_by_hosts_witness:
  "tls_policy (join '','' (map write_server [local_server, remote_server])) False False = Required"
proof -
  have "list_all server_ok [local_server, remote_server]"
    by (simp add: server_ok_def local_server_def remote_server_def write_server_def
        write_authority_def name_char_def char_class_defs)
  moreover have "\<not> host_is_loopback ''broker.internal''"
    by (simp add: tls_eval)
  ultimately show ?thesis
    using tls_policy_by_hosts [of "[local_server, remote_server]" False False]
    by (simp add: remote_server_def)
qed

text \<open>
  The condition on the path is needed: the userinfo is cut at the last at-sign of the whole
  address, so an at-sign in the path of a remote server makes the policy look at the text
  behind it, and the remote connection is treated as a loopback one.
\<close>

lemma at_sign_host: "url_host ''nats://broker.internal/@localhost'' = ''localhost''"
  by (simp add: url_host_def rsplit_once_def strip_prefix_def)

lemma at_sign_trim: "trim ''nats://broker.internal/@localhost'' = ''nats://broker.internal/@localhost''"
  by (rule trim_visible) (simp add: code_def is_ascii_def)

theorem path_at_sign_defeats_tls:
  "tls_policy ''nats://broker.internal/@localhost'' False False = LoopbackPlaintext"
proof -
  have "split_on (\<lambda>c. c = CHR '','') ''nats://broker.internal/@localhost''
      = [''nats://broker.internal/@localhost'']"
    by (rule split_on_none) simp
  moreover have "host_is_loopback ''localhost''" by (simp add: host_is_loopback_def eq_ignore_ascii_case_def)
  moreover have "split_on (\<lambda>c. c = CHR '','') X = [X] \<Longrightarrow> url_host (trim X) = ''localhost'' \<Longrightarrow>
      host_is_loopback ''localhost'' \<Longrightarrow> tls_policy X False False = LoopbackPlaintext" for X
    by (simp only: tls_policy_def list.pred_inject if_True if_False simp_thms)
  ultimately show ?thesis
    using at_sign_host by (simp only: at_sign_trim)
qed

end
