(* ===== verification/Outbox.thy ===== *)
theory Outbox
  imports NatsTls "HOL-Library.Product_Lexorder"
begin

text \<open>
  The NATS publisher of src/src/nats.rs: the durable outbox on disk, the delivery loop with its
  retries and dead letters, the live (at most once) path, the connection gate and the counters.

  A directory is a map from message ids to files; a file is what \<open>serde_json::from_slice\<close> reads
  from it, a record or an error. Everything outside the process is a script in the state: \<open>faults\<close>
  says which file operations fail, \<open>dials\<close> which connection attempts succeed, \<open>replies\<close> what
  JetStream does with a publish, \<open>sends\<close> whether a Core NATS publish succeeds. Theorems hold for
  every script. A process that stops between two file operations leaves the files that a failure
  of the second operation leaves.
\<close>

section \<open>State\<close>

type_synonym uuid = "128 word"

record outbox_record =
  message_id :: uuid
  subject :: string
  dedup_id :: string
  payload :: "u8 list"
  attempts :: u32
  created_at_ms :: int
  next_attempt_at_ms :: int

type_synonym disk_file = "string + outbox_record"

datatype delivery_outcome = Acknowledged | Unacknowledged

record dead_letter_summary =
  dl_message_id :: uuid
  dl_subject :: string
  dl_dedup_id :: string
  dl_attempts :: u32
  dl_reason :: string

record nats_snapshot =
  snap_configured :: bool
  snap_connect_attempts :: u64
  snap_connect_failures :: u64
  snap_jetstream_published :: u64
  snap_core_published :: u64
  snap_publish_failures :: u64
  snap_serialization_failures :: u64
  snap_outbox_persist_failures :: u64
  snap_outbox_pending :: u64
  snap_outbox_deferred :: u64
  snap_dead_lettered :: u64
  snap_unconfigured_skips :: u64
  snap_unavailable_drops :: u64

record nats =
  url :: "string option"
  max_attempts :: u32
  connected :: bool
  last_attempt :: "nat option"
  connect_attempts :: u64
  connect_failures :: u64
  jetstream_published :: u64
  core_published :: u64
  publish_failures :: u64
  serialization_failures :: u64
  outbox_persist_failures :: u64
  outbox_pending :: u64
  outbox_deferred :: u64
  dead_lettered :: u64
  unconfigured_skips :: u64
  unavailable_drops :: u64

text \<open>What JetStream does with a publish: store and acknowledge it, store it with the
  acknowledgement lost, or lose it.\<close>

datatype reply = Stored | Ack_Lost | Lost

type_synonym content = "string \<times> string \<times> u8 list"

definition content :: "outbox_record \<Rightarrow> content" where
  "content r = (subject r, dedup_id r, payload r)"

record host = nats +
  up :: bool
  dial_log :: "(nat \<times> bool \<times> string option) list"
  outbox_dir_exists :: bool
  dead_dir_exists :: bool
  pending_dir :: "(uuid, disk_file) hmap"
  dead_dir :: "(uuid, disk_file) hmap"
  temporaries :: "outbox_record list"
  stream :: "content list"
  environ :: "string \<Rightarrow> string option"
  monotonic_ms :: nat
  wall_ms :: int
  faults :: "bool list"
  dials :: "bool list"
  replies :: "reply list"
  sends :: "bool list"

definition connect_retry_ms :: nat where
  "connect_retry_ms = 5000"

definition outbox_retry_ms :: int where
  "outbox_retry_ms = 5000"

text \<open>A new process over the files that are there.\<close>

definition with_outbox :: "string option \<Rightarrow> u32 \<Rightarrow> host \<Rightarrow> host" where
  "with_outbox u attempts_limit s = s
     \<lparr> url := u, max_attempts := max attempts_limit 1, connected := False, last_attempt := None,
       connect_attempts := 0, connect_failures := 0, jetstream_published := 0, core_published := 0,
       publish_failures := 0, serialization_failures := 0, outbox_persist_failures := 0,
       outbox_pending := 0, outbox_deferred := 0, dead_lettered := 0, unconfigured_skips := 0,
       unavailable_drops := 0, up := False, dial_log := [] \<rparr>"

section \<open>Files\<close>

text \<open>One file operation: it fails when the script says so, and otherwise does its work.\<close>

definition file_call :: "(host, 'a) io \<Rightarrow> (host, 'a) io" where
  "file_call f s =
     (case faults s of
        [] \<Rightarrow> f s
      | fault # rest \<Rightarrow>
          if fault then (Inl ''i/o error'', s\<lparr>faults := rest\<rparr>) else f (s\<lparr>faults := rest\<rparr>))"

definition prepare_directories :: "(host, unit) io" where
  "prepare_directories =
     io_bind (file_call (\<lambda>s. (Inr (), s\<lparr>outbox_dir_exists := True\<rparr>)))
       (\<lambda>_. file_call (\<lambda>s. (Inr (), s\<lparr>dead_dir_exists := True\<rparr>)))"

text \<open>\<open>write_record\<close>: a temporary file with a fresh name, renamed over the record's path.\<close>

definition write_record :: "uuid \<Rightarrow> outbox_record \<Rightarrow> (host, unit) io" where
  "write_record path r =
     io_bind (file_call (\<lambda>s. if outbox_dir_exists s
                             then (Inr (), s\<lparr>temporaries := r # temporaries s\<rparr>)
                             else (Inl ''not found'', s)))
       (\<lambda>_. file_call (\<lambda>s. (Inr (), s\<lparr>temporaries := tl (temporaries s),
                                       pending_dir := hm_insert path (Inr r) (pending_dir s)\<rparr>)))"

definition remove_pending :: "uuid \<Rightarrow> (host, unit) io" where
  "remove_pending path =
     file_call (\<lambda>s. if hm_get (pending_dir s) path = None then (Inl ''not found'', s)
                    else (Inr (), s\<lparr>pending_dir := hm_remove path (pending_dir s)\<rparr>))"

definition rename_to_dead :: "uuid \<Rightarrow> (host, unit) io" where
  "rename_to_dead path =
     file_call (\<lambda>s. case hm_get (pending_dir s) path of
                      None \<Rightarrow> (Inl ''not found'', s)
                    | Some f \<Rightarrow> (Inr (), s\<lparr>pending_dir := hm_remove path (pending_dir s),
                                         dead_dir := hm_insert path f (dead_dir s)\<rparr>))"

fun read_entries :: "(uuid \<times> disk_file) list \<Rightarrow> (host, outbox_record list) io" where
  "read_entries [] = file_call (io_return [])"
| "read_entries ((path, f) # entries) =
     io_bind (file_call (io_return ()))
       (\<lambda>_. io_bind (file_call (io_return f))
         (\<lambda>f. case f of
                Inl e \<Rightarrow> io_fail e
              | Inr r \<Rightarrow> io_bind (read_entries entries) (\<lambda>rs. io_return (r # rs))))"

definition record_order :: "outbox_record \<Rightarrow> int \<times> uuid" where
  "record_order r = (created_at_ms r, message_id r)"

definition read_records ::
  "(host \<Rightarrow> bool) \<Rightarrow> (host \<Rightarrow> (uuid, disk_file) hmap) \<Rightarrow> (host, outbox_record list) io" where
  "read_records dir_exists dir =
     io_bind (file_call (\<lambda>s. if dir_exists s then (Inr (dir s), s) else (Inl ''not found'', s)))
       (\<lambda>entries. io_bind (read_entries entries) (\<lambda>rs. io_return (sort_key record_order rs)))"

definition pending_records :: "(host, outbox_record list) io" where
  "pending_records = read_records outbox_dir_exists pending_dir"

definition dead_letter_records :: "(host, outbox_record list) io" where
  "dead_letter_records = read_records dead_dir_exists dead_dir"

section \<open>Records through their life\<close>

text \<open>\<open>persist_record\<close>: the same record again is accepted once; another record under the id of a
  pending one is a collision.\<close>

definition persist_record :: "outbox_record \<Rightarrow> (host, bool) io" where
  "persist_record r =
     io_bind prepare_directories
       (\<lambda>_. io_bind (file_call (\<lambda>s. (Inr (hm_get (pending_dir s) (message_id r)), s)))
         (\<lambda>found. case found of
            Some (Inl e) \<Rightarrow> io_fail e
          | Some (Inr existing) \<Rightarrow>
              if existing \<noteq> r then io_fail ''outbox message id collision'' else io_return False
          | None \<Rightarrow>
              io_bind (write_record (message_id r) r)
                (\<lambda>_ s. (Inr True, s\<lparr>outbox_pending := outbox_pending s + 1\<rparr>))))"

definition move_to_dead_letter :: "outbox_record \<Rightarrow> (host, unit) io" where
  "move_to_dead_letter r =
     io_bind (file_call (\<lambda>s. (Inr (hm_get (dead_dir s) (message_id r) \<noteq> None), s)))
       (\<lambda>found. io_bind (if found then remove_pending (message_id r) else rename_to_dead (message_id r))
         (\<lambda>_ s. (Inr (), s\<lparr>outbox_pending := outbox_pending s - 1,
                            dead_lettered := dead_lettered s + 1\<rparr>)))"

definition retry_later :: "int \<Rightarrow> outbox_record \<Rightarrow> outbox_record" where
  "retry_later now_ms r = r\<lparr>attempts := sat_add (attempts r) 1,
                            next_attempt_at_ms := i64_sat (now_ms + outbox_retry_ms)\<rparr>"

fun finalize_delivery :: "outbox_record \<Rightarrow> delivery_outcome \<Rightarrow> int \<Rightarrow> (host, unit) io" where
  "finalize_delivery r Acknowledged now_ms =
     io_bind (remove_pending (message_id r))
       (\<lambda>_ s. (Inr (), s\<lparr>outbox_pending := outbox_pending s - 1,
                          jetstream_published := jetstream_published s + 1\<rparr>))"
| "finalize_delivery r Unacknowledged now_ms =
     (let r = retry_later now_ms r in
      io_bind (write_record (message_id r) r)
        (\<lambda>_ s. if max_attempts s \<le> attempts r then move_to_dead_letter r s else (Inr (), s)))"

section \<open>Connection\<close>

definition client :: "host \<Rightarrow> bool \<times> host" where
  "client s =
     (case url s of
        None \<Rightarrow> (False, s)
      | Some u \<Rightarrow>
          if connected s then (True, s)
          else if (case last_attempt s of None \<Rightarrow> False
                                        | Some a \<Rightarrow> monotonic_ms s - a < connect_retry_ms)
          then (False, s)
          else
            let s = s\<lparr>last_attempt := Some (monotonic_ms s),
                      connect_attempts := connect_attempts s + 1,
                      dial_log := dial_log s @ [(monotonic_ms s, connect_options (environ s) u)]\<rparr>
            in case dials s of
                 True # ds \<Rightarrow> (True, s\<lparr>dials := ds, connected := True\<rparr>)
               | False # ds \<Rightarrow> (False, s\<lparr>dials := ds, connect_failures := connect_failures s + 1\<rparr>)
               | [] \<Rightarrow> (False, s\<lparr>connect_failures := connect_failures s + 1\<rparr>))"

definition invalidate_client :: "host \<Rightarrow> host" where
  "invalidate_client s = s\<lparr>connected := False\<rparr>"

text \<open>\<open>NatsPublisher::publish\<close> on JetStream, as the script of the broker has it.\<close>

definition jetstream_publish :: "outbox_record \<Rightarrow> host \<Rightarrow> delivery_outcome \<times> host" where
  "jetstream_publish r s =
     (case replies s of
        [] \<Rightarrow> (Unacknowledged, s)
      | reply # rest \<Rightarrow>
          (case reply of
             Stored \<Rightarrow> (Acknowledged, s\<lparr>replies := rest, stream := stream s @ [content r]\<rparr>)
           | Ack_Lost \<Rightarrow> (Unacknowledged, s\<lparr>replies := rest, stream := stream s @ [content r]\<rparr>)
           | Lost \<Rightarrow> (Unacknowledged, s\<lparr>replies := rest\<rparr>)))"

section \<open>Draining\<close>

text \<open>The first loop of \<open>drain_locked\<close>: exhausted records are quarantined, due ones collected.\<close>

fun triage :: "u32 \<Rightarrow> int \<Rightarrow> outbox_record list \<Rightarrow> (host, outbox_record list) io" where
  "triage limit now_ms [] = io_return []"
| "triage limit now_ms (r # rs) =
     (if limit \<le> attempts r then io_bind (move_to_dead_letter r) (\<lambda>_. triage limit now_ms rs)
      else if next_attempt_at_ms r \<le> now_ms
      then io_bind (triage limit now_ms rs) (\<lambda>due. io_return (r # due))
      else triage limit now_ms rs)"

text \<open>The second loop: publish in order, stop at the first record that is not acknowledged.\<close>

fun deliver :: "int \<Rightarrow> outbox_record list \<Rightarrow> host \<Rightarrow> host" where
  "deliver now_ms [] s = s"
| "deliver now_ms (r # rs) s =
     (case jetstream_publish r s of
        (outcome, s) \<Rightarrow>
          (case finalize_delivery r outcome now_ms s of
             (Inl _, s) \<Rightarrow> s\<lparr>outbox_persist_failures := outbox_persist_failures s + 1\<rparr>
           | (Inr _, s) \<Rightarrow>
               if outcome = Unacknowledged
               then invalidate_client (s\<lparr>publish_failures := publish_failures s + 1\<rparr>)
               else deliver now_ms rs s))"

definition drain_locked :: "host \<Rightarrow> host" where
  "drain_locked s =
     (case pending_records s of
        (Inl _, s) \<Rightarrow> s\<lparr>outbox_persist_failures := outbox_persist_failures s + 1\<rparr>
      | (Inr records, s) \<Rightarrow>
          (case triage (max_attempts s) (wall_ms s) records s of
             (Inl _, s) \<Rightarrow> s\<lparr>outbox_persist_failures := outbox_persist_failures s + 1\<rparr>
           | (Inr due, s) \<Rightarrow>
               if due = [] then s
               else (case client s of
                       (False, s) \<Rightarrow> s\<lparr>outbox_deferred := outbox_deferred s + 1\<rparr>
                     | (True, s) \<Rightarrow> deliver (wall_ms s) due s)))"

definition drain_outbox :: "host \<Rightarrow> host" where
  "drain_outbox s = (if url s = None then s else drain_locked s)"

definition start :: "(host, unit) io" where
  "start s =
     (if url s = None then (Inr (), s)
      else io_bind prepare_directories
        (\<lambda>_. io_bind pending_records
          (\<lambda>waiting. io_bind dead_letter_records
            (\<lambda>dead s. (Inr (), drain_outbox
               (s\<lparr>outbox_pending := of_nat (length waiting), dead_lettered := of_nat (length dead)\<rparr>))))) s)"

section \<open>Publishing\<close>

text \<open>What \<open>publish_event\<close> reads of a \<open>MessageEnvelope\<close>: \<open>encode\<close> may refuse it.\<close>

record 'tenant envelope =
  env_message_id :: uuid
  env_tenant_id :: 'tenant
  env_idempotency_key :: string
  env_created_at_ms :: int
  env_encoded :: "string + u8 list"

definition event_record ::
  "('tenant \<Rightarrow> string \<Rightarrow> string) \<Rightarrow> string \<Rightarrow> 'tenant envelope \<Rightarrow> u8 list \<Rightarrow> outbox_record" where
  "event_record tenant_scoped_dedup_id subj e bytes =
     \<lparr>message_id = env_message_id e, subject = subj,
      dedup_id = tenant_scoped_dedup_id (env_tenant_id e) (env_idempotency_key e),
      payload = bytes, attempts = 0, created_at_ms = env_created_at_ms e, next_attempt_at_ms = 0\<rparr>"

definition publish_event ::
  "('tenant \<Rightarrow> string \<Rightarrow> string) \<Rightarrow> string \<Rightarrow> 'tenant envelope \<Rightarrow> host \<Rightarrow> host" where
  "publish_event tenant_scoped_dedup_id subj e s =
     (if url s = None then s\<lparr>unconfigured_skips := unconfigured_skips s + 1\<rparr>
      else case env_encoded e of
             Inl _ \<Rightarrow> s\<lparr>serialization_failures := serialization_failures s + 1\<rparr>
           | Inr bytes \<Rightarrow>
               (case persist_record (event_record tenant_scoped_dedup_id subj e bytes) s of
                  (Inl _, s) \<Rightarrow> s\<lparr>outbox_persist_failures := outbox_persist_failures s + 1\<rparr>
                | (Inr _, s) \<Rightarrow> drain_locked s))"

definition publish_live :: "string \<Rightarrow> u8 list \<Rightarrow> host \<Rightarrow> host" where
  "publish_live subj bytes s =
     (case client s of
        (False, s) \<Rightarrow>
          if url s \<noteq> None then s\<lparr>unavailable_drops := unavailable_drops s + 1\<rparr>
          else s\<lparr>unconfigured_skips := unconfigured_skips s + 1\<rparr>
      | (True, s) \<Rightarrow>
          if sends s \<noteq> [] \<and> hd (sends s)
          then s\<lparr>sends := tl (sends s), core_published := core_published s + 1\<rparr>
          else invalidate_client
            (s\<lparr>sends := tl (sends s), publish_failures := publish_failures s + 1,
               unavailable_drops := unavailable_drops s + 1\<rparr>))"

definition dead_letters :: "(host, dead_letter_summary list) io" where
  "dead_letters =
     io_bind dead_letter_records
       (\<lambda>rs. io_return (map (\<lambda>r. \<lparr>dl_message_id = message_id r, dl_subject = subject r,
          dl_dedup_id = dedup_id r, dl_attempts = attempts r,
          dl_reason = ''JetStream publish was not acknowledged''\<rparr>) rs))"

section \<open>Observability\<close>

definition snapshot :: "host \<Rightarrow> nats_snapshot" where
  "snapshot s =
     \<lparr> snap_configured = (url s \<noteq> None),
       snap_connect_attempts = connect_attempts s,
       snap_connect_failures = connect_failures s,
       snap_jetstream_published = jetstream_published s,
       snap_core_published = core_published s,
       snap_publish_failures = publish_failures s,
       snap_serialization_failures = serialization_failures s,
       snap_outbox_persist_failures = outbox_persist_failures s,
       snap_outbox_pending = outbox_pending s,
       snap_outbox_deferred = outbox_deferred s,
       snap_dead_lettered = dead_lettered s,
       snap_unconfigured_skips = unconfigured_skips s,
       snap_unavailable_drops = unavailable_drops s \<rparr>"

definition metric_lines :: "string \<times> string \<times> u64 \<Rightarrow> string" where
  "metric_lines m =
     (case m of (name, kind, v) \<Rightarrow>
        ''# TYPE fiducia_agent_nats_'' @ name @ '' '' @ kind @ [CHR 0x0A]
        @ ''fiducia_agent_nats_'' @ name @ '' '' @ digits (unat v) @ [CHR 0x0A])"

definition metrics_text :: "host \<Rightarrow> string" where
  "metrics_text h =
     (let s = snapshot h in concat (map metric_lines
        [(''connect_attempts_total'', ''counter'', snap_connect_attempts s),
         (''connect_failures_total'', ''counter'', snap_connect_failures s),
         (''publish_failures_total'', ''counter'', snap_publish_failures s),
         (''jetstream_published_total'', ''counter'', snap_jetstream_published s),
         (''core_published_total'', ''counter'', snap_core_published s),
         (''serialization_failures_total'', ''counter'', snap_serialization_failures s),
         (''outbox_persist_failures_total'', ''counter'', snap_outbox_persist_failures s),
         (''outbox_pending'', ''gauge'', snap_outbox_pending s),
         (''outbox_deferred_total'', ''counter'', snap_outbox_deferred s),
         (''dead_lettered'', ''gauge'', snap_dead_lettered s),
         (''unconfigured_skips_total'', ''counter'', snap_unconfigured_skips s),
         (''unavailable_drops_total'', ''counter'', snap_unavailable_drops s)]))"

section \<open>Runs\<close>

text \<open>
  What can happen to a worker: the two publishing calls, the background timer, a restart, and the
  world around it (time passes, the wall clock is set, the scripts change). A process whose
  \<open>start\<close> failed is not up and does nothing until the next restart.
\<close>

datatype 'tenant host_op =
    Publish_Event string "'tenant envelope"
  | Publish_Live string "u8 list"
  | Timer
  | Restart "string option" u32
  | Time_Passes nat
  | Clock_Set int
  | World "bool list" "bool list" "reply list" "bool list"

definition boot :: "string option \<Rightarrow> u32 \<Rightarrow> host \<Rightarrow> host" where
  "boot u limit s =
     (case start (with_outbox u limit s) of
        (Inl _, s) \<Rightarrow> s
      | (Inr _, s) \<Rightarrow> s\<lparr>up := True\<rparr>)"

fun host_step :: "('tenant \<Rightarrow> string \<Rightarrow> string) \<Rightarrow> host \<Rightarrow> 'tenant host_op \<Rightarrow> host" where
  "host_step dedup s (Publish_Event subj e) = (if up s then publish_event dedup subj e s else s)"
| "host_step dedup s (Publish_Live subj bytes) = (if up s then publish_live subj bytes s else s)"
| "host_step dedup s Timer = (if up s then drain_outbox s else s)"
| "host_step dedup s (Restart u limit) = boot u limit s"
| "host_step dedup s (Time_Passes ms) = s\<lparr>monotonic_ms := monotonic_ms s + ms, wall_ms := wall_ms s + int ms\<rparr>"
| "host_step dedup s (Clock_Set ms) = s\<lparr>wall_ms := ms\<rparr>"
| "host_step dedup s (World fs ds rs ls) = s\<lparr>faults := fs, dials := ds, replies := rs, sends := ls\<rparr>"

end
