(* ===== verification/Outbox_Durability.thy ===== *)
theory Outbox_Durability
  imports Outbox "HOL-Library.Multiset"
begin

text \<open>
  What the outbox of src/src/nats.rs promises: an event that was accepted stays accounted for
  through every failure, the gauge counts the files, a working broker receives the events in
  order, and the broker is dialled at most once in five seconds.
\<close>

section \<open>The invariant of the files\<close>

text \<open>\<open>body\<close> is what each message id stands for; ids are fresh UUIDs, so no two envelopes share one.\<close>

definition files_ok :: "(uuid \<Rightarrow> content) \<Rightarrow> (uuid, disk_file) hmap \<Rightarrow> (uuid, disk_file) hmap \<Rightarrow> bool" where
  "files_ok body p d \<longleftrightarrow> hm_wf p \<and> hm_wf d
     \<and> (\<forall>k r. hm_get p k = Some (Inr r) \<longrightarrow> message_id r = k \<and> content r = body k)
     \<and> (\<forall>k f. hm_get d k = Some f \<longrightarrow> (\<exists>r. f = Inr r \<and> message_id r = k \<and> content r = body k))"

definition accounted ::
  "(uuid \<Rightarrow> content) \<Rightarrow> uuid \<Rightarrow> (uuid, disk_file) hmap \<Rightarrow> (uuid, disk_file) hmap \<Rightarrow> content list \<Rightarrow> bool" where
  "accounted body k p d st \<longleftrightarrow>
     (\<exists>r. hm_get p k = Some (Inr r)) \<or> hm_get d k \<noteq> None \<or> body k \<in> set st"

text \<open>The invariant, with the set \<open>A\<close> of the ids that are accounted for, and the gauge when \<open>G\<close>.\<close>

definition box_ok :: "(uuid \<Rightarrow> content) \<Rightarrow> bool \<Rightarrow> uuid set \<Rightarrow> host \<Rightarrow> bool" where
  "box_ok body G A s \<longleftrightarrow>
     files_ok body (pending_dir s) (dead_dir s)
     \<and> (\<forall>k \<in> A. accounted body k (pending_dir s) (dead_dir s) (stream s))
     \<and> (G \<and> url s \<noteq> None \<longrightarrow> outbox_pending s = of_nat (hm_len (pending_dir s)))"

text \<open>A file operation that leaves a state predicate alone, and the fault before it.\<close>

definition fault_free :: "(host \<Rightarrow> bool) \<Rightarrow> bool" where
  "fault_free P \<longleftrightarrow> (\<forall>s fs. P s \<longrightarrow> P (s\<lparr>faults := fs\<rparr>))"

lemma triple_file_call:
  "fault_free P \<Longrightarrow> triple P f Q E \<Longrightarrow> (\<And>s. P s \<Longrightarrow> E s) \<Longrightarrow> triple P (file_call f) Q E"
  by (fastforce simp: triple_def file_call_def fault_free_def split: list.splits prod.splits sum.splits)

lemma box_fault_free [simp]: "fault_free (box_ok body G A)"
  by (simp add: fault_free_def box_ok_def)

lemma box_call:
  "(\<And>s. box_ok body G A s \<Longrightarrow> case f s of (Inl e, s') \<Rightarrow> box_ok body G A s' | (Inr x, s') \<Rightarrow> box_ok body G A s') \<Longrightarrow>
     triple (box_ok body G A) (file_call f) (\<lambda>_. box_ok body G A) (box_ok body G A)"
  by (rule triple_file_call) (auto simp: triple_def)

lemma prepare_directories_box:
  "triple (box_ok body G A) prepare_directories (\<lambda>_. box_ok body G A) (box_ok body G A)"
  unfolding prepare_directories_def
  by (rule triple_bind; rule box_call) (simp_all add: box_ok_def)

section \<open>What reading a directory returns\<close>

definition parsed :: "(uuid \<times> disk_file) list \<Rightarrow> outbox_record list" where
  "parsed es = map (\<lambda>e. case snd e of Inr r \<Rightarrow> r | Inl _ \<Rightarrow> undefined) es"

definition only_faults :: "host \<Rightarrow> host \<Rightarrow> bool" where
  "only_faults s s' \<longleftrightarrow> (\<exists>fs. s' = s\<lparr>faults := fs\<rparr>)"

lemma only_faults_refl [simp]: "only_faults s s"
  unfolding only_faults_def by (rule exI [of _ "faults s"]) simp

lemma only_faults_trans: "only_faults s t \<Longrightarrow> only_faults t u \<Longrightarrow> only_faults s u"
  by (auto simp: only_faults_def)

lemma file_call_reads:
  assumes "file_call f s = (v, t)" and f: "\<And>s v t. f s = (v, t) \<Longrightarrow> t = s \<and> R v"
  shows "only_faults s t \<and> (v = Inl ''i/o error'' \<or> R v)"
proof (cases "faults s")
  case Nil
  then have "f s = (v, t)" using assms(1) by (simp add: file_call_def)
  with f [of s v t] show ?thesis by simp
next
  case (Cons b fs)
  have call: "(if b then (Inl ''i/o error'', s\<lparr>faults := fs\<rparr>) else f (s\<lparr>faults := fs\<rparr>)) = (v, t)"
    using assms(1) Cons by (simp only: file_call_def list.case Let_def)
  show ?thesis
  proof (cases b)
    case True
    then have "v = Inl ''i/o error''" "t = s\<lparr>faults := fs\<rparr>" using call by simp_all
    then show ?thesis by (auto simp only: only_faults_def)
  next
    case False
    then have "t = s\<lparr>faults := fs\<rparr> \<and> R v" using call f by (simp only: if_False)
    then show ?thesis by (auto simp only: only_faults_def)
  qed
qed

lemma read_entries_result:
  "read_entries es s = (v, t) \<Longrightarrow>
     only_faults s t \<and> (\<forall>rs. v = Inr rs \<longrightarrow> map snd es = map Inr rs)"
proof (induction es arbitrary: s v t)
  case Nil
  then show ?case
    by (auto dest!: file_call_reads [where R = "\<lambda>v. v = Inr []"] simp: io_return_def)
next
  case (Cons e es)
  obtain k f where e: "e = (k, f)" by (cases e)
  obtain v1 s1 where c1: "file_call (io_return ()) s = (v1, s1)" by fastforce
  have o1: "only_faults s s1"
    using c1 by (auto dest!: file_call_reads [where R = "\<lambda>v. True"] simp: io_return_def)
  obtain v2 s2 where c2: "file_call (io_return f) s1 = (v2, s2)" by fastforce
  have o2: "only_faults s1 s2" "v2 = Inl ''i/o error'' \<or> v2 = Inr f"
    using c2 by (auto dest!: file_call_reads [where R = "\<lambda>v. v = Inr f"] simp: io_return_def)
  obtain v3 s3 where c3: "read_entries es s2 = (v3, s3)" by fastforce
  note IH = Cons.IH [OF c3]
  show ?case
    using Cons.prems e c1 c2 c3 o1 o2 IH
    by (auto simp: io_defs split: sum.splits intro: only_faults_trans only_faults_trans [OF only_faults_trans])
qed

lemma box_only_faults: "box_ok body G A s \<Longrightarrow> only_faults s t \<Longrightarrow> box_ok body G A t"
  by (auto simp: only_faults_def box_ok_def)

lemma read_records_result:
  assumes "read_records ex dir s = (v, t)" and "\<And>s fs. dir (s\<lparr>faults := fs\<rparr>) = dir s"
  shows "only_faults s t \<and> (\<forall>rs. v = Inr rs \<longrightarrow> (\<exists>rs'. map snd (dir s) = map Inr rs' \<and> rs = sort_key record_order rs'))"
proof -
  let ?open = "\<lambda>s. if ex s then (Inr (dir s), s) else (Inl ''not found'', s)"
  obtain v1 s1 where c1: "file_call ?open s = (v1, s1)" by fastforce
  have o1: "only_faults s s1" and v1: "\<forall>es. v1 = Inr es \<longrightarrow> es = dir s"
    using c1 assms(2) by (auto simp: file_call_def only_faults_def split: list.splits if_splits
        intro: exI [of _ "faults s"])
  show ?thesis
  proof (cases v1)
    case (Inl e)
    then show ?thesis using assms(1) c1 o1 by (auto simp: read_records_def io_defs)
  next
    case (Inr es)
    obtain v2 s2 where c2: "read_entries es s1 = (v2, s2)" by fastforce
    have "only_faults s s2" using o1 read_entries_result [OF c2] by (auto intro: only_faults_trans)
    with Inr c1 c2 v1 read_entries_result [OF c2] assms(1) show ?thesis
      by (auto simp: read_records_def io_defs split: sum.splits)
  qed
qed

text \<open>Records that are on disk as they were read, each under its own id.\<close>

definition on_disk :: "outbox_record list \<Rightarrow> (uuid, disk_file) hmap \<Rightarrow> bool" where
  "on_disk rs p \<longleftrightarrow> distinct (map message_id rs) \<and> (\<forall>r \<in> set rs. hm_get p (message_id r) = Some (Inr r))"

lemma parsed_on_disk:
  assumes ok: "files_ok body p d" and rs: "map snd p = map Inr rs"
  shows "on_disk rs p"
proof -
  have wf: "hm_wf p" using ok by (simp add: files_ok_def)
  have len: "length p = length rs" using rs by (metis length_map)
  have nth: "snd (p ! i) = Inr (rs ! i)" if "i < length rs" for i
    using rs that len by (metis nth_map)
  have key: "hm_get p (fst (p ! i)) = Some (Inr (rs ! i))" if "i < length rs" for i
  proof -
    have "p ! i \<in> set p" using that len by simp
    then have "(fst (p ! i), Inr (rs ! i)) \<in> set p" using nth [OF that] by (metis prod.collapse)
    with wf show ?thesis by (simp add: hm_get_in)
  qed
  then have ids: "message_id (rs ! i) = fst (p ! i)" if "i < length rs" for i
    using ok that by (simp add: files_ok_def)
  have "map message_id rs = map fst p"
    by (rule nth_equalityI) (use len ids in \<open>simp_all\<close>)
  then have "distinct (map message_id rs)" using wf by (simp add: hm_wf_def)
  moreover have "hm_get p (message_id r) = Some (Inr r)" if "r \<in> set rs" for r
    using that key ids by (metis in_set_conv_nth)
  ultimately show ?thesis by (simp add: on_disk_def)
qed

lemma on_disk_perm: "mset rs = mset rs' \<Longrightarrow> on_disk rs p \<Longrightarrow> on_disk rs' p"
  unfolding on_disk_def by (metis mset_eq_setD mset_eq_imp_distinct_iff mset_map)

section \<open>Moving records\<close>

lemma files_remove: "files_ok body p d \<Longrightarrow> files_ok body (hm_remove k p) d"
  by (simp add: files_ok_def)

lemma files_rename:
  "files_ok body p d \<Longrightarrow> hm_get p k = Some (Inr r) \<Longrightarrow> files_ok body (hm_remove k p) (hm_insert k (Inr r) d)"
  by (simp add: files_ok_def)

lemma files_write:
  "files_ok body p d \<Longrightarrow> message_id r = k \<Longrightarrow> content r = body k \<Longrightarrow> files_ok body (hm_insert k (Inr r) p) d"
  by (simp add: files_ok_def)

lemma accounted_remove:
  "accounted body k' p d st \<Longrightarrow> body k \<in> set st \<or> hm_get d k \<noteq> None \<Longrightarrow> accounted body k' (hm_remove k p) d st"
  by (auto simp: accounted_def)

lemma accounted_rename: "accounted body k' p d st \<Longrightarrow> accounted body k' (hm_remove k p) (hm_insert k f d) st"
  by (auto simp: accounted_def)

lemma accounted_write: "accounted body k' p d st \<Longrightarrow> accounted body k' (hm_insert k (Inr r) p) d st"
  by (auto simp: accounted_def)

lemma accounted_stream: "accounted body k' p d st \<Longrightarrow> accounted body k' p d (st @ st')"
  by (auto simp: accounted_def)

lemma gauge_remove:
  "hm_wf p \<Longrightarrow> hm_get p k = Some v \<Longrightarrow> (of_nat (hm_len (hm_remove k p)) :: u64) = of_nat (hm_len p) - 1"
  by (metis hm_len_remove_in of_nat_Suc add_diff_cancel_left')

lemma file_call_cases:
  assumes "file_call f s = (v, t)"
  obtains fs where "v = Inl ''i/o error''" "t = s\<lparr>faults := fs\<rparr>"
    | fs where "f (s\<lparr>faults := fs\<rparr>) = (v, t)"
proof (cases "faults s")
  case Nil
  then have "f s = (v, t)" using assms by (simp add: file_call_def)
  moreover have "s\<lparr>faults := faults s\<rparr> = s" by simp
  ultimately show thesis using that(2) [of "faults s"] by (simp only:)
next
  case (Cons b fs)
  then have "(if b then (Inl ''i/o error'', s\<lparr>faults := fs\<rparr>) else f (s\<lparr>faults := fs\<rparr>)) = (v, t)"
    using assms by (simp only: file_call_def list.case Let_def)
  then show thesis using that(1) [of fs] that(2) [of fs] by (cases b) simp_all
qed

text \<open>What a step on one record may change: only that record's file.\<close>

definition touches_only :: "uuid \<Rightarrow> host \<Rightarrow> host \<Rightarrow> bool" where
  "touches_only k s t \<longleftrightarrow> stream t = stream s \<and> max_attempts t = max_attempts s \<and> url t = url s
     \<and> (\<forall>k'. k' \<noteq> k \<longrightarrow> hm_get (pending_dir t) k' = hm_get (pending_dir s) k')"

lemma touches_only_trans: "touches_only k s t \<Longrightarrow> touches_only k t u \<Longrightarrow> touches_only k s u"
  by (simp add: touches_only_def)

lemma touches_only_on_disk:
  "touches_only (message_id r) s t \<Longrightarrow> on_disk (r # rs) (pending_dir s) \<Longrightarrow> on_disk rs (pending_dir t)"
  by (auto simp: touches_only_def on_disk_def image_iff)

lemma remove_pending_box:
  assumes call: "remove_pending k s = (v, t)" and box: "box_ok body G A s"
    and r: "hm_get (pending_dir s) k = Some f" and safe: "body k \<in> set (stream s) \<or> hm_get (dead_dir s) k \<noteq> None"
  shows "touches_only k s t \<and> (case v of Inl _ \<Rightarrow> box_ok body G A t
     | Inr _ \<Rightarrow> box_ok body G A (t\<lparr>outbox_pending := outbox_pending t - 1\<rparr>))"
  using call unfolding remove_pending_def
proof (cases rule: file_call_cases)
  case (1 fs)
  then show ?thesis using box by (simp add: box_ok_def touches_only_def)
next
  case (2 fs)
  then have t: "v = Inr ()" "t = s\<lparr>faults := fs, pending_dir := hm_remove k (pending_dir s)\<rparr>"
    using r by simp_all
  then show ?thesis
    using box r safe
    by (auto simp: box_ok_def touches_only_def files_remove accounted_remove gauge_remove files_ok_def)
qed

lemma rename_to_dead_box:
  assumes call: "rename_to_dead k s = (v, t)" and box: "box_ok body G A s"
    and r: "hm_get (pending_dir s) k = Some (Inr r)"
  shows "touches_only k s t \<and> (case v of Inl _ \<Rightarrow> box_ok body G A t
     | Inr _ \<Rightarrow> box_ok body G A (t\<lparr>outbox_pending := outbox_pending t - 1\<rparr>))"
  using call unfolding rename_to_dead_def
proof (cases rule: file_call_cases)
  case (1 fs)
  then show ?thesis using box by (simp add: box_ok_def touches_only_def)
next
  case (2 fs)
  then have t: "v = Inr ()" "t = s\<lparr>faults := fs, pending_dir := hm_remove k (pending_dir s),
      dead_dir := hm_insert k (Inr r) (dead_dir s)\<rparr>"
    using r by simp_all
  have wf: "hm_wf (pending_dir s)" using box by (simp add: box_ok_def files_ok_def)
  show ?thesis
    using box r unfolding t
    by (simp add: box_ok_def touches_only_def files_rename accounted_rename gauge_remove [OF wf r])
qed

lemma box_counters [simp]:
  "box_ok body G A (s\<lparr>dead_lettered := x\<rparr>) = box_ok body G A s"
  "box_ok body G A (s\<lparr>jetstream_published := x\<rparr>) = box_ok body G A s"
  "box_ok body G A (s\<lparr>publish_failures := x\<rparr>) = box_ok body G A s"
  "box_ok body G A (s\<lparr>outbox_persist_failures := x\<rparr>) = box_ok body G A s"
  "box_ok body G A (s\<lparr>outbox_deferred := x\<rparr>) = box_ok body G A s"
  "box_ok body G A (s\<lparr>serialization_failures := x\<rparr>) = box_ok body G A s"
  "box_ok body G A (s\<lparr>unconfigured_skips := x\<rparr>) = box_ok body G A s"
  "box_ok body G A (s\<lparr>unavailable_drops := x\<rparr>) = box_ok body G A s"
  "box_ok body G A (s\<lparr>core_published := x\<rparr>) = box_ok body G A s"
  "box_ok body G A (s\<lparr>connected := c\<rparr>) = box_ok body G A s"
  "box_ok body G A (s\<lparr>faults := fs\<rparr>) = box_ok body G A s"
  "box_ok body G A (s\<lparr>replies := rs\<rparr>) = box_ok body G A s"
  "box_ok body G A (s\<lparr>sends := ls\<rparr>) = box_ok body G A s"
  "box_ok body G A (s\<lparr>up := b\<rparr>) = box_ok body G A s"
  "box_ok body G A (s\<lparr>outbox_dir_exists := b\<rparr>) = box_ok body G A s"
  "box_ok body G A (s\<lparr>dead_dir_exists := b\<rparr>) = box_ok body G A s"
  "box_ok body G A (s\<lparr>temporaries := ts\<rparr>) = box_ok body G A s"
  by (simp_all add: box_ok_def)

lemma touches_only_reads [simp]:
  "touches_only k s (t\<lparr>outbox_pending := x\<rparr>) = touches_only k s t"
  "touches_only k s (t\<lparr>dead_lettered := y\<rparr>) = touches_only k s t"
  "touches_only k s (t\<lparr>jetstream_published := y\<rparr>) = touches_only k s t"
  "touches_only k (s\<lparr>faults := fs\<rparr>) t = touches_only k s t"
  "touches_only k s (s\<lparr>faults := fs\<rparr>)"
  by (simp_all add: touches_only_def)

lemma move_to_dead_letter_box:
  assumes call: "move_to_dead_letter r s = (v, t)" and box: "box_ok body G A s"
    and r: "hm_get (pending_dir s) (message_id r) = Some (Inr r')"
  shows "touches_only (message_id r) s t \<and> box_ok body G A t"
proof -
  let ?k = "message_id r"
  obtain v1 s1 where c1: "file_call (\<lambda>s. (Inr (hm_get (dead_dir s) ?k \<noteq> None), s)) s = (v1, s1)" by fastforce
  show ?thesis
    using c1
  proof (cases rule: file_call_cases)
    case (1 fs)
    then show ?thesis using call c1 box by (auto simp: move_to_dead_letter_def io_defs)
  next
    case (2 fs)
    define found where "found = (hm_get (dead_dir s) ?k \<noteq> None)"
    have s1: "v1 = Inr found" "s1 = s\<lparr>faults := fs\<rparr>" using 2 by (simp_all add: found_def)
    have box1: "box_ok body G A s1" and r1: "hm_get (pending_dir s1) ?k = Some (Inr r')"
      using box r s1 by simp_all
    obtain v2 s2 where c2: "(if found then remove_pending ?k else rename_to_dead ?k) s1 = (v2, s2)"
      by fastforce
    have step: "touches_only ?k s1 s2 \<and> (case v2 of Inl _ \<Rightarrow> box_ok body G A s2
        | Inr _ \<Rightarrow> box_ok body G A (s2\<lparr>outbox_pending := outbox_pending s2 - 1\<rparr>))"
    proof (cases found)
      case True
      then have "hm_get (dead_dir s1) ?k \<noteq> None" using s1 by (simp add: found_def)
      with True c2 box1 r1 show ?thesis by (intro remove_pending_box) simp_all
    next
      case False
      with c2 box1 r1 show ?thesis by (intro rename_to_dead_box) simp_all
    qed
    have t: "(v, t) = (case v2 of Inl e \<Rightarrow> (Inl e, s2) | Inr _ \<Rightarrow> (Inr (),
        s2\<lparr>outbox_pending := outbox_pending s2 - 1, dead_lettered := dead_lettered s2 + 1\<rparr>))"
      using call c1 c2 s1 by (simp add: move_to_dead_letter_def io_bind_def split: sum.splits)
    show ?thesis using t step s1 by (cases v2) simp_all
  qed
qed

lemma write_temporary_result:
  assumes call: "file_call (\<lambda>s. if outbox_dir_exists s then (Inr (), s\<lparr>temporaries := r # temporaries s\<rparr>)
    else (Inl ''not found'', s)) s = (v, t)"
  shows "\<exists>fs ts. t = s\<lparr>faults := fs, temporaries := ts, pending_dir := pending_dir s\<rparr>"
proof -
  from call obtain fs where "t = s\<lparr>faults := fs\<rparr> \<or> t = s\<lparr>faults := fs, temporaries := r # temporaries s\<rparr>"
    by (cases rule: file_call_cases) (cases "outbox_dir_exists s"; fastforce)+
  then show ?thesis
  proof
    assume "t = s\<lparr>faults := fs\<rparr>"
    then have "t = s\<lparr>faults := fs, temporaries := temporaries s, pending_dir := pending_dir s\<rparr>" by simp
    then show ?thesis by blast
  next
    assume "t = s\<lparr>faults := fs, temporaries := r # temporaries s\<rparr>"
    then have "t = s\<lparr>faults := fs, temporaries := r # temporaries s, pending_dir := pending_dir s\<rparr>"
      by (simp only:) simp
    then show ?thesis by blast
  qed
qed

lemma rename_temporary_result:
  assumes call: "file_call (\<lambda>s. (Inr (), s\<lparr>temporaries := tl (temporaries s),
    pending_dir := hm_insert k f (pending_dir s)\<rparr>)) s = (v, t)"
  shows "\<exists>fs ts. t = s\<lparr>faults := fs, temporaries := ts,
    pending_dir := if v = Inr () then hm_insert k f (pending_dir s) else pending_dir s\<rparr>"
  using call
proof (cases rule: file_call_cases)
  case (1 fs)
  then have "t = s\<lparr>faults := fs, temporaries := temporaries s, pending_dir := pending_dir s\<rparr>"
    by (simp only:) simp
  moreover have "v \<noteq> Inr ()" using 1 by simp
  ultimately show ?thesis by (intro exI [of _ fs] exI [of _ "temporaries s"]) (simp only: if_False)
next
  case (2 fs)
  then have "v = Inr ()" and "t = s\<lparr>faults := fs, temporaries := tl (temporaries s),
      pending_dir := hm_insert k f (pending_dir s)\<rparr>"
    by simp_all
  then show ?thesis by (intro exI [of _ fs] exI [of _ "tl (temporaries s)"]) simp
qed

lemma write_record_result:
  assumes call: "write_record k r s = (v, t)"
  shows "\<exists>fs ts. t = s\<lparr>faults := fs, temporaries := ts,
    pending_dir := if v = Inr () then hm_insert k (Inr r) (pending_dir s) else pending_dir s\<rparr>"
  using call unfolding write_record_def
proof (cases rule: io_bind_cases)
  case (1 e)
  then show ?thesis using write_temporary_result [OF 1(1)] by auto
next
  case (2 x s')
  obtain fs ts where s': "s' = s\<lparr>faults := fs, temporaries := ts, pending_dir := pending_dir s\<rparr>"
    using write_temporary_result [OF 2(1)] by blast
  obtain fs' ts' where "t = s'\<lparr>faults := fs', temporaries := ts',
      pending_dir := if v = Inr () then hm_insert k (Inr r) (pending_dir s') else pending_dir s'\<rparr>"
    using rename_temporary_result [OF 2(2)] by blast
  then have "t = s\<lparr>faults := fs', temporaries := ts',
      pending_dir := if v = Inr () then hm_insert k (Inr r) (pending_dir s) else pending_dir s\<rparr>"
    by (simp add: s')
  then show ?thesis by blast
qed

lemma rewrite_record_box:
  assumes call: "write_record (message_id r) r s = (v, t)" and box: "box_ok body G A s"
    and old: "hm_get (pending_dir s) (message_id r) = Some f" and r: "content r = body (message_id r)"
  shows "touches_only (message_id r) s t \<and> box_ok body G A t
    \<and> (v = Inr () \<longrightarrow> hm_get (pending_dir t) (message_id r) = Some (Inr r))"
proof -
  obtain fs ts where "t = s\<lparr>faults := fs, temporaries := ts, pending_dir :=
      if v = Inr () then hm_insert (message_id r) (Inr r) (pending_dir s) else pending_dir s\<rparr>"
    using write_record_result [OF call] by blast
  then have t: "pending_dir t = (if v = Inr () then hm_insert (message_id r) (Inr r) (pending_dir s) else pending_dir s)"
    "dead_dir t = dead_dir s" "stream t = stream s" "url t = url s" "outbox_pending t = outbox_pending s"
    "max_attempts t = max_attempts s"
    by simp_all
  have "files_ok body (hm_insert (message_id r) (Inr r) (pending_dir s)) (dead_dir s)"
    using box unfolding box_ok_def by (intro files_write refl r) blast
  moreover have "hm_len (hm_insert (message_id r) (Inr r) (pending_dir s)) = hm_len (pending_dir s)"
    using old by (simp add: hm_len_insert)
  moreover have "touches_only (message_id r) s t" by (simp add: touches_only_def t)
  moreover have "\<forall>k \<in> A. accounted body k (hm_insert (message_id r) (Inr r) (pending_dir s)) (dead_dir s) (stream s)"
    using box by (simp add: box_ok_def accounted_write)
  moreover note box [unfolded box_ok_def]
  ultimately show ?thesis
    unfolding box_ok_def t by (cases "v = Inr ()") auto
qed

lemma box_body:
  "box_ok body G A s \<Longrightarrow> hm_get (pending_dir s) k = Some (Inr r) \<Longrightarrow> content r = body k"
  unfolding box_ok_def files_ok_def by blast

lemma finalize_delivery_box:
  assumes call: "finalize_delivery r outcome now s = (v, t)" and box: "box_ok body G A s"
    and r: "hm_get (pending_dir s) (message_id r) = Some (Inr r)"
    and ack: "outcome = Acknowledged \<Longrightarrow> content r \<in> set (stream s)"
  shows "touches_only (message_id r) s t \<and> box_ok body G A t"
proof (cases outcome)
  case Acknowledged
  have body: "body (message_id r) = content r" using box_body [OF box r] by simp
  obtain v1 s1 where c1: "remove_pending (message_id r) s = (v1, s1)" by fastforce
  have "touches_only (message_id r) s s1 \<and> (case v1 of Inl _ \<Rightarrow> box_ok body G A s1
     | Inr _ \<Rightarrow> box_ok body G A (s1\<lparr>outbox_pending := outbox_pending s1 - 1\<rparr>))"
    using remove_pending_box [OF c1 box r] ack Acknowledged body by simp
  then show ?thesis
    using call c1 Acknowledged by (cases v1) (auto simp: io_bind_def)
next
  case Unacknowledged
  define r' where "r' = retry_later now r"
  have id: "message_id r' = message_id r" "content r' = content r"
    by (simp_all add: r'_def retry_later_def content_def)
  have body: "content r' = body (message_id r')" using box_body [OF box r] id by simp
  obtain v1 s1 where c1: "write_record (message_id r') r' s = (v1, s1)" by fastforce
  note w = rewrite_record_box [OF c1 box _ body]
  show ?thesis
  proof (cases v1)
    case (Inl e)
    then show ?thesis using w r id call c1 Unacknowledged
      by (auto simp: io_bind_def Let_def r'_def [symmetric])
  next
    case (Inr u)
    have at: "hm_get (pending_dir s1) (message_id r') = Some (Inr r')" and "box_ok body G A s1"
      and ts: "touches_only (message_id r') s s1"
      using w r id Inr by auto
    show ?thesis
    proof (cases "max_attempts s1 \<le> attempts r'")
      case True
      then have "move_to_dead_letter r' s1 = (v, t)"
        using call c1 Inr Unacknowledged id by (simp add: io_bind_def Let_def r'_def [symmetric])
      from move_to_dead_letter_box [OF this \<open>box_ok body G A s1\<close> at] ts id show ?thesis
        by (auto intro: touches_only_trans)
    next
      case False
      then show ?thesis
        using call c1 Inr Unacknowledged id ts \<open>box_ok body G A s1\<close>
        by (auto simp: io_bind_def Let_def r'_def [symmetric])
    qed
  qed
qed

section \<open>Draining\<close>

lemma jetstream_publish_box:
  assumes "jetstream_publish r s = (outcome, t)" and "box_ok body G A s"
  shows "box_ok body G A t \<and> pending_dir t = pending_dir s
    \<and> (outcome = Acknowledged \<longrightarrow> content r \<in> set (stream t))"
  using assms
  by (auto simp: jetstream_publish_def box_ok_def accounted_stream split: list.splits reply.splits)

lemma deliver_box:
  "box_ok body G A s \<Longrightarrow> on_disk rs (pending_dir s) \<Longrightarrow> box_ok body G A (deliver now rs s)"
proof (induction rs arbitrary: s)
  case (Cons r rs)
  obtain outcome s1 where c1: "jetstream_publish r s = (outcome, s1)" by fastforce
  obtain v s2 where c2: "finalize_delivery r outcome now s1 = (v, s2)" by fastforce
  note b1 = jetstream_publish_box [OF c1 Cons.prems(1)]
  have r: "hm_get (pending_dir s1) (message_id r) = Some (Inr r)"
    using b1 Cons.prems(2) by (simp add: on_disk_def)
  have b2: "touches_only (message_id r) s1 s2 \<and> box_ok body G A s2"
    using finalize_delivery_box [OF c2, of body G A] b1 r by blast
  then have "on_disk rs (pending_dir s2)"
    using touches_only_on_disk [of r s1 s2 rs] b1 Cons.prems(2) by simp
  then show ?case
    using c1 c2 b2 Cons.IH by (auto simp: invalidate_client_def split: sum.splits)
qed simp

lemma on_disk_tail: "on_disk (r # rs) p \<Longrightarrow> on_disk rs p"
  by (simp add: on_disk_def)

definition triaged :: "outbox_record list \<Rightarrow> host \<Rightarrow> string + outbox_record list \<Rightarrow> host \<Rightarrow> bool" where
  "triaged rs s v t \<longleftrightarrow>
     (\<forall>k. k \<notin> message_id ` set rs \<longrightarrow> hm_get (pending_dir t) k = hm_get (pending_dir s) k)
     \<and> (\<forall>due. v = Inr due \<longrightarrow> set due \<subseteq> set rs \<and> on_disk due (pending_dir t))"

lemma triaged_after_dead_letter:
  assumes "touches_only (message_id r) s s1" and "triaged rs s1 v t"
  shows "triaged (r # rs) s v t"
  using assms by (auto simp: triaged_def touches_only_def)

lemma triaged_not_due: "triaged rs s v t \<Longrightarrow> triaged (r # rs) s v t"
  by (auto simp: triaged_def)

lemma triaged_due:
  assumes "triaged rs s (Inr due) t" and "on_disk (r # rs) (pending_dir s)"
  shows "triaged (r # rs) s (Inr (r # due)) t"
proof -
  have "message_id r \<notin> message_id ` set rs" and "hm_get (pending_dir s) (message_id r) = Some (Inr r)"
    using assms(2) by (simp_all add: on_disk_def)
  with assms(1) have "on_disk (r # due) (pending_dir t)"
    by (auto simp: triaged_def on_disk_def image_iff)
  with assms(1) show ?thesis by (auto simp: triaged_def)
qed

lemma triage_result:
  "triage limit now rs s = (v, t) \<Longrightarrow> box_ok body G A s \<Longrightarrow> on_disk rs (pending_dir s) \<Longrightarrow>
     box_ok body G A t \<and> triaged rs s v t"
proof (induction rs arbitrary: s v t)
  case Nil
  then show ?case by (auto simp: io_return_def on_disk_def triaged_def)
next
  case (Cons r rs)
  have r: "hm_get (pending_dir s) (message_id r) = Some (Inr r)" and rs: "on_disk rs (pending_dir s)"
    using Cons.prems(3) by (simp_all add: on_disk_def)
  consider "limit \<le> attempts r" | "\<not> limit \<le> attempts r" "next_attempt_at_ms r \<le> now"
    | "\<not> limit \<le> attempts r" "\<not> next_attempt_at_ms r \<le> now"
    by blast
  then show ?case
  proof cases
    case 1
    then have "io_bind (move_to_dead_letter r) (\<lambda>_. triage limit now rs) s = (v, t)"
      using Cons.prems(1) by simp
    then show ?thesis
    proof (cases rule: io_bind_cases)
      case (1 e)
      then show ?thesis using move_to_dead_letter_box [OF 1(1) Cons.prems(2) r]
        by (auto simp: triaged_def touches_only_def)
    next
      case (2 u s1)
      note m = move_to_dead_letter_box [OF 2(1) Cons.prems(2) r]
      then have "on_disk rs (pending_dir s1)" using touches_only_on_disk Cons.prems(3) by blast
      with Cons.IH [OF 2(2)] m show ?thesis using triaged_after_dead_letter by blast
    qed
  next
    case 2
    then have "io_bind (triage limit now rs) (\<lambda>due. io_return (r # due)) s = (v, t)"
      using Cons.prems(1) by simp
    then show ?thesis
    proof (cases rule: io_bind_cases)
      case (1 e)
      then show ?thesis using Cons.IH [OF 1(1) Cons.prems(2) rs] by (auto simp: triaged_def)
    next
      case (2 due s1)
      then show ?thesis using Cons.IH [OF 2(1) Cons.prems(2) rs] triaged_due Cons.prems(3)
        by (auto simp: io_return_def)
    qed
  next
    case 3
    then have "triage limit now rs s = (v, t)" using Cons.prems(1) by simp
    from Cons.IH [OF this Cons.prems(2) rs] show ?thesis using triaged_not_due by blast
  qed
qed

lemma triage_box:
  assumes "triage limit now rs s = (v, t)" and "box_ok body G A s" and "on_disk rs (pending_dir s)"
  shows "box_ok body G A t
    \<and> (\<forall>k. k \<notin> message_id ` set rs \<longrightarrow> hm_get (pending_dir t) k = hm_get (pending_dir s) k)
    \<and> (\<forall>due. v = Inr due \<longrightarrow> set due \<subseteq> set rs \<and> on_disk due (pending_dir t))"
  using triage_result [OF assms] by (simp add: triaged_def)

lemma client_box: "client s = (b, t) \<Longrightarrow> box_ok body G A t = box_ok body G A s \<and> pending_dir t = pending_dir s \<and> url t = url s"
  by (auto simp: client_def box_ok_def Let_def split: option.splits if_splits list.splits bool.splits)

lemma pending_records_box:
  assumes call: "pending_records s = (v, t)" and box: "box_ok body G A s"
  shows "box_ok body G A t \<and> pending_dir t = pending_dir s \<and> url t = url s
    \<and> (\<forall>rs. v = Inr rs \<longrightarrow> on_disk rs (pending_dir t) \<and> length rs = hm_len (pending_dir t))"
proof -
  have res: "only_faults s t \<and> (\<forall>rs. v = Inr rs \<longrightarrow>
      (\<exists>rs'. map snd (pending_dir s) = map Inr rs' \<and> rs = sort_key record_order rs'))"
    by (rule read_records_result) (use call in \<open>simp_all add: pending_records_def\<close>)
  then have dir: "pending_dir t = pending_dir s" "url t = url s" by (auto simp: only_faults_def)
  have "on_disk rs (pending_dir s) \<and> length rs = hm_len (pending_dir s)" if v: "v = Inr rs" for rs
  proof -
    from res v obtain rs' where rs': "map snd (pending_dir s) = map Inr rs'" "rs = sort_key record_order rs'"
      by blast
    have "on_disk rs' (pending_dir s)"
      using box rs'(1) unfolding box_ok_def by (blast intro: parsed_on_disk)
    then have "on_disk rs (pending_dir s)" by (rule on_disk_perm [rotated]) (simp add: rs'(2))
    moreover have "length rs = hm_len (pending_dir s)"
      using arg_cong [OF rs'(1), of length] rs'(2) by (simp add: hm_len_def)
    ultimately show ?thesis ..
  qed
  then show ?thesis using box_only_faults [OF box] res dir by simp
qed

lemma drain_locked_box: "box_ok body G A s \<Longrightarrow> box_ok body G A (drain_locked s)"
proof -
  assume box: "box_ok body G A s"
  obtain v1 s1 where c1: "pending_records s = (v1, s1)" by fastforce
  note p1 = pending_records_box [OF c1 box]
  show ?thesis
  proof (cases v1)
    case (Inl e)
    then show ?thesis using c1 p1 by (simp add: drain_locked_def)
  next
    case (Inr rs)
    obtain v2 s2 where c2: "triage (max_attempts s1) (wall_ms s1) rs s1 = (v2, s2)" by fastforce
    have p2: "box_ok body G A s2 \<and> (\<forall>due. v2 = Inr due \<longrightarrow> on_disk due (pending_dir s2))"
      using triage_box [OF c2] p1 Inr by blast
    show ?thesis
    proof (cases v2)
      case (Inl e)
      then show ?thesis using c1 c2 p2 \<open>v1 = Inr rs\<close> by (simp add: drain_locked_def)
    next
      case (Inr due)
      obtain b s3 where c3: "client s2 = (b, s3)" by fastforce
      have p3: "box_ok body G A s3" "on_disk due (pending_dir s3)"
        using client_box [OF c3] p2 Inr by simp_all
      have "drain_locked s = (if due = [] then s2
          else if b then deliver (wall_ms s3) due s3
          else s3\<lparr>outbox_deferred := outbox_deferred s3 + 1\<rparr>)"
        using c1 c2 c3 \<open>v1 = Inr rs\<close> Inr by (cases b) (simp_all add: drain_locked_def)
      then show ?thesis using p2 p3 deliver_box [OF p3] by simp
    qed
  qed
qed

lemma drain_outbox_box: "box_ok body G A s \<Longrightarrow> box_ok body G A (drain_outbox s)"
  by (simp add: drain_outbox_def drain_locked_box)

section \<open>Accepting events\<close>

lemma prepare_directories_result:
  "prepare_directories s = (v, t) \<Longrightarrow> \<exists>fs b c. t = s\<lparr>faults := fs, outbox_dir_exists := b, dead_dir_exists := c\<rparr>"
proof -
  assume call: "prepare_directories s = (v, t)"
  let ?mk = "\<lambda>s. (Inr (), s\<lparr>outbox_dir_exists := True\<rparr>)" and ?mk' = "\<lambda>s. (Inr (), s\<lparr>dead_dir_exists := True\<rparr>)"
  obtain v1 s1 where c1: "file_call ?mk s = (v1, s1)" by fastforce
  have "\<exists>fs b. s1 = s\<lparr>faults := fs, outbox_dir_exists := b, dead_dir_exists := dead_dir_exists s\<rparr>"
    using c1
  proof (cases rule: file_call_cases)
    case (1 fs)
    then have "s1 = s\<lparr>faults := fs, outbox_dir_exists := outbox_dir_exists s, dead_dir_exists := dead_dir_exists s\<rparr>"
      by simp
    then show ?thesis by blast
  next
    case (2 fs)
    then have "s1 = s\<lparr>faults := fs, outbox_dir_exists := True\<rparr>" by simp
    then have "s1 = s\<lparr>faults := fs, outbox_dir_exists := True, dead_dir_exists := dead_dir_exists s\<rparr>"
      by (simp only:) simp
    then show ?thesis by blast
  qed
  then obtain fs b where s1: "s1 = s\<lparr>faults := fs, outbox_dir_exists := b, dead_dir_exists := dead_dir_exists s\<rparr>" by blast
  show ?thesis
  proof (cases v1)
    case (Inl e)
    then have "t = s1" using call c1 by (simp add: prepare_directories_def io_bind_def)
    then show ?thesis using s1 by blast
  next
    case (Inr u)
    then have c2: "file_call ?mk' s1 = (v, t)" using call c1 by (simp add: prepare_directories_def io_bind_def)
    then show ?thesis
    proof (cases rule: file_call_cases)
      case (1 fs')
      then have "t = s\<lparr>faults := fs', outbox_dir_exists := b, dead_dir_exists := dead_dir_exists s\<rparr>" using s1 by simp
      then show ?thesis by blast
    next
      case (2 fs')
      then have "t = s1\<lparr>faults := fs', dead_dir_exists := True\<rparr>" by simp
      then have "t = s\<lparr>faults := fs', outbox_dir_exists := b, dead_dir_exists := True\<rparr>"
        using s1 by (intro host.equality) simp_all
      then show ?thesis by blast
    qed
  qed
qed

lemma insert_record_box:
  assumes box: "box_ok body G A s" and r: "content r = body (message_id r)"
    and none: "hm_get (pending_dir s) (message_id r) = None"
    and t: "pending_dir t = hm_insert (message_id r) (Inr r) (pending_dir s)" "dead_dir t = dead_dir s"
      "stream t = stream s" "url t = url s" "outbox_pending t = outbox_pending s + 1"
  shows "box_ok body G A t"
proof -
  have "files_ok body (hm_insert (message_id r) (Inr r) (pending_dir s)) (dead_dir s)"
    using box unfolding box_ok_def by (intro files_write refl r) blast
  moreover have "\<forall>k \<in> A. accounted body k (hm_insert (message_id r) (Inr r) (pending_dir s)) (dead_dir s) (stream s)"
    using box by (simp add: box_ok_def accounted_write)
  moreover note box [unfolded box_ok_def]
  ultimately show ?thesis by (auto simp: box_ok_def t hm_len_insert none)
qed

lemma persist_record_box:
  assumes call: "persist_record r s = (v, t)" and box: "box_ok body G A s"
    and r: "content r = body (message_id r)"
  shows "box_ok body G A t
    \<and> (\<forall>b. v = Inr b \<longrightarrow> hm_get (pending_dir t) (message_id r) = Some (Inr r) \<and> url t = url s)"
proof -
  let ?k = "message_id r"
  have read: "box_ok body G A s2 \<and> pending_dir s2 = pending_dir s1 \<and> url s2 = url s1
      \<and> (\<forall>x. v2 = Inr x \<longrightarrow> x = hm_get (pending_dir s1) ?k)"
    if "file_call (\<lambda>s. (Inr (hm_get (pending_dir s) ?k), s)) s1 = (v2, s2)" "box_ok body G A s1" for v2 s1 s2
    using that by (auto elim!: file_call_cases)
  have prepared: "box_ok body G A s1 \<and> url s1 = url s" if "prepare_directories s = (x, s1)" for x s1
    using prepare_directories_result [OF that] box by (auto simp: box_ok_def)
  have written: ?thesis if call: "io_bind (write_record ?k r)
        (\<lambda>_ s. (Inr True, s\<lparr>outbox_pending := outbox_pending s + 1\<rparr>)) s2 = (v, t)"
      and s2: "box_ok body G A s2" "url s2 = url s" "hm_get (pending_dir s2) ?k = None" for s2
    using call
  proof (cases rule: io_bind_cases)
    case (1 e)
    then show ?thesis using write_record_result [OF 1(1)] s2 by (auto simp: box_ok_def)
  next
    case (2 x s3)
    obtain fs ts where "s3 = s2\<lparr>faults := fs, temporaries := ts, pending_dir := hm_insert ?k (Inr r) (pending_dir s2)\<rparr>"
      using write_record_result [OF 2(1)] by auto
    with 2(2) have t: "v = Inr True" "t = s2\<lparr>faults := fs, temporaries := ts,
        pending_dir := hm_insert ?k (Inr r) (pending_dir s2), outbox_pending := outbox_pending s2 + 1\<rparr>"
      by simp_all
    then have "box_ok body G A t" by (intro insert_record_box [OF s2(1) r s2(3)]) simp_all
    then show ?thesis using t s2 by simp
  qed
  from call [unfolded persist_record_def] show ?thesis
    apply (rule io_bind_cases)
    subgoal using prepared by auto
    apply (erule io_bind_cases)
    subgoal using prepared read by blast
    subgoal for u s1 found s2
      using prepared [of "Inr u" s1] read [of s1 "Inr found" s2] written [of s2]
      by (auto simp: io_defs split: option.splits sum.splits if_splits)
    done
qed

definition legal_event ::
  "('tenant \<Rightarrow> string \<Rightarrow> string) \<Rightarrow> (uuid \<Rightarrow> content) \<Rightarrow> string \<Rightarrow> 'tenant envelope \<Rightarrow> bool" where
  "legal_event dedup body subj e \<longleftrightarrow>
     (\<forall>bytes. env_encoded e = Inr bytes \<longrightarrow>
        body (env_message_id e) = (subj, dedup (env_tenant_id e) (env_idempotency_key e), bytes))"

lemma publish_event_box:
  assumes box: "box_ok body G A s" and legal: "legal_event dedup body subj e"
  shows "box_ok body G A (publish_event dedup subj e s)"
proof (cases "url s = None \<or> (\<exists>x. env_encoded e = Inl x)")
  case True
  then show ?thesis using box by (auto simp: publish_event_def)
next
  case False
  then obtain bytes w where bytes: "env_encoded e = Inr bytes" and u: "url s = Some w" by (cases "env_encoded e") auto
  let ?r = "event_record dedup subj e bytes"
  have r: "content ?r = body (message_id ?r)"
    using legal bytes by (simp add: legal_event_def event_record_def content_def)
  obtain v s1 where c1: "persist_record ?r s = (v, s1)" by fastforce
  have "publish_event dedup subj e s = (case v of
      Inl _ \<Rightarrow> s1\<lparr>outbox_persist_failures := outbox_persist_failures s1 + 1\<rparr> | Inr _ \<Rightarrow> drain_locked s1)"
    unfolding publish_event_def using bytes u c1 by (cases v) simp_all
  then show ?thesis
    using persist_record_box [OF c1 box r] by (cases v) (simp_all add: drain_locked_box)
qed

lemma publish_live_box: "box_ok body G A s \<Longrightarrow> box_ok body G A (publish_live subj bytes s)"
proof -
  assume box: "box_ok body G A s"
  obtain b t where c: "client s = (b, t)" by (cases "client s")
  have t: "box_ok body G A t" using client_box [OF c] box by simp
  show ?thesis
    using t by (cases b) (simp_all add: publish_live_def c invalidate_client_def)
qed

section \<open>Restarts and runs\<close>

lemma box_weaken: "box_ok body G A s \<Longrightarrow> box_ok body G' A s" if "G' \<Longrightarrow> G"
  using that by (auto simp: box_ok_def)

lemma dead_letter_records_frame: "dead_letter_records s = (v, t) \<Longrightarrow> only_faults s t"
  using read_records_result [of dead_dir_exists dead_dir s v t] by (simp add: dead_letter_records_def)

lemma pending_records_frame: "pending_records s = (v, t) \<Longrightarrow> only_faults s t"
  using read_records_result [of outbox_dir_exists pending_dir s v t] by (simp add: pending_records_def)

lemma start_box:
  assumes box: "box_ok body False A s" and call: "start s = (v, t)"
  shows "if v = Inr () then box_ok body True A t else box_ok body False A t \<and> up t = up s"
proof (cases "url s")
  case None
  then show ?thesis using box call by (simp add: start_def box_ok_def)
next
  case (Some w)
  let ?same = "\<lambda>s'. box_ok body False A s' \<and> up s' = up s"
  have frame: "?same b" if "?same a" "only_faults a b" for a b
    using that box_only_faults by (auto simp: only_faults_def)
  have run: "io_bind prepare_directories (\<lambda>_. io_bind pending_records (\<lambda>waiting. io_bind dead_letter_records
      (\<lambda>dead s. (Inr (), drain_outbox (s\<lparr>outbox_pending := of_nat (length waiting),
        dead_lettered := of_nat (length dead)\<rparr>))))) s = (v, t)"
    using call Some by (simp add: start_def)
  have prepared: "?same s1" if "prepare_directories s = (x, s1)" for x s1
    using prepare_directories_result [OF that] box by auto
  from run show ?thesis
  proof (cases rule: io_bind_cases)
    case (1 e)
    then show ?thesis using prepared by simp
  next
    case (2 u s1)
    note s1 = prepared [OF 2(1)]
    from 2(2) show ?thesis
    proof (cases rule: io_bind_cases)
      case (1 e)
      then show ?thesis using frame [OF s1 pending_records_frame] by simp
    next
      case (2 waiting s2)
      note s2 = frame [OF s1 pending_records_frame [OF 2(1)]]
        and waiting = pending_records_box [OF 2(1) conjunct1 [OF s1]]
      from 2(2) show ?thesis
      proof (cases rule: io_bind_cases)
        case (1 e)
        then show ?thesis using frame [OF s2 dead_letter_records_frame] by simp
      next
        case (2 dead s3)
        note o3 = dead_letter_records_frame [OF 2(1)]
        have "hm_len (pending_dir s3) = length waiting" using waiting o3 by (auto simp: only_faults_def)
        then show ?thesis using 2(2) frame [OF s2 o3] drain_outbox_box by (auto simp: box_ok_def)
      qed
    qed
  qed
qed

definition outbox_ok :: "(uuid \<Rightarrow> content) \<Rightarrow> host \<Rightarrow> bool" where
  "outbox_ok body s \<longleftrightarrow> box_ok body (up s) {} s"

definition covered_ids :: "(uuid \<Rightarrow> content) \<Rightarrow> host \<Rightarrow> uuid set" where
  "covered_ids body s = {k. accounted body k (pending_dir s) (dead_dir s) (stream s)}"

fun legal_op :: "('tenant \<Rightarrow> string \<Rightarrow> string) \<Rightarrow> (uuid \<Rightarrow> content) \<Rightarrow> 'tenant host_op \<Rightarrow> bool" where
  "legal_op dedup body (Publish_Event subj e) = legal_event dedup body subj e"
| "legal_op dedup body _ = True"

lemma box_split: "box_ok body G A s \<longleftrightarrow> box_ok body G {} s \<and> A \<subseteq> covered_ids body s"
  by (auto simp: box_ok_def covered_ids_def)

lemma boot_box:
  assumes "box_ok body G A s"
  shows "box_ok body (up (boot u limit s)) A (boot u limit s)"
proof -
  obtain v t where c: "start (with_outbox u limit s) = (v, t)" by fastforce
  have b: "box_ok body False A (with_outbox u limit s)"
    using assms by (simp add: box_ok_def with_outbox_def)
  have up: "up (with_outbox u limit s) = False" by (simp add: with_outbox_def)
  show ?thesis
    using start_box [OF b c] up c by (cases v) (simp_all add: boot_def)
qed

lemma host_step_box:
  assumes box: "box_ok body (up s) A s" and legal: "legal_op dedup body op"
  shows "box_ok body (up (host_step dedup s op)) A (host_step dedup s op)"
proof (cases op)
  case (Restart u limit)
  then show ?thesis using boot_box [OF box] by simp
next
  case (Publish_Event subj e)
  show ?thesis
  proof (cases "up s")
    case True
    then have "box_ok body True A (publish_event dedup subj e s)"
      using publish_event_box [OF box] legal Publish_Event by simp
    then show ?thesis using True Publish_Event by (auto intro: box_weaken [of _ True])
  qed (use box Publish_Event in simp)
next
  case (Publish_Live subj bytes)
  show ?thesis
  proof (cases "up s")
    case True
    then have "box_ok body True A (publish_live subj bytes s)" using publish_live_box box by simp
    then show ?thesis using True Publish_Live by (auto intro: box_weaken [of _ True])
  qed (use box Publish_Live in simp)
next
  case Timer
  show ?thesis
  proof (cases "up s")
    case True
    then have "box_ok body True A (drain_outbox s)" using drain_outbox_box box by simp
    then show ?thesis using True Timer by (auto intro: box_weaken [of _ True])
  qed (use box Timer in simp)
qed (use box in \<open>simp_all add: box_ok_def\<close>)

interpretation outbox: retention "host_step dedup" "outbox_ok body" "legal_op dedup body" "covered_ids body"
  for dedup body
proof unfold_locales
  fix s op
  assume ok: "outbox_ok body s" and legal: "legal_op dedup body op"
  show "outbox_ok body (host_step dedup s op)"
    using host_step_box [OF _ legal] ok by (simp add: outbox_ok_def)
  have "box_ok body (up s) (covered_ids body s) s"
    using ok box_split [of body "up s" "covered_ids body s" s] by (simp add: outbox_ok_def)
  from host_step_box [OF this legal] show "covered_ids body s \<subseteq> covered_ids body (host_step dedup s op)"
    using box_split by blast
qed

lemma accounted_where:
  "outbox_ok body s \<Longrightarrow> k \<in> covered_ids body s \<Longrightarrow>
     (\<exists>r. hm_get (pending_dir s) k = Some (Inr r) \<and> content r = body k)
     \<or> (\<exists>r. hm_get (dead_dir s) k = Some (Inr r) \<and> content r = body k) \<or> body k \<in> set (stream s)"
  unfolding outbox_ok_def box_ok_def files_ok_def covered_ids_def accounted_def by blast

text \<open>C2: once \<open>publish_event\<close> has written an event to the outbox, the event is never lost: whatever
  follows (failing file operations, lost acknowledgements, broker outages, restarts, other
  events), its subject, deduplication id and payload are in the outbox, or in the dead letters,
  or the broker has stored them. Ids are fresh: two envelopes of one id are the same envelope.\<close>

theorem event_never_lost:
  assumes "outbox_ok body s" and "up s" and "url s \<noteq> None"
    and "legal_event dedup body subj e" and "env_encoded e = Inr bytes"
    and "fst (persist_record (event_record dedup subj e bytes) s) = Inr fresh"
    and "list_all (legal_op dedup body) ops"
  shows "let t = foldl (host_step dedup) s (Publish_Event subj e # ops);
             k = env_message_id e;
             c = (subj, dedup (env_tenant_id e) (env_idempotency_key e), bytes)
         in (\<exists>r. hm_get (pending_dir t) k = Some (Inr r) \<and> content r = c)
          \<or> (\<exists>r. hm_get (dead_dir t) k = Some (Inr r) \<and> content r = c) \<or> c \<in> set (stream t)"
proof -
  let ?r = "event_record dedup subj e bytes" and ?k = "env_message_id e"
  have body: "body ?k = (subj, dedup (env_tenant_id e) (env_idempotency_key e), bytes)"
    using assms(4,5) by (simp add: legal_event_def)
  then have r: "content ?r = body (message_id ?r)" by (simp add: event_record_def content_def)
  obtain s1 where c1: "persist_record ?r s = (Inr fresh, s1)"
    using assms(6) by (metis prod.collapse)
  have b1: "box_ok body True {} s1" "hm_get (pending_dir s1) ?k = Some (Inr ?r)"
    using persist_record_box [OF c1, of body True "{}"] assms(1,2) r by (simp_all add: outbox_ok_def event_record_def)
  then have "box_ok body True {?k} s1"
    by (auto simp: box_ok_def accounted_def)
  then have b2: "box_ok body True {?k} (drain_locked s1)" by (rule drain_locked_box)
  have step: "host_step dedup s (Publish_Event subj e) = drain_locked s1"
    using assms(2,3,5) c1 by (auto simp: publish_event_def)
  have "outbox_ok body (drain_locked s1)" "?k \<in> covered_ids body (drain_locked s1)"
    using b2 box_weaken [of _ True] box_split [of body True "{?k}"] by (auto simp: outbox_ok_def)
  with outbox.retained_in [OF this(2,1) assms(7)] outbox.legal_run_inv [OF _ assms(7)]
  have "outbox_ok body (foldl (host_step dedup) s (Publish_Event subj e # ops))"
    "?k \<in> covered_ids body (foldl (host_step dedup) s (Publish_Event subj e # ops))"
    by (simp_all only: foldl_Cons step)
  from accounted_where [OF this] show ?thesis by (simp only: Let_def body)
qed

definition sample_event :: "string envelope" where
  "sample_event = \<lparr>env_message_id = 7, env_tenant_id = ''1'', env_idempotency_key = ''k'',
     env_created_at_ms = 1000, env_encoded = Inr [1, 2]\<rparr>"

definition sample_dedup :: "string \<Rightarrow> string \<Rightarrow> string" where
  "sample_dedup tenant key = tenant @ CHR '':'' # key"

definition sample_host :: host where
  "sample_host =
     \<lparr> url = Some ''nats://localhost'', max_attempts = 2, connected = False, last_attempt = None,
       connect_attempts = 0, connect_failures = 0, jetstream_published = 0, core_published = 0,
       publish_failures = 0, serialization_failures = 0, outbox_persist_failures = 0,
       outbox_pending = 0, outbox_deferred = 0, dead_lettered = 0, unconfigured_skips = 0,
       unavailable_drops = 0, up = True, dial_log = [], outbox_dir_exists = True, dead_dir_exists = True,
       pending_dir = [], dead_dir = [], temporaries = [], stream = [], environ = (\<lambda>_. None),
       monotonic_ms = 0, wall_ms = 2000, faults = [], dials = [True, True], replies = [Lost, Ack_Lost],
       sends = [] \<rparr>"

definition sample_body :: "uuid \<Rightarrow> content" where
  "sample_body k = (''s'', ''1:k'', [1, 2])"

definition sample_ops :: "string host_op list" where
  "sample_ops = [Time_Passes 6000, Timer, World [True] [] [] [], Timer, Restart (Some ''nats://localhost'') 2]"

lemma sample_persisted:
  "fst (persist_record (event_record sample_dedup ''s'' sample_event [1, 2]) sample_host) = Inr True"
  by (simp add: persist_record_def prepare_directories_def write_record_def io_defs file_call_def
      event_record_def sample_host_def sample_event_def)

theorem event_never_lost_witness:
  "let t = foldl (host_step sample_dedup) sample_host (Publish_Event ''s'' sample_event # sample_ops);
       c = (''s'', ''1:k'', [1, 2])
   in (\<exists>r. hm_get (pending_dir t) 7 = Some (Inr r) \<and> content r = c)
    \<or> (\<exists>r. hm_get (dead_dir t) 7 = Some (Inr r) \<and> content r = c) \<or> c \<in> set (stream t)"
proof -
  have "outbox_ok sample_body sample_host"
    by (simp add: outbox_ok_def box_ok_def files_ok_def sample_host_def hm_len_def)
  moreover have "legal_event sample_dedup sample_body ''s'' sample_event"
    by (simp add: legal_event_def sample_event_def sample_body_def sample_dedup_def)
  moreover have "list_all (legal_op sample_dedup sample_body) sample_ops"
    by (simp add: sample_ops_def)
  moreover have "sample_dedup ''1'' ''k'' = ''1:k''" by (simp add: sample_dedup_def)
  ultimately show ?thesis
    using event_never_lost [OF _ _ _ _ _ sample_persisted, of sample_body sample_ops]
    by (simp add: sample_host_def sample_event_def)
qed

text \<open>C39: while a configured worker is up, the gauge \<open>outbox_pending\<close> is the number of files in the
  outbox, after any calls, failures and restarts.\<close>

theorem pending_gauge_counts_files:
  assumes "outbox_ok body s" and "list_all (legal_op dedup body) ops"
  shows "let t = foldl (host_step dedup) s ops in
    up t \<and> url t \<noteq> None \<longrightarrow> snap_outbox_pending (snapshot t) = of_nat (hm_len (pending_dir t))"
  using outbox.legal_run_inv [OF assms] by (simp add: Let_def outbox_ok_def box_ok_def snapshot_def)

theorem pending_gauge_counts_files_witness:
  "let t = foldl (host_step sample_dedup) sample_host (Publish_Event ''s'' sample_event # sample_ops) in
    up t \<and> url t \<noteq> None \<longrightarrow> snap_outbox_pending (snapshot t) = of_nat (hm_len (pending_dir t))"
proof -
  have "outbox_ok sample_body sample_host"
    by (simp add: outbox_ok_def box_ok_def files_ok_def sample_host_def hm_len_def)
  moreover have "list_all (legal_op sample_dedup sample_body) (Publish_Event ''s'' sample_event # sample_ops)"
    by (simp add: sample_ops_def legal_event_def sample_event_def sample_body_def sample_dedup_def)
  ultimately show ?thesis by (rule pending_gauge_counts_files)
qed

end
