(* ===== verification/Outbox_Delivery.thy ===== *)
theory Outbox_Delivery
  imports Outbox_Durability
begin

text \<open>
  Progress and pacing of the NATS publisher (src/src/nats.rs): a drain with a working broker
  empties the outbox in order, and connection attempts are at least five seconds apart.
\<close>

section \<open>A drain without failures\<close>

lemma file_call_ok [simp]: "faults s = [] \<Longrightarrow> file_call f s = f s"
  by (simp add: file_call_def)

lemma read_entries_ok:
  "faults s = [] \<Longrightarrow> map snd es = map Inr rs \<Longrightarrow> read_entries es s = (Inr rs, s)"
proof (induction es arbitrary: rs)
  case (Cons e es)
  then obtain r rs' where "rs = r # rs'" "snd e = Inr r" "map snd es = map Inr rs'" by (cases rs) auto
  with Cons show ?case by (cases e) (simp add: io_defs)
qed (simp add: io_defs)

lemma pending_records_ok:
  "faults s = [] \<Longrightarrow> outbox_dir_exists s \<Longrightarrow> map snd (pending_dir s) = map Inr rs \<Longrightarrow>
     pending_records s = (Inr (sort_key record_order rs), s)"
  by (simp add: pending_records_def read_records_def io_defs read_entries_ok)

lemma triage_all_due:
  "\<forall>r \<in> set rs. attempts r < limit \<and> next_attempt_at_ms r \<le> now \<Longrightarrow> triage limit now rs s = (Inr rs, s)"
  by (induction rs) (auto simp: io_defs)

definition delivered :: "outbox_record list \<Rightarrow> reply list \<Rightarrow> host \<Rightarrow> host" where
  "delivered rs rest s = s\<lparr>replies := rest, stream := stream s @ map content rs,
     pending_dir := fold (\<lambda>r. hm_remove (message_id r)) rs (pending_dir s),
     outbox_pending := outbox_pending s - of_nat (length rs),
     jetstream_published := jetstream_published s + of_nat (length rs)\<rparr>"

lemma on_disk_remove: "on_disk (r # rs) p \<Longrightarrow> on_disk rs (hm_remove (message_id r) p)"
  by (auto simp: on_disk_def image_iff)

lemma deliver_ok:
  "faults s = [] \<Longrightarrow> on_disk rs (pending_dir s) \<Longrightarrow> replies s = replicate (length rs) Stored @ rest \<Longrightarrow>
     deliver now rs s = delivered rs rest s"
proof (induction rs arbitrary: s)
  case (Cons r rs)
  let ?s1 = "s\<lparr>replies := replicate (length rs) Stored @ rest, stream := stream s @ [content r],
    pending_dir := hm_remove (message_id r) (pending_dir s), outbox_pending := outbox_pending s - 1,
    jetstream_published := jetstream_published s + 1\<rparr>"
  have pub: "jetstream_publish r s = (Acknowledged,
      s\<lparr>replies := replicate (length rs) Stored @ rest, stream := stream s @ [content r]\<rparr>)"
    using Cons.prems(3) by (simp add: jetstream_publish_def)
  have fin: "finalize_delivery r Acknowledged now
      (s\<lparr>replies := replicate (length rs) Stored @ rest, stream := stream s @ [content r]\<rparr>) = (Inr (), ?s1)"
    using Cons.prems by (simp add: io_bind_def remove_pending_def on_disk_def)
  have "deliver now (r # rs) s = deliver now rs ?s1"
    by (simp only: deliver.simps pub prod.case fin sum.case delivery_outcome.distinct if_False)
  also have "\<dots> = delivered rs rest ?s1"
    by (rule Cons.IH) (use Cons.prems on_disk_remove in simp_all)
  also have "\<dots> = delivered (r # rs) rest s"
    by (simp add: delivered_def)
  finally show ?case .
qed (simp add: delivered_def)

lemma fold_remove_get:
  "hm_get (fold (\<lambda>r. hm_remove (message_id r)) rs p) k = (if k \<in> message_id ` set rs then None else hm_get p k)"
  by (induction rs arbitrary: p) auto

lemma hm_get_all_None: "(\<And>k. hm_get m k = None) \<Longrightarrow> m = []"
proof (cases m)
  case (Cons e m')
  assume "\<And>k. hm_get m k = None"
  then have "hm_get m (fst e) = None" .
  then show ?thesis using Cons by (simp add: hm_get_def)
qed

lemma remove_all:
  assumes "files_ok body p d" and "map snd p = map Inr rs"
  shows "fold (\<lambda>r. hm_remove (message_id r)) (sort_key record_order rs) p = []"
proof (rule hm_get_all_None)
  fix k
  have disk: "on_disk rs p" by (rule parsed_on_disk [OF assms])
  have "hm_get p k \<noteq> None \<Longrightarrow> k \<in> message_id ` set rs"
  proof -
    assume "hm_get p k \<noteq> None"
    then obtain f where f: "hm_get p k = Some f" by blast
    then have "(k, f) \<in> set p" by (auto simp: hm_get_def dest: map_of_SomeD)
    then have "f \<in> set (map snd p)" by force
    then obtain r where "f = Inr r" "r \<in> set rs" unfolding assms(2) by auto
    moreover have "message_id r = k"
      using assms(1) f \<open>f = Inr r\<close> unfolding files_ok_def by blast
    ultimately show ?thesis by force
  qed
  then show "hm_get (fold (\<lambda>r. hm_remove (message_id r)) (sort_key record_order rs) p) k = None"
    unfolding fold_remove_get set_sort by (cases "hm_get p k = None") simp_all
qed


definition sample_record :: "uuid \<Rightarrow> int \<Rightarrow> outbox_record" where
  "sample_record k at = \<lparr>message_id = k, subject = ''s'', dedup_id = ''1:k'', payload = [1, 2],
     attempts = 0, created_at_ms = at, next_attempt_at_ms = 0\<rparr>"

lemma sample_record_attempts [simp]:
  "attempts (sample_record k at) = 0" "next_attempt_at_ms (sample_record k at) = 0"
  by (simp_all add: sample_record_def)


section \<open>The connection gate\<close>

definition dial_ok :: "host \<Rightarrow> bool" where
  "dial_ok s \<longleftrightarrow>
     sorted_wrt (\<lambda>a b. fst a + connect_retry_ms \<le> fst b) (dial_log s)
     \<and> (\<forall>d \<in> set (dial_log s). fst d \<le> monotonic_ms s
          \<and> (\<exists>u. url s = Some u \<and> snd d = connect_options (environ s) u))
     \<and> last_attempt s = (if dial_log s = [] then None else Some (fst (last (dial_log s))))
     \<and> connect_attempts s = of_nat (length (dial_log s))"

text \<open>The fields the gate rests on, and the calls that leave them alone.\<close>

definition dial_view :: "host \<Rightarrow> string option \<times> nat option \<times> u64 \<times> (nat \<times> bool \<times> string option) list
    \<times> (string \<Rightarrow> string option) \<times> nat" where
  "dial_view s = (url s, last_attempt s, connect_attempts s, dial_log s, environ s, monotonic_ms s)"

definition io_frame :: "(host, 'a) io \<Rightarrow> bool" where
  "io_frame m \<longleftrightarrow> (\<forall>s. dial_view (snd (m s)) = dial_view s)"

lemma dial_ok_view: "dial_view t = dial_view s \<Longrightarrow> dial_ok t = dial_ok s"
  by (simp add: dial_view_def dial_ok_def)

lemma dial_counters [simp]:
  "dial_ok (s\<lparr>outbox_persist_failures := x\<rparr>) = dial_ok s"
  "dial_ok (s\<lparr>outbox_deferred := x\<rparr>) = dial_ok s"
  "dial_ok (s\<lparr>serialization_failures := x\<rparr>) = dial_ok s"
  "dial_ok (s\<lparr>unconfigured_skips := x\<rparr>) = dial_ok s"
  "dial_ok (s\<lparr>outbox_pending := x, dead_lettered := y\<rparr>) = dial_ok s"
  "dial_ok (s\<lparr>up := b\<rparr>) = dial_ok s"
  "dial_ok (s\<lparr>unavailable_drops := x\<rparr>) = dial_ok s"
  "dial_ok (s\<lparr>sends := ls, core_published := x\<rparr>) = dial_ok s"
  "dial_ok (s\<lparr>sends := ls, publish_failures := x, unavailable_drops := y, connected := b\<rparr>) = dial_ok s"
  "dial_ok (s\<lparr>faults := fs, dials := ds, replies := rs, sends := ls\<rparr>) = dial_ok s"
  "dial_ok (s\<lparr>wall_ms := w\<rparr>) = dial_ok s"
  by (simp_all add: dial_ok_def)

lemma io_frameI: "(\<And>s. dial_view (snd (m s)) = dial_view s) \<Longrightarrow> io_frame m"
  by (simp add: io_frame_def)

lemma io_frameD: "io_frame m \<Longrightarrow> m s = (v, t) \<Longrightarrow> dial_view t = dial_view s"
  by (metis io_frame_def snd_conv)

lemma io_frame_bind: "io_frame m \<Longrightarrow> (\<And>x. io_frame (f x)) \<Longrightarrow> io_frame (io_bind m f)"
proof (rule io_frameI)
  fix s
  assume m: "io_frame m" and f: "\<And>x. io_frame (f x)"
  obtain v t where c: "m s = (v, t)" by fastforce
  have "dial_view t = dial_view s" using io_frameD [OF m c] .
  then show "dial_view (snd (io_bind m f s)) = dial_view s"
    using c f by (cases v) (simp_all add: io_bind_def io_frame_def)
qed

lemma io_frame_return: "io_frame (io_return x)"
  by (simp add: io_frame_def io_defs)

lemma io_frame_fail: "io_frame (io_fail e)"
  by (simp add: io_frame_def io_defs)

lemma io_frame_file_call: "io_frame f \<Longrightarrow> io_frame (file_call f)"
proof (rule io_frameI)
  fix s
  assume f: "io_frame f"
  obtain v t where c: "file_call f s = (v, t)" by fastforce
  then have "dial_view t = dial_view s"
  proof (cases rule: file_call_cases)
    case (2 fs)
    with io_frameD [OF f 2] show ?thesis by (simp add: dial_view_def)
  qed (simp add: dial_view_def)
  with c show "dial_view (snd (file_call f s)) = dial_view s" by simp
qed

lemmas io_frame_intros = io_frame_bind io_frame_return io_frame_fail io_frame_file_call

lemma io_frame_read_entries: "io_frame (read_entries es)"
proof (induction es)
  case (Cons e es)
  then show ?case by (cases e) (auto intro!: io_frame_intros split: sum.splits)
qed (auto intro!: io_frame_intros)

lemma io_frame_read_records: "io_frame (read_records ex dir)"
  unfolding read_records_def
  by (intro io_frame_intros io_frame_read_entries) (rule io_frameI, simp add: dial_view_def)

lemma io_frame_prepare: "io_frame prepare_directories"
  unfolding prepare_directories_def
  by (intro io_frame_intros) (rule io_frameI, simp add: dial_view_def)+

lemma io_frame_write: "io_frame (write_record k r)"
  unfolding write_record_def
  by (intro io_frame_intros) (rule io_frameI, simp add: dial_view_def)+

lemma io_frame_remove: "io_frame (remove_pending k)"
  unfolding remove_pending_def
  by (intro io_frame_intros) (rule io_frameI, simp add: dial_view_def)

lemma io_frame_rename: "io_frame (rename_to_dead k)"
  unfolding rename_to_dead_def
  by (intro io_frame_intros) (rule io_frameI, simp add: dial_view_def split: option.split)

lemma io_frame_move: "io_frame (move_to_dead_letter r)"
proof -
  have "io_frame (if b then remove_pending k else rename_to_dead k)" for b k
    by (simp add: io_frame_remove io_frame_rename)
  then show ?thesis
    unfolding move_to_dead_letter_def
    by (intro io_frame_intros) (assumption | (rule io_frameI, simp add: dial_view_def))+
qed

lemma io_frame_persist: "io_frame (persist_record r)"
proof -
  have written: "io_frame (io_bind (write_record k r)
      (\<lambda>_ s. (Inr True, s\<lparr>outbox_pending := outbox_pending s + 1\<rparr>)))" for k
    by (intro io_frame_intros io_frame_write) (rule io_frameI, simp add: dial_view_def)
  have found: "io_frame (case found of Some (Inl e) \<Rightarrow> io_fail e
      | Some (Inr existing) \<Rightarrow> if existing \<noteq> r then io_fail ''outbox message id collision'' else io_return False
      | None \<Rightarrow> io_bind (write_record (message_id r) r)
                (\<lambda>_ s. (Inr True, s\<lparr>outbox_pending := outbox_pending s + 1\<rparr>)))" for found
    using written by (auto simp: io_frame_return io_frame_fail split: option.split sum.split)
  show ?thesis
    unfolding persist_record_def
    by (intro io_frame_bind io_frame_file_call io_frame_prepare found) (rule io_frameI, simp)
qed

lemma io_frame_finalize: "io_frame (finalize_delivery r outcome now)"
proof (cases outcome)
  case Acknowledged
  have "io_frame (io_bind (remove_pending (message_id r)) (\<lambda>_ s. (Inr (),
      s\<lparr>outbox_pending := outbox_pending s - 1, jetstream_published := jetstream_published s + 1\<rparr>)))"
    by (intro io_frame_bind io_frame_remove) (rule io_frameI, simp add: dial_view_def)
  then show ?thesis using Acknowledged by simp
next
  case Unacknowledged
  have last: "io_frame (\<lambda>s. if max_attempts s \<le> attempts r' then move_to_dead_letter r' s else (Inr (), s))" for r'
    by (rule io_frameI) (use io_frame_move in \<open>simp add: io_frame_def\<close>)
  then show ?thesis
    using Unacknowledged by (auto intro!: io_frame_bind io_frame_write simp: Let_def)
qed

lemma io_frame_triage: "io_frame (triage limit now rs)"
  by (induction rs) (auto intro!: io_frame_bind io_frame_return io_frame_move)

lemma jetstream_publish_dial: "jetstream_publish r s = (x, t) \<Longrightarrow> dial_view t = dial_view s"
  by (auto simp: jetstream_publish_def dial_view_def split: list.splits reply.splits)

lemma deliver_dial: "dial_view (deliver now rs s) = dial_view s"
proof (induction rs arbitrary: s)
  case (Cons r rs)
  obtain x s1 where c1: "jetstream_publish r s = (x, s1)" by fastforce
  obtain v s2 where c2: "finalize_delivery r x now s1 = (v, s2)" by fastforce
  have "dial_view s2 = dial_view s"
    using io_frameD [OF io_frame_finalize c2] jetstream_publish_dial [OF c1] by simp
  then show ?case
    using c1 c2 Cons.IH by (cases v) (simp_all add: dial_view_def invalidate_client_def)
qed simp

lemma dial_log_extend:
  "dial_ok s \<Longrightarrow> url s = Some u \<Longrightarrow>
   (case last_attempt s of None \<Rightarrow> True | Some a \<Rightarrow> connect_retry_ms \<le> monotonic_ms s - a) \<Longrightarrow>
   dial_ok (s\<lparr>last_attempt := Some (monotonic_ms s), connect_attempts := connect_attempts s + 1,
     dial_log := dial_log s @ [(monotonic_ms s, connect_options (environ s) u)]\<rparr>)"
proof -
  assume ok: "dial_ok s" and u: "url s = Some u"
    and gap: "case last_attempt s of None \<Rightarrow> True | Some a \<Rightarrow> connect_retry_ms \<le> monotonic_ms s - a"
  have "fst d + connect_retry_ms \<le> monotonic_ms s" if d: "d \<in> set (dial_log s)" for d
  proof -
    have ne: "dial_log s \<noteq> []" using d by auto
    then have last: "fst (last (dial_log s)) + connect_retry_ms \<le> monotonic_ms s"
      using ok gap by (auto simp: dial_ok_def connect_retry_ms_def)
    have "fst d \<le> fst (last (dial_log s))"
    proof (cases "d = last (dial_log s)")
      case False
      have s: "sorted_wrt (\<lambda>a b. fst a + connect_retry_ms \<le> fst b) (butlast (dial_log s) @ [last (dial_log s)])"
        using ok ne by (simp add: dial_ok_def)
      have "d \<in> set (butlast (dial_log s))"
        using d False ne by (metis append_butlast_last_id in_set_conv_decomp rotate1.simps(2) set_ConsD set_rotate1)
      then show ?thesis using s by (fastforce simp: sorted_wrt_append)
    qed simp
    then show ?thesis using last by linarith
  qed
  then show ?thesis
    using ok u by (auto simp: dial_ok_def sorted_wrt_append)
qed

lemma client_dial: "client s = (b, t) \<Longrightarrow> dial_ok s \<Longrightarrow> dial_ok t"
proof -
  assume c: "client s = (b, t)" and ok: "dial_ok s"
  let ?gap = "case last_attempt s of None \<Rightarrow> False | Some a \<Rightarrow> monotonic_ms s - a < connect_retry_ms"
  show ?thesis
  proof (cases "url s = None \<or> connected s \<or> ?gap")
    case True
    then have "t = s" using c by (auto simp: client_def split: option.splits if_splits)
    then show ?thesis using ok by simp
  next
    case False
    then obtain u where u: "url s = Some u" by auto
    let ?s = "s\<lparr>last_attempt := Some (monotonic_ms s), connect_attempts := connect_attempts s + 1,
      dial_log := dial_log s @ [(monotonic_ms s, connect_options (environ s) u)]\<rparr>"
    have "dial_ok ?s"
      by (rule dial_log_extend [OF ok u]) (use False in \<open>auto split: option.splits\<close>)
    moreover have "dial_view t = dial_view ?s"
      using c False u
      by (auto simp: client_def Let_def dial_view_def split: list.splits bool.splits if_splits)
    ultimately show ?thesis using dial_ok_view by blast
  qed
qed

lemma drain_locked_dial: "dial_ok s \<Longrightarrow> dial_ok (drain_locked s)"
proof -
  assume ok: "dial_ok s"
  obtain v1 s1 where c1: "pending_records s = (v1, s1)" by fastforce
  have ok1: "dial_ok s1"
    using io_frameD [OF io_frame_read_records] c1 ok dial_ok_view by (metis pending_records_def)
  show ?thesis
  proof (cases v1)
    case (Inl e)
    then show ?thesis using c1 ok1 by (simp add: drain_locked_def dial_ok_def)
  next
    case (Inr rs)
    obtain v2 s2 where c2: "triage (max_attempts s1) (wall_ms s1) rs s1 = (v2, s2)" by fastforce
    have ok2: "dial_ok s2" using io_frameD [OF io_frame_triage c2] ok1 dial_ok_view by blast
    obtain b s3 where c3: "client s2 = (b, s3)" by fastforce
    have ok3: "dial_ok s3" by (rule client_dial [OF c3 ok2])
    have "drain_locked s = (case v2 of Inl _ \<Rightarrow> s2\<lparr>outbox_persist_failures := outbox_persist_failures s2 + 1\<rparr>
        | Inr due \<Rightarrow> if due = [] then s2 else if b then deliver (wall_ms s3) due s3
          else s3\<lparr>outbox_deferred := outbox_deferred s3 + 1\<rparr>)"
      using c1 c2 c3 Inr by (cases v2; cases b) (simp_all add: drain_locked_def)
    moreover have "dial_ok (deliver now due s3)" for now due
      using ok3 dial_ok_view [OF deliver_dial] by simp
    ultimately show ?thesis using ok2 ok3 by (cases v2) (simp_all add: dial_ok_def)
  qed
qed

lemma drain_outbox_dial: "dial_ok s \<Longrightarrow> dial_ok (drain_outbox s)"
  by (simp add: drain_outbox_def drain_locked_dial)

lemma boot_dial: "dial_ok (boot u limit s)"
proof -
  have ok: "dial_ok (with_outbox u limit s)" by (simp add: dial_ok_def with_outbox_def)
  have start: "dial_ok (snd (start r))" if "dial_ok r" for r
  proof -
    obtain v1 s1 where c1: "prepare_directories r = (v1, s1)" by fastforce
    have ok1: "dial_ok s1" using io_frameD [OF io_frame_prepare c1] that dial_ok_view by blast
    obtain v2 s2 where c2: "pending_records s1 = (v2, s2)" by fastforce
    have ok2: "dial_ok s2"
      using io_frameD [OF io_frame_read_records] c2 ok1 dial_ok_view by (metis pending_records_def)
    obtain v3 s3 where c3: "dead_letter_records s2 = (v3, s3)" by fastforce
    have ok3: "dial_ok s3"
      using io_frameD [OF io_frame_read_records] c3 ok2 dial_ok_view by (metis dead_letter_records_def)
    have "dial_ok (s3\<lparr>outbox_pending := x, dead_lettered := y\<rparr>)" for x y
      using ok3 by (simp add: dial_ok_def)
    then show ?thesis
      using that ok1 ok2 ok3 c1 c2 c3
      by (cases v1; cases v2; cases v3) (auto simp: start_def io_bind_def drain_outbox_dial)
  qed
  obtain v t where c: "start (with_outbox u limit s) = (v, t)" by fastforce
  then have "dial_ok t" using start [OF ok] by simp
  then show ?thesis using c by (cases v) (simp_all add: boot_def dial_ok_def)
qed

lemma publish_event_dial: "dial_ok s \<Longrightarrow> dial_ok (publish_event dedup subj e s)"
proof -
  assume ok: "dial_ok s"
  show ?thesis
  proof (cases "env_encoded e")
    case (Inr bytes)
    obtain v t where c: "persist_record (event_record dedup subj e bytes) s = (v, t)" by fastforce
    have "dial_ok t" using io_frameD [OF io_frame_persist c] ok dial_ok_view by blast
    moreover from this have "dial_ok (drain_locked t)" by (rule drain_locked_dial)
    ultimately show ?thesis using ok c Inr by (cases v) (simp_all add: publish_event_def)
  qed (use ok in \<open>simp add: publish_event_def\<close>)
qed

lemma publish_live_dial: "dial_ok s \<Longrightarrow> dial_ok (publish_live subj bytes s)"
proof -
  assume ok: "dial_ok s"
  obtain b t where c: "client s = (b, t)" by fastforce
  show ?thesis
    using client_dial [OF c ok] c
    by (cases b) (simp_all add: publish_live_def invalidate_client_def)
qed

lemma dial_ok_time: "dial_ok s \<Longrightarrow> dial_ok (s\<lparr>monotonic_ms := monotonic_ms s + ms, wall_ms := w\<rparr>)"
  by (fastforce simp: dial_ok_def)

interpretation dialing: step_system "host_step dedup" dial_ok for dedup
proof
  fix s op
  assume ok: "dial_ok s"
  show "dial_ok (host_step dedup s op)"
  proof (cases op)
    case (Time_Passes ms)
    then show ?thesis using ok dial_ok_time by simp
  next
    case (Restart u limit)
    then show ?thesis by (simp add: boot_dial)
  qed (use ok in \<open>simp_all add: publish_event_dial publish_live_dial drain_outbox_dial\<close>)
qed

text \<open>C38: a worker process, from its start on and whatever is published, dials the broker at most once
  in any five seconds; every attempt carries the TLS requirement and the credentials of the
  transport policy for its own URL; and the counter counts the attempts.\<close>

theorem dials_are_paced:
  "let t = foldl (host_step dedup) (boot u limit s) ops in
     sorted_wrt (\<lambda>a b. fst a + 5000 \<le> fst b) (dial_log t)
     \<and> map snd (dial_log t)
         = replicate (length (dial_log t)) (connect_options (environ t) (the (url t)))
     \<and> snap_connect_attempts (snapshot t) = of_nat (length (dial_log t))"
proof -
  define t where "t = foldl (host_step dedup) (boot u limit s) ops"
  have "dial_ok t"
    unfolding t_def by (rule dialing.run_inv [OF boot_dial])
  then show ?thesis
    unfolding t_def [symmetric] Let_def
    by (auto simp: dial_ok_def snapshot_def connect_retry_ms_def map_replicate_const [symmetric])
qed

section \<open>A file that does not parse\<close>

text \<open>
  The price of reading the whole directory before anything is sent: one file that does not parse
  stops the delivery of every other event, in this drain and in each later one.
\<close>

theorem corrupt_file_stops_delivery:
  assumes "(k, Inl e) \<in> set (pending_dir s)" and "url s \<noteq> None"
  shows "stream (drain_outbox s) = stream s \<and> pending_dir (drain_outbox s) = pending_dir s
    \<and> outbox_persist_failures (drain_outbox s) = outbox_persist_failures s + 1"
proof -
  obtain v t where c: "pending_records s = (v, t)" by fastforce
  have res: "only_faults s t \<and> (\<forall>rs. v = Inr rs \<longrightarrow>
      (\<exists>rs'. map snd (pending_dir s) = map Inr rs' \<and> rs = sort_key record_order rs'))"
    by (rule read_records_result) (use c in \<open>simp_all add: pending_records_def\<close>)
  have "Inl e \<in> set (map snd (pending_dir s))" using assms(1) by force
  then have "map snd (pending_dir s) \<noteq> map Inr rs'" for rs' by (auto simp del: set_map simp: set_map [where f = Inr])
  then obtain x where "v = Inl x" using res by (cases v) auto
  then show ?thesis
    using c res assms(2) by (auto simp: drain_outbox_def drain_locked_def only_faults_def)
qed

end
