(* ===== verification/Json.thy ===== *)
theory Json
  imports Text
begin

text \<open>
  \<open>serde_json::Value\<close>: the constructors, and the accessors the program uses. An object is its list
  of entries in iteration order, a floating point number is its text.
\<close>

datatype json =
    JNull
  | JBool bool
  | JInt int
  | JFloat string
  | JString string
  | JArray "json list"
  | JObject "(string \<times> json) list"

definition json_get :: "json \<Rightarrow> string \<Rightarrow> json option" where
  "json_get v key = (case v of JObject kvs \<Rightarrow> map_of kvs key | _ \<Rightarrow> None)"

definition as_str :: "json \<Rightarrow> string option" where
  "as_str v = (case v of JString s \<Rightarrow> Some s | _ \<Rightarrow> None)"

definition as_u64 :: "json \<Rightarrow> u64 option" where
  "as_u64 v = (case v of JInt i \<Rightarrow> if 0 \<le> i \<and> i < 2 ^ 64 then Some (of_int i) else None | _ \<Rightarrow> None)"

definition as_i64 :: "json \<Rightarrow> int option" where
  "as_i64 v = (case v of JInt i \<Rightarrow> if - (2 ^ 63) \<le> i \<and> i < 2 ^ 63 then Some i else None | _ \<Rightarrow> None)"

definition as_bool :: "json \<Rightarrow> bool option" where
  "as_bool v = (case v of JBool b \<Rightarrow> Some b | _ \<Rightarrow> None)"

definition as_array :: "json \<Rightarrow> json list option" where
  "as_array v = (case v of JArray a \<Rightarrow> Some a | _ \<Rightarrow> None)"

text \<open>\<open>event.get(key).and_then(Value::as_str)\<close> and \<open>json!\<close> of an optional string.\<close>

definition get_str :: "json \<Rightarrow> string \<Rightarrow> string option" where
  "get_str v key = (case json_get v key of None \<Rightarrow> None | Some x \<Rightarrow> as_str x)"

definition get_u64 :: "json \<Rightarrow> string \<Rightarrow> u64 option" where
  "get_u64 v key = (case json_get v key of None \<Rightarrow> None | Some x \<Rightarrow> as_u64 x)"

definition json_opt :: "string option \<Rightarrow> json" where
  "json_opt v = (case v of None \<Rightarrow> JNull | Some s \<Rightarrow> JString s)"

text \<open>The string values of a document, at any depth; object keys are not values.\<close>

fun json_strings :: "json \<Rightarrow> string set" where
  "json_strings (JString s) = {s}"
| "json_strings (JArray a) = (\<Union>v \<in> set a. json_strings v)"
| "json_strings (JObject kvs) = (\<Union>e \<in> set kvs. json_strings (snd e))"
| "json_strings _ = {}"

lemma json_get_simps [simp]: "json_get (JObject kvs) key = map_of kvs key"
  by (simp add: json_get_def)

lemma as_str_simps [simp]: "as_str (JString s) = Some s" "as_str v = Some s \<longleftrightarrow> v = JString s"
  by (auto simp: as_str_def split: json.splits)

end
