(* ===== verification/Sanitize.thy ===== *)
theory Sanitize
  imports Json
begin

text \<open>
  Redaction of everything that leaves the process (src/src/sanitize.rs and \<open>sanitize_value\<close> of
  src/src/event_bus.rs). The process environment is an argument. So is the regular expression
  engine: \<open>regex pat\<close> is \<open>None\<close> when the pattern does not compile, and otherwise cuts a text into
  its matches, each with the text before it, and the text after the last one; \<open>replace_all\<close> puts
  the replacement in the place of each match.
\<close>

section \<open>The two passes\<close>

definition secret_env_keys :: "string list" where
  "secret_env_keys =
     [''OPENAI_API_KEY'', ''OPENAI_API_KEYS'', ''OPENAI_API_KEYS_JSON'',
      ''ANTHROPIC_API_KEY'', ''ANTHROPIC_API_KEYS'', ''ANTHROPIC_API_KEYS_JSON'',
      ''CLAUDE_API_KEY'', ''CLAUDE_API_KEYS'', ''CLAUDE_API_KEYS_JSON'',
      ''GEMINI_API_KEY'', ''GEMINI_API_KEYS'', ''GEMINI_API_KEYS_JSON'',
      ''GOOGLE_API_KEY'', ''GOOGLE_API_KEYS'', ''GOOGLE_API_KEYS_JSON'',
      ''OPENCODE_API_KEY'', ''OPENCODE_API_KEYS'', ''OPENCODE_API_KEYS_JSON'',
      ''OPENCODE_ZEN_API_KEY'', ''OPENCODE_ZEN_API_KEYS'', ''OPENCODE_ZEN_API_KEYS_JSON'',
      ''DEEPSEEK_API_KEY'', ''DEEPSEEK_API_KEYS'', ''DEEPSEEK_API_KEYS_JSON'',
      ''XAI_API_KEY'', ''XAI_API_KEYS'', ''XAI_API_KEYS_JSON'',
      ''GROK_API_KEY'', ''GROK_API_KEYS'', ''GROK_API_KEYS_JSON'',
      ''GH_PAT'', ''GH_DEPLOY_KEY'', ''SERVER_AUTH_SECRET'', ''EVENT_INGEST_SECRET'',
      ''FIDUCIA_CONTROL_PLANE_SECRET'', ''FIDUCIA_INTERNAL_SECRET'', ''FIDUCIA_NODE_INTERNAL_SECRET'',
      ''SUPABASE_SERVICE_ROLE_KEY'', ''AWS_ACCESS_KEY_ID'', ''AWS_SECRET_ACCESS_KEY'', ''AWS_SESSION_TOKEN'']"

type_synonym engine = "string \<Rightarrow> (string \<Rightarrow> (string \<times> string) list \<times> string) option"

text \<open>A word boundary of a pattern.\<close>

definition wb :: string where
  "wb = [CHR 0x5C, CHR ''b'']"

definition pattern_rules :: "(string \<times> string) list" where
  "pattern_rules =
     [(wb @ ''sk-ant-[A-Za-z0-9_*.-]{8,}'' @ wb, ''[redacted-anthropic-key]''),
      (wb @ ''sk-oc-[A-Za-z0-9_*.-]{8,}'' @ wb, ''[redacted-opencode-key]''),
      (wb @ ''sk-[A-Za-z0-9_*.-]{8,}'' @ wb, ''[redacted-openai-key]''),
      (wb @ ''AIza[A-Za-z0-9_*'' @ [CHR 0x5C] @ ''-]{12,}'' @ wb, ''[redacted-google-key]''),
      (wb @ ''xai-[A-Za-z0-9_*.-]{24,}'' @ wb, ''[redacted-xai-key]''),
      (wb @ ''(?:ghp|github_pat)_[A-Za-z0-9_*.-]{8,}'' @ wb, ''[redacted-github-token]''),
      (wb @ ''(?:AKIA|ASIA)[0-9A-Z]{16}'' @ wb, ''[redacted-aws-access-key]''),
      (wb @ ''IQoJ[A-Za-z0-9+/=_'' @ [CHR 0x5C] @ ''-]{180,}'' @ wb, ''[redacted-aws-session-token]'')]"

definition secret_label :: string where
  "secret_label = ''[redacted-secret]''"

definition replace_all :: "(string \<Rightarrow> (string \<times> string) list \<times> string) \<Rightarrow> string \<Rightarrow> string \<Rightarrow> string" where
  "replace_all matches repl text =
     (case matches text of (ms, rest) \<Rightarrow> concat (map (\<lambda>(before, m). before @ repl) ms) @ rest)"

definition scrub_env :: "(string \<Rightarrow> string option) \<Rightarrow> string \<Rightarrow> string \<Rightarrow> string" where
  "scrub_env env key output =
     (case env key of
        Some secret \<Rightarrow> if 8 \<le> length secret then replace_str secret secret_label output else output
      | None \<Rightarrow> output)"

definition scrub_rule :: "engine \<Rightarrow> string \<times> string \<Rightarrow> string \<Rightarrow> string" where
  "scrub_rule regex rule output =
     (case rule of (pat, repl) \<Rightarrow>
        (case regex pat of None \<Rightarrow> output | Some matches \<Rightarrow> replace_all matches repl output))"

definition sanitize_event_text :: "engine \<Rightarrow> (string \<Rightarrow> string option) \<Rightarrow> string \<Rightarrow> string" where
  "sanitize_event_text regex env text =
     fold (scrub_rule regex) pattern_rules (fold (scrub_env env) secret_env_keys text)"

fun sanitize_value :: "(string \<Rightarrow> string) \<Rightarrow> json \<Rightarrow> json" where
  "sanitize_value clean (JString s) = JString (clean s)"
| "sanitize_value clean (JArray a) = JArray (map (sanitize_value clean) a)"
| "sanitize_value clean (JObject kvs) = JObject (map (\<lambda>(k, v). (k, sanitize_value clean v)) kvs)"
| "sanitize_value clean v = v"

section \<open>Masking\<close>

text \<open>A text is masked by putting labels in the place of pieces of it.\<close>

inductive masked :: "string set \<Rightarrow> string \<Rightarrow> string \<Rightarrow> bool" for L where
  masked_same: "masked L s s"
| masked_piece: "l \<in> L \<Longrightarrow> masked L s u \<Longrightarrow> masked L (k @ m @ s) (k @ l @ u)"

definition bracketed :: "string \<Rightarrow> bool" where
  "bracketed l \<longleftrightarrow> (\<exists>w. l = CHR ''['' # w @ '']'')"

text \<open>A secret that no label can complete: it has no bracket and is not part of a label.\<close>

definition label_free :: "string set \<Rightarrow> string \<Rightarrow> bool" where
  "label_free L x \<longleftrightarrow> x \<noteq> [] \<and> CHR ''['' \<notin> set x \<and> CHR '']'' \<notin> set x \<and> (\<forall>l \<in> L. \<not> sublist x l)"

lemma sublist_skip_label:
  assumes "label_free L x" and "l \<in> L" and "bracketed l" and "sublist x (a @ l @ b)"
  shows "sublist x a \<or> sublist x b"
proof -
  obtain w where l: "l = CHR ''['' # w @ '']''" using assms(3) by (auto simp: bracketed_def)
  have no: "CHR ''['' \<notin> set x" "CHR '']'' \<notin> set x" "\<not> sublist x l" "x \<noteq> []"
    using assms(1,2) by (auto simp: label_free_def)
  consider "sublist x a" | "sublist x (l @ b)" | x1 x2 where "x = x1 @ x2" "suffix x1 a" "prefix x2 (l @ b)"
    using assms(4) by (auto simp: sublist_append)
  then show ?thesis
  proof cases
    case 3
    then have "x2 = []" using no(1) l by (cases x2) auto
    then show ?thesis using 3 by auto
  next
    case 2
    consider "sublist x b" | x1 x2 where "x = x1 @ x2" "suffix x1 l" "prefix x2 b"
      using 2 no(3) by (auto simp: sublist_append)
    then show ?thesis
    proof cases
      case 2
      then have "x1 = []" using no(2) l by (cases x1 rule: rev_cases) (auto simp: suffix_def)
      then show ?thesis using 2 by auto
    qed simp
  qed simp
qed

lemma masked_sublist:
  assumes "masked L s u" and "\<forall>l \<in> L. bracketed l" and "label_free L x" and "sublist x u"
  shows "sublist x s"
  using assms(1,4)
proof induction
  case (masked_piece l s u k m)
  then have "sublist x k \<or> sublist x u"
    using sublist_skip_label [OF assms(3)] assms(2) by blast
  then have "sublist x k \<or> sublist x s" using masked_piece.IH by blast
  then show ?case unfolding sublist_append by blast
qed

lemma masked_prepend: "masked L s u \<Longrightarrow> masked L (k @ s) (k @ u)"
proof (induction rule: masked.induct)
  case (masked_piece l s u k' m)
  then have "masked L ((k @ k') @ m @ s) ((k @ k') @ l @ u)" by (intro masked.masked_piece)
  then show ?case by simp
qed (rule masked_same)

lemma masked_replace_str: "l \<in> L \<Longrightarrow> masked L s (replace_str pat l s)"
proof (induction pat l s rule: replace_str.induct)
  case (2 pat r c cs)
  show ?case
  proof (cases "pat \<noteq> [] \<and> prefix pat (c # cs)")
    case True
    then have "c # cs = [] @ pat @ drop (length pat) (c # cs)" by (auto simp: prefix_def)
    moreover have "masked L ([] @ pat @ drop (length pat) (c # cs)) ([] @ r @ replace_str pat r (drop (length pat) (c # cs)))"
      using 2 True by (intro masked_piece) auto
    ultimately show ?thesis using True by simp
  next
    case False
    with 2 have "masked L ([c] @ cs) ([c] @ replace_str pat r cs)" by (intro masked_prepend) auto
    moreover have "replace_str pat r (c # cs) = [c] @ replace_str pat r cs" using False by auto
    ultimately show ?thesis by (simp only: append_Cons append_Nil)
  qed
qed (simp add: masked_same)

lemma masked_concat:
  "l \<in> L \<Longrightarrow> masked L (concat (map (\<lambda>(a, m). a @ m) ms) @ rest) (concat (map (\<lambda>(a, m). a @ l) ms) @ rest)"
  by (induction ms) (auto intro: masked_same masked_piece)

section \<open>A secret that is replaced is gone\<close>

lemma prefix_replace_str:
  "prefix y (replace_str pat l s) \<Longrightarrow> bracketed l \<Longrightarrow> CHR ''['' \<notin> set y \<Longrightarrow> prefix y s"
proof (induction pat l s arbitrary: y rule: replace_str.induct)
  case (2 pat r c cs)
  show ?case
  proof (cases "pat \<noteq> [] \<and> prefix pat (c # cs)")
    case True
    then show ?thesis using 2(3-5) by (cases y) (auto simp: bracketed_def)
  next
    case False
    then show ?thesis using 2 by (cases y) auto
  qed
qed simp

lemma replace_str_removes:
  assumes "label_free {l} x" and "bracketed l"
  shows "\<not> sublist x (replace_str x l s)"
  using assms
proof (induction x l s rule: replace_str.induct)
  case (1 x l)
  then show ?case by (simp add: label_free_def)
next
  case (2 x l c cs)
  have ne: "x \<noteq> []" and br: "CHR ''['' \<notin> set x" using 2(3) by (simp_all add: label_free_def)
  show ?case
  proof (cases "prefix x (c # cs)")
    case True
    with 2 ne have rec: "\<not> sublist x (replace_str x l (drop (length x) (c # cs)))" by simp
    have "\<not> sublist x ([] @ l @ replace_str x l (drop (length x) (c # cs)))"
      using sublist_skip_label [OF 2(3), of l "[]"] 2(4) rec ne by auto
    then show ?thesis using True ne by simp
  next
    case False
    with 2 have rec: "\<not> sublist x (replace_str x l cs)" by simp
    have "\<not> prefix x (c # replace_str x l cs)"
    proof
      assume p: "prefix x (c # replace_str x l cs)"
      then obtain y where y: "x = c # y" "prefix y (replace_str x l cs)" using ne by (cases x) auto
      then have "prefix y cs" using prefix_replace_str [OF y(2) 2(4)] br by simp
      with y False show False by simp
    qed
    with rec False show ?thesis by (simp add: sublist_Cons_right)
  qed
qed

section \<open>The whole pass\<close>

text \<open>What \<open>replace_all\<close> documents: the matches do not overlap and come in order, so the pieces make up
  the text.\<close>

definition engine_ok :: "engine \<Rightarrow> bool" where
  "engine_ok regex \<longleftrightarrow> (\<forall>pat matches text. regex pat = Some matches \<longrightarrow>
     concat (map (\<lambda>(before, m). before @ m) (fst (matches text))) @ snd (matches text) = text)"

definition labels :: "string set" where
  "labels = set (secret_label # map snd pattern_rules)"

lemma bracketedI: "r \<noteq> [] \<Longrightarrow> last r = CHR '']'' \<Longrightarrow> bracketed (CHR ''['' # r)"
  unfolding bracketed_def by (metis append_butlast_last_id)

lemma labels_bracketed: "\<forall>l \<in> labels. bracketed l"
  by (simp add: labels_def secret_label_def pattern_rules_def bracketedI)

lemma scrub_env_masked: "masked labels s (scrub_env env key s)"
  by (auto simp: scrub_env_def labels_def intro: masked_same masked_replace_str split: option.split)

lemma replace_all_masked:
  "engine_ok regex \<Longrightarrow> regex pat = Some matches \<Longrightarrow> l \<in> labels \<Longrightarrow> masked labels s (replace_all matches l s)"
proof -
  assume ok: "engine_ok regex" "regex pat = Some matches" and l: "l \<in> labels"
  obtain ms rest where m: "matches s = (ms, rest)" by (cases "matches s")
  then have "concat (map (\<lambda>(a, m). a @ m) ms) @ rest = s"
    using ok unfolding engine_ok_def by (metis fst_conv snd_conv)
  then show ?thesis using masked_concat [OF l, of ms rest] m by (simp add: replace_all_def)
qed

lemma scrub_rule_masked: "engine_ok regex \<Longrightarrow> rule \<in> set pattern_rules \<Longrightarrow> masked labels s (scrub_rule regex rule s)"
proof -
  assume ok: "engine_ok regex" and rule: "rule \<in> set pattern_rules"
  then have "snd rule \<in> labels" by (auto simp: labels_def)
  with ok show ?thesis
    by (cases rule) (auto simp: scrub_rule_def intro: masked_same replace_all_masked split: option.split)
qed

lemma fold_masked_hides:
  assumes "\<And>k s. k \<in> set ks \<Longrightarrow> masked labels s (f k s)" and "label_free labels x"
  shows "\<not> sublist x s \<Longrightarrow> \<not> sublist x (fold f ks s)"
  using assms(1)
proof (induction ks arbitrary: s)
  case (Cons k ks)
  have "\<not> sublist x (f k s)"
    using masked_sublist [OF Cons.prems(2) labels_bracketed assms(2)] Cons.prems(1) by auto
  then show ?case using Cons by simp
qed simp

lemma fold_hides:
  assumes "\<And>k s. k \<in> set ks \<Longrightarrow> masked labels s (f k s)" and "label_free labels x"
    and "k0 \<in> set ks" and "\<And>s. \<not> sublist x (f k0 s)"
  shows "\<not> sublist x (fold f ks s)"
proof -
  obtain as bs where ks: "ks = as @ k0 # bs" using assms(3) by (meson split_list)
  have "\<not> sublist x (fold f bs (f k0 (fold f as s)))"
    by (rule fold_masked_hides [OF assms(1) assms(2,4)]) (simp add: ks)
  then show ?thesis by (simp add: ks)
qed

lemma sanitize_event_text_hides:
  assumes "engine_ok regex" and "key \<in> set secret_env_keys" and "env key = Some secret"
    and "8 \<le> length secret" and "label_free labels secret"
  shows "\<not> sublist secret (sanitize_event_text regex env text)"
proof -
  have "label_free {secret_label} secret"
    using assms(5) by (auto simp: label_free_def labels_def)
  moreover have "bracketed secret_label" using labels_bracketed by (simp add: labels_def)
  ultimately have "\<not> sublist secret (scrub_env env key s)" for s
    using assms(3,4) replace_str_removes by (simp add: scrub_env_def)
  then have "\<not> sublist secret (fold (scrub_env env) secret_env_keys text)"
    by (intro fold_hides [OF _ assms(5,2)] scrub_env_masked)
  then show ?thesis
    unfolding sanitize_event_text_def
    using fold_masked_hides [of pattern_rules "scrub_rule regex" secret] scrub_rule_masked [OF assms(1)] assms(5)
    by blast
qed

lemma sanitize_value_strings:
  "json_strings (sanitize_value clean v) = clean ` json_strings v"
  by (induction v rule: json_strings.induct) (auto simp: image_iff, force+)

end
