(* ===== verification/EventBus.thy ===== *)
theory EventBus
  imports Sanitize
begin

text \<open>
  The event bus of src/src/event_bus.rs: per-task replay history with sequence dedup, live fan-out,
  the ingest circuit breaker with its retry loop, the log lines and the NATS messages.

  A broadcast channel is the list of what was sent on it; a receiver is the position where it was
  created. A spawned side-channel task is an entry of \<open>spawned\<close>; what it does to the bus when it
  runs is an operation of its own (\<open>ingest_task\<close>, \<open>log_task\<close>), with the replies of the other side
  as arguments. The clock and the redaction of a text are arguments.
\<close>

section \<open>State\<close>

record stored_event =
  st_seq :: int
  st_event :: json

record bus_event =
  be_task_id :: string
  be_thread_id :: "string option"
  be_user_id :: "string option"
  be_seq :: int
  be_event :: json

record task_channel =
  ch_history :: "stored_event list"
  ch_seqs :: "int set"
  ch_sent :: "stored_event list"
  ch_done :: bool

record circuit_state =
  consecutive_failures :: u32
  is_open :: bool
  last_fail_at :: int

record ingest =
  ingest_url :: string
  ingest_secret :: string

datatype side_effect =
    Ingest_Post ingest json
  | Log_Line string string
  | Nats_Event string string json string

record event_bus =
  eb_tasks :: "string \<Rightarrow> task_channel option"
  eb_circuit :: circuit_state
  eb_ingest :: "ingest option"
  eb_log_dir :: string
  eb_subject :: string
  eb_emitted :: u64
  eb_ingest_attempts :: u64
  eb_ingest_successes :: u64
  eb_ingest_failures :: u64
  eb_log_write_failures :: u64
  eb_spawned :: "side_effect list"

definition circuit_failure_threshold :: u32 where
  "circuit_failure_threshold = 15"

definition circuit_reset_ms :: int where
  "circuit_reset_ms = 60000"

definition replay_cap :: nat where
  "replay_cap = 2000"

definition circuit_default :: circuit_state where
  "circuit_default = \<lparr>consecutive_failures = 0, is_open = False, last_fail_at = 0\<rparr>"

definition event_bus_new :: "string option \<Rightarrow> string option \<Rightarrow> string \<Rightarrow> string \<Rightarrow> event_bus" where
  "event_bus_new url secret dir subj =
     \<lparr> eb_tasks = (\<lambda>_. None), eb_circuit = circuit_default,
       eb_ingest = (case (url, secret) of
                      (Some u, Some s) \<Rightarrow> Some \<lparr>ingest_url = u, ingest_secret = s\<rparr> | _ \<Rightarrow> None),
       eb_log_dir = dir, eb_subject = subj, eb_emitted = 0, eb_ingest_attempts = 0,
       eb_ingest_successes = 0, eb_ingest_failures = 0, eb_log_write_failures = 0, eb_spawned = [] \<rparr>"

section \<open>The circuit breaker\<close>

definition circuit_allows :: "int \<Rightarrow> event_bus \<Rightarrow> bool \<times> event_bus" where
  "circuit_allows now b =
     (let c = eb_circuit b in
      if \<not> is_open c then (True, b)
      else if circuit_reset_ms < now - last_fail_at c then (True, b\<lparr>eb_circuit := circuit_default\<rparr>)
      else (False, b))"

definition record_failure :: "int \<Rightarrow> event_bus \<Rightarrow> event_bus" where
  "record_failure now b =
     (let c = eb_circuit b;
          c = c\<lparr>consecutive_failures := consecutive_failures c + 1, last_fail_at := now\<rparr>;
          c = (if circuit_failure_threshold \<le> consecutive_failures c then c\<lparr>is_open := True\<rparr> else c)
      in b\<lparr>eb_circuit := c\<rparr>)"

definition record_success :: "event_bus \<Rightarrow> event_bus" where
  "record_success b =
     (if 0 < consecutive_failures (eb_circuit b) then b\<lparr>eb_circuit := circuit_default\<rparr> else b)"

section \<open>Side channels\<close>

definition ingest_body :: "string \<Rightarrow> int \<Rightarrow> json \<Rightarrow> json" where
  "ingest_body task_id seq event =
     JObject [(''taskId'', JString task_id), (''seq'', JInt seq), (''event'', event)]"

definition spawn_ingest :: "int \<Rightarrow> string \<Rightarrow> int \<Rightarrow> json \<Rightarrow> event_bus \<Rightarrow> event_bus" where
  "spawn_ingest now task_id seq event b =
     (case eb_ingest b of
        None \<Rightarrow> b
      | Some ing \<Rightarrow>
          (case circuit_allows now b of
             (False, b) \<Rightarrow> b
           | (True, b) \<Rightarrow> b\<lparr>eb_spawned := eb_spawned b @ [Ingest_Post ing (ingest_body task_id seq event)]\<rparr>))"

text \<open>The body of the spawned ingest task: up to five attempts; the reply to attempt \<open>n\<close> is \<open>ok n\<close>.
  The first component is the list of the pauses, in milliseconds.\<close>

definition ingest_backoff :: "nat \<Rightarrow> nat" where
  "ingest_backoff attempt = min (1000 * 2 ^ attempt) 30000"

fun ingest_loop :: "nat \<Rightarrow> nat \<Rightarrow> (nat \<Rightarrow> bool) \<Rightarrow> event_bus \<Rightarrow> nat list \<times> bool \<times> event_bus" where
  "ingest_loop 0 attempt ok b = ([], False, b)"
| "ingest_loop (Suc left) attempt ok b =
     (let b = b\<lparr>eb_ingest_attempts := eb_ingest_attempts b + 1\<rparr> in
      if ok attempt
      then let b = record_success b in ([], True, b\<lparr>eb_ingest_successes := eb_ingest_successes b + 1\<rparr>)
      else (case ingest_loop left (Suc attempt) ok b of
              (pauses, delivered, b) \<Rightarrow> (ingest_backoff attempt # pauses, delivered, b)))"

definition ingest_task :: "(nat \<Rightarrow> bool) \<Rightarrow> int \<Rightarrow> event_bus \<Rightarrow> event_bus" where
  "ingest_task ok now b =
     (case ingest_loop 5 0 ok b of
        (pauses, True, b) \<Rightarrow> b
      | (pauses, False, b) \<Rightarrow>
          let b = record_failure now b in b\<lparr>eb_ingest_failures := eb_ingest_failures b + 1\<rparr>)"

definition event_log_detail :: "string \<Rightarrow> json \<Rightarrow> string" where
  "event_log_detail kind event =
     (if kind = ''status'' then
        '' status='' @ (case get_str event ''status'' of Some s \<Rightarrow> s | None \<Rightarrow> ''?'')
      else if kind = ''error'' then
        '' message='' @ take_chars 200 (case get_str event ''message'' of Some s \<Rightarrow> s | None \<Rightarrow> [])
      else if kind = ''done'' then
        '' exitReason='' @ (case get_str event ''exitReason'' of Some s \<Rightarrow> s | None \<Rightarrow> ''?'')
      else [])"

definition spawn_log_sink ::
  "string \<Rightarrow> string option \<Rightarrow> string \<Rightarrow> int \<Rightarrow> string \<Rightarrow> json \<Rightarrow> event_bus \<Rightarrow> event_bus" where
  "spawn_log_sink timestamp thread_id task_id seq kind event b =
     (let dir = (case thread_id of Some t \<Rightarrow> eb_log_dir b @ ''/'' @ t | None \<Rightarrow> eb_log_dir b);
          line = ''['' @ timestamp @ ''] task='' @ task_id @ '' seq='' @ show_int seq @ '' kind='' @ kind
                 @ event_log_detail kind event @ [CHR 0x0A]
      in b\<lparr>eb_spawned := eb_spawned b @ [Log_Line dir line]\<rparr>)"

text \<open>The body of the spawned log task: creating the directory, opening the file, appending the line;
  the first of them that fails counts and ends the task.\<close>

definition log_task :: "bool \<Rightarrow> bool \<Rightarrow> bool \<Rightarrow> event_bus \<Rightarrow> event_bus" where
  "log_task created opened written b =
     (if created \<and> opened \<and> written then b
      else b\<lparr>eb_log_write_failures := eb_log_write_failures b + 1\<rparr>)"

definition spawn_nats ::
  "string option \<Rightarrow> string option \<Rightarrow> string \<Rightarrow> int \<Rightarrow> json \<Rightarrow> event_bus \<Rightarrow> event_bus" where
  "spawn_nats thread_id user_id task_id seq event b =
     (let body = JObject [(''taskId'', JString task_id), (''threadId'', json_opt thread_id),
                          (''userId'', json_opt user_id), (''seq'', JInt seq), (''event'', event)];
          kind = (case get_str event ''kind'' of Some k \<Rightarrow> k | None \<Rightarrow> ''event'');
          key = ''agent-task:'' @ task_id @ '':seq:'' @ show_int seq
      in b\<lparr>eb_spawned := eb_spawned b @ [Nats_Event (eb_subject b) (''execution.'' @ kind) body key]\<rparr>)"

section \<open>Emitting and subscribing\<close>

definition new_channel :: task_channel where
  "new_channel = \<lparr>ch_history = [], ch_seqs = {}, ch_sent = [], ch_done = False\<rparr>"

definition event_kind :: "json \<Rightarrow> string" where
  "event_kind event = (case get_str event ''kind'' of Some k \<Rightarrow> k | None \<Rightarrow> [])"

definition push_event :: "stored_event \<Rightarrow> task_channel \<Rightarrow> task_channel" where
  "push_event st ch =
     (let h = ch_history ch @ [st];
          h = (if replay_cap < length h then drop (length h - replay_cap) h else h)
      in ch\<lparr>ch_seqs := insert (st_seq st) (ch_seqs ch), ch_history := h, ch_sent := ch_sent ch @ [st],
            ch_done := (if event_kind (st_event st) = ''done'' then True else ch_done ch)\<rparr>)"

definition emit :: "(string \<Rightarrow> string) \<Rightarrow> int \<Rightarrow> string \<Rightarrow> bus_event \<Rightarrow> event_bus \<Rightarrow> event_bus" where
  "emit clean now timestamp ev b =
     (let event = sanitize_value clean (be_event ev);
          st = \<lparr>st_seq = be_seq ev, st_event = event\<rparr>;
          kind = event_kind event;
          ch = (case eb_tasks b (be_task_id ev) of Some ch \<Rightarrow> ch | None \<Rightarrow> new_channel)
      in if be_seq ev \<in> ch_seqs ch then b\<lparr>eb_tasks := (eb_tasks b)(be_task_id ev \<mapsto> ch)\<rparr>
         else
           let b = b\<lparr>eb_tasks := (eb_tasks b)(be_task_id ev \<mapsto> push_event st ch),
                     eb_emitted := eb_emitted b + 1\<rparr>;
               b = spawn_ingest now (be_task_id ev) (be_seq ev) event b;
               b = spawn_log_sink timestamp (be_thread_id ev) (be_task_id ev) (be_seq ev) kind event b
           in spawn_nats (be_thread_id ev) (be_user_id ev) (be_task_id ev) (be_seq ev) event b)"

text \<open>The replay snapshot, the position of the new receiver, and the done flag.\<close>

definition subscribe :: "string \<Rightarrow> int \<Rightarrow> event_bus \<Rightarrow> (stored_event list \<times> nat \<times> bool) option" where
  "subscribe task_id after b =
     (case eb_tasks b task_id of
        None \<Rightarrow> None
      | Some ch \<Rightarrow>
          Some (filter (\<lambda>s. after < st_seq s) (ch_history ch), length (ch_sent ch), ch_done ch))"

definition task_exists :: "string \<Rightarrow> event_bus \<Rightarrow> bool" where
  "task_exists task_id b \<longleftrightarrow> eb_tasks b task_id \<noteq> None"

definition gc_task :: "string \<Rightarrow> event_bus \<Rightarrow> event_bus" where
  "gc_task task_id b = b\<lparr>eb_tasks := (eb_tasks b)(task_id := None)\<rparr>"

definition metrics_text :: "event_bus \<Rightarrow> string \<Rightarrow> string" where
  "metrics_text b nats_text =
     (let nl = [CHR 0x0A];
          count = (\<lambda>v :: u64. digits (unat v));
          counter = (\<lambda>name v. ''# TYPE fiducia_agent_'' @ name @ '' counter'' @ nl
                       @ ''fiducia_agent_'' @ name @ '' '' @ v @ nl)
      in ''# HELP fiducia_agent_events_emitted_total Events accepted by the local event bus.'' @ nl
       @ counter ''events_emitted_total'' (count (eb_emitted b))
       @ ''# HELP fiducia_agent_ingest_attempts_total Event-ingest side-channel requests started.'' @ nl
       @ counter ''ingest_attempts_total'' (count (eb_ingest_attempts b))
       @ counter ''ingest_successes_total'' (count (eb_ingest_successes b))
       @ counter ''ingest_failures_total'' (count (eb_ingest_failures b))
       @ counter ''log_write_failures_total'' (count (eb_log_write_failures b))
       @ ''# TYPE fiducia_agent_ingest_circuit_open gauge'' @ nl
       @ ''fiducia_agent_ingest_circuit_open '' @ (if is_open (eb_circuit b) then ''1'' else ''0'') @ nl
       @ nats_text)"

section \<open>Runs\<close>

datatype bus_op =
    Emit bus_event int string
  | Ingest_Runs "nat \<Rightarrow> bool" int
  | Log_Runs bool bool bool
  | Gc string

fun bus_step :: "(string \<Rightarrow> string) \<Rightarrow> event_bus \<Rightarrow> bus_op \<Rightarrow> event_bus" where
  "bus_step clean b (Emit ev now ts) = emit clean now ts ev b"
| "bus_step clean b (Ingest_Runs ok now) = ingest_task ok now b"
| "bus_step clean b (Log_Runs created opened written) = log_task created opened written b"
| "bus_step clean b (Gc t) = gc_task t b"

end
