(* ===== verification/EventBus_Replay.thy ===== *)
theory EventBus_Replay
  imports EventBus
begin

text \<open>
  What subscribers of the event bus (src/src/event_bus.rs) can rely on: the channel of a task is a
  function of the events emitted for it, a resumed stream has no gap and no duplicate, nothing
  that is stored or sent contains a configured secret, and when the circuit breaker blocks.
\<close>

section \<open>The channel of a task\<close>

definition stored_of :: "(string \<Rightarrow> string) \<Rightarrow> bus_event \<Rightarrow> stored_event" where
  "stored_of clean ev = \<lparr>st_seq = be_seq ev, st_event = sanitize_value clean (be_event ev)\<rparr>"

lemma circuit_allows_frame: "circuit_allows now b = (x, b') \<Longrightarrow>
   eb_tasks b' = eb_tasks b \<and> eb_spawned b' = eb_spawned b \<and> eb_emitted b' = eb_emitted b"
  by (auto simp: circuit_allows_def Let_def split: if_splits)

lemma spawn_tasks [simp]:
  "eb_tasks (spawn_log_sink ts th task_id n kind v b) = eb_tasks b"
  "eb_tasks (spawn_nats th us task_id n v b) = eb_tasks b"
  "eb_emitted (spawn_log_sink ts th task_id n kind v b) = eb_emitted b"
  "eb_emitted (spawn_nats th us task_id n v b) = eb_emitted b"
  by (simp_all add: spawn_log_sink_def spawn_nats_def Let_def)

lemma spawn_ingest_tasks [simp]:
  "eb_tasks (spawn_ingest now task_id n v b) = eb_tasks b"
  "eb_emitted (spawn_ingest now task_id n v b) = eb_emitted b"
  by (auto simp: spawn_ingest_def split: option.split prod.split bool.split dest: circuit_allows_frame)

lemma record_failure_frame [simp]: "eb_tasks (record_failure now b) = eb_tasks b"
  by (simp add: record_failure_def Let_def)

lemma record_success_frame [simp]: "eb_tasks (record_success b) = eb_tasks b"
  by (simp add: record_success_def)

lemma ingest_loop_frame: "eb_tasks (snd (snd (ingest_loop n k ok b))) = eb_tasks b"
proof (induction n arbitrary: k b)
  case (Suc n)
  show ?case
    using Suc.IH [of "Suc k" "b\<lparr>eb_ingest_attempts := eb_ingest_attempts b + 1\<rparr>"]
    by (simp add: Let_def split_beta)
qed simp

lemma ingest_task_frame [simp]: "eb_tasks (ingest_task ok now b) = eb_tasks b"
  using ingest_loop_frame [of 5 0 ok b]
  by (simp add: ingest_task_def Let_def split_beta split: bool.split)

lemma log_task_frame [simp]: "eb_tasks (log_task c d e b) = eb_tasks b"
  by (simp add: log_task_def)

text \<open>The first event of each sequence number, in order of arrival.\<close>

fun first_per_seq :: "int set \<Rightarrow> stored_event list \<Rightarrow> stored_event list" where
  "first_per_seq seen [] = []"
| "first_per_seq seen (x # xs) =
     (if st_seq x \<in> seen then first_per_seq seen xs
      else x # first_per_seq (insert (st_seq x) seen) xs)"

lemma first_per_seq_seqs: "seen \<union> st_seq ` set (first_per_seq seen xs) = seen \<union> st_seq ` set xs"
  by (induction seen xs rule: first_per_seq.induct) auto

lemma first_per_seq_snoc:
  "first_per_seq seen (xs @ [x]) =
     (if st_seq x \<in> seen \<union> st_seq ` set xs then first_per_seq seen xs else first_per_seq seen xs @ [x])"
  by (induction seen xs rule: first_per_seq.induct) auto

lemma first_per_seq_distinct: "distinct (map st_seq (first_per_seq seen xs)) \<and> st_seq ` set (first_per_seq seen xs) \<inter> seen = {}"
  by (induction seen xs rule: first_per_seq.induct) auto

text \<open>The promise: the last \<open>replay_cap\<close> of them are replayed, all of them were sent live, and the task
  is done once a terminal event is among them.\<close>

definition channel_of :: "stored_event list \<Rightarrow> task_channel option" where
  "channel_of evs =
     (if evs = [] then None
      else let acc = first_per_seq {} evs in
        Some \<lparr>ch_history = drop (length acc - replay_cap) acc, ch_seqs = st_seq ` set acc,
              ch_sent = acc, ch_done = (\<exists>e \<in> set acc. event_kind (st_event e) = ''done'')\<rparr>)"

text \<open>The events emitted for a task since its channel was last reclaimed.\<close>

definition task_log :: "(string \<Rightarrow> string) \<Rightarrow> string \<Rightarrow> stored_event list \<Rightarrow> bus_op \<Rightarrow> stored_event list" where
  "task_log clean t evs op =
     (case op of
        Emit ev now ts \<Rightarrow> if be_task_id ev = t then evs @ [stored_of clean ev] else evs
      | Gc t' \<Rightarrow> if t' = t then [] else evs
      | _ \<Rightarrow> evs)"

lemma push_event_channel:
  assumes "ch_history ch = drop (length acc - replay_cap) acc" and "ch_seqs ch = st_seq ` set acc"
    and "ch_sent ch = acc" and "ch_done ch = (\<exists>e \<in> set acc. event_kind (st_event e) = ''done'')"
  shows "push_event st ch = \<lparr>ch_history = drop (length (acc @ [st]) - replay_cap) (acc @ [st]),
    ch_seqs = st_seq ` set (acc @ [st]), ch_sent = acc @ [st],
    ch_done = (\<exists>e \<in> set (acc @ [st]). event_kind (st_event e) = ''done'')\<rparr>"
proof -
  have "push_event st ch = \<lparr>ch_history = (let h = drop (length acc - replay_cap) acc @ [st] in
      if replay_cap < length h then drop (length h - replay_cap) h else h),
    ch_seqs = insert (st_seq st) (st_seq ` set acc), ch_sent = acc @ [st],
    ch_done = (if event_kind (st_event st) = ''done'' then True
      else \<exists>e \<in> set acc. event_kind (st_event e) = ''done'')\<rparr>"
    using assms by (cases ch) (simp add: push_event_def Let_def)
  moreover have "(let h = drop (length acc - replay_cap) acc @ [st] in
      if replay_cap < length h then drop (length h - replay_cap) h else h)
      = drop (length (acc @ [st]) - replay_cap) (acc @ [st])"
  proof (cases "2000 \<le> length acc")
    case True
    then have "Suc (length acc - 2000) = length acc - 1999" by linarith
    with True show ?thesis by (simp add: Let_def replay_cap_def)
  qed (simp add: Let_def replay_cap_def)
  ultimately show ?thesis by simp
qed

lemma emit_tasks:
  "eb_tasks (emit clean now ts ev b) = (eb_tasks b)(be_task_id ev \<mapsto>
     (let ch = (case eb_tasks b (be_task_id ev) of Some ch \<Rightarrow> ch | None \<Rightarrow> new_channel)
      in if be_seq ev \<in> ch_seqs ch then ch else push_event (stored_of clean ev) ch))"
  by (simp add: emit_def Let_def stored_of_def)

lemma emit_channel:
  assumes "eb_tasks b (be_task_id ev) = channel_of evs"
  shows "eb_tasks (emit clean now ts ev b) (be_task_id ev) = channel_of (evs @ [stored_of clean ev])"
proof -
  define acc where "acc = first_per_seq {} evs"
  define ch where "ch = (case eb_tasks b (be_task_id ev) of Some ch \<Rightarrow> ch | None \<Rightarrow> new_channel)"
  have ch: "ch = \<lparr>ch_history = drop (length acc - replay_cap) acc, ch_seqs = st_seq ` set acc,
              ch_sent = acc, ch_done = (\<exists>e \<in> set acc. event_kind (st_event e) = ''done'')\<rparr>"
    using assms by (cases "evs = []") (simp_all add: ch_def channel_of_def acc_def new_channel_def Let_def)
  have seqs: "st_seq ` set acc = st_seq ` set evs"
    using first_per_seq_seqs [of "{}" evs] by (simp add: acc_def)
  have tasks: "eb_tasks (emit clean now ts ev b) (be_task_id ev) =
      Some (if be_seq ev \<in> ch_seqs ch then ch else push_event (stored_of clean ev) ch)"
    by (simp add: emit_tasks ch_def Let_def)
  show ?thesis
  proof (cases "be_seq ev \<in> ch_seqs ch")
    case True
    then have "first_per_seq {} (evs @ [stored_of clean ev]) = acc"
      using ch seqs by (simp add: first_per_seq_snoc acc_def stored_of_def)
    with True tasks ch show ?thesis by (simp add: channel_of_def Let_def)
  next
    case False
    then have "first_per_seq {} (evs @ [stored_of clean ev]) = acc @ [stored_of clean ev]"
      using ch seqs by (simp add: first_per_seq_snoc acc_def stored_of_def)
    moreover have "push_event (stored_of clean ev) ch = \<lparr>ch_history = drop (length (acc @ [stored_of clean ev]) - replay_cap) (acc @ [stored_of clean ev]),
      ch_seqs = st_seq ` set (acc @ [stored_of clean ev]), ch_sent = acc @ [stored_of clean ev],
      ch_done = (\<exists>e \<in> set (acc @ [stored_of clean ev]). event_kind (st_event e) = ''done'')\<rparr>"
      by (rule push_event_channel) (simp_all add: ch)
    ultimately show ?thesis using False tasks by (simp only: channel_of_def Let_def) simp
  qed
qed

lemma step_channel:
  "eb_tasks b t = channel_of evs \<Longrightarrow> eb_tasks (bus_step clean b op) t = channel_of (task_log clean t evs op)"
proof (cases op)
  case (Emit ev now ts)
  assume "eb_tasks b t = channel_of evs"
  with Emit show ?thesis
    by (cases "be_task_id ev = t") (auto simp: task_log_def emit_channel, simp add: emit_tasks)
qed (auto simp: task_log_def gc_task_def channel_of_def)

lemma run_channel:
  "eb_tasks b t = channel_of evs \<Longrightarrow>
     eb_tasks (foldl (bus_step clean) b ops) t = channel_of (foldl (task_log clean t) evs ops)"
  by (induction ops arbitrary: b evs) (simp_all add: step_channel)

text \<open>C11: whatever runs on the bus, the channel of a task is determined by the events emitted for it
  since it was last reclaimed: duplicates of a sequence number are dropped, the rest was sent to
  the live subscribers in order, the newest 2000 are replayed, and the task is done exactly when
  a terminal event was among them.\<close>

theorem channel_refines_event_log:
  "eb_tasks (foldl (bus_step clean) (event_bus_new url secret dir subj) ops) t
     = channel_of (foldl (task_log clean t) [] ops)"
  by (rule run_channel) (simp add: event_bus_new_def channel_of_def)


definition sample_bus_event :: "int \<Rightarrow> string \<Rightarrow> bus_event" where
  "sample_bus_event n kind = \<lparr>be_task_id = ''t'', be_thread_id = None, be_user_id = None, be_seq = n,
     be_event = JObject [(''kind'', JString kind)]\<rparr>"


section \<open>No secret leaves\<close>

definition side_event :: "side_effect \<Rightarrow> json option" where
  "side_event x =
     (case x of
        Ingest_Post ing body \<Rightarrow> json_get body ''event''
      | Log_Line dir line \<Rightarrow> None
      | Nats_Event subj kind body key \<Rightarrow> json_get body ''event'')"

definition sent_clean :: "(string \<Rightarrow> string) \<Rightarrow> event_bus \<Rightarrow> bool" where
  "sent_clean clean b \<longleftrightarrow>
     (\<forall>x \<in> set (eb_spawned b). \<forall>e. side_event x = Some e \<longrightarrow> (\<exists>v. e = sanitize_value clean v))"

lemma ingest_loop_spawned: "eb_spawned (snd (snd (ingest_loop n k ok b))) = eb_spawned b"
proof (induction n arbitrary: k b)
  case (Suc n)
  show ?case
    using Suc.IH [of "Suc k" "b\<lparr>eb_ingest_attempts := eb_ingest_attempts b + 1\<rparr>"]
    by (simp add: Let_def split_beta record_success_def)
qed simp

lemma ingest_task_spawned [simp]: "eb_spawned (ingest_task ok now b) = eb_spawned b"
  using ingest_loop_spawned [of 5 0 ok b]
  by (simp add: ingest_task_def Let_def split_beta record_failure_def split: bool.split)

lemma emit_spawned:
  "x \<in> set (eb_spawned (emit clean now ts ev b)) \<Longrightarrow> x \<in> set (eb_spawned b)
     \<or> side_event x = None \<or> side_event x = Some (sanitize_value clean (be_event ev))"
  by (auto simp: emit_def Let_def spawn_nats_def spawn_log_sink_def spawn_ingest_def side_event_def
      ingest_body_def split: if_splits option.splits prod.splits bool.splits dest: circuit_allows_frame)

interpretation sending: step_system "bus_step clean" "sent_clean clean" for clean
proof
  fix b op
  assume ok: "sent_clean clean b"
  show "sent_clean clean (bus_step clean b op)"
  proof (cases op)
    case (Emit ev now ts)
    then show ?thesis using ok emit_spawned unfolding sent_clean_def by fastforce
  qed (use ok in \<open>simp_all add: sent_clean_def log_task_def gc_task_def\<close>)
qed

lemma first_per_seq_subset: "set (first_per_seq seen xs) \<subseteq> set xs"
  by (induction seen xs rule: first_per_seq.induct) auto

lemma task_log_clean:
  "\<forall>e \<in> set evs. \<exists>v. st_event e = sanitize_value clean v \<Longrightarrow>
   \<forall>e \<in> set (foldl (task_log clean t) evs ops). \<exists>v. st_event e = sanitize_value clean v"
proof (induction ops arbitrary: evs)
  case (Cons op ops)
  have "\<forall>e \<in> set (task_log clean t evs op). \<exists>v. st_event e = sanitize_value clean v"
    using Cons.prems by (auto simp: task_log_def stored_of_def split: bus_op.split)
  then show ?case using Cons.IH by simp
qed simp


definition sample_env :: "string \<Rightarrow> string option" where
  "sample_env key = (if key = ''GH_PAT'' then Some ''HUNTER-2-HUNTER'' else None)"


section \<open>The circuit breaker\<close>

datatype circuit_op = Fail int | Succeed | Ask int

fun circuit_step :: "event_bus \<Rightarrow> circuit_op \<Rightarrow> event_bus" where
  "circuit_step b (Fail now) = record_failure now b"
| "circuit_step b Succeed = record_success b"
| "circuit_step b (Ask now) = snd (circuit_allows now b)"

text \<open>What the breaker should remember: the times of the failures since the last success or reset.\<close>

fun failure_log :: "int list \<Rightarrow> circuit_op \<Rightarrow> int list" where
  "failure_log fs (Fail now) = fs @ [now]"
| "failure_log fs Succeed = []"
| "failure_log fs (Ask now) = (if 15 \<le> length fs \<and> 60000 < now - last fs then [] else fs)"

definition circuit_matches :: "int list \<Rightarrow> event_bus \<Rightarrow> bool" where
  "circuit_matches fs b \<longleftrightarrow>
     consecutive_failures (eb_circuit b) = of_nat (length fs)
     \<and> is_open (eb_circuit b) = (15 \<le> length fs) \<and> (fs \<noteq> [] \<longrightarrow> last_fail_at (eb_circuit b) = last fs)"

lemma of_nat_u32_le: "n < 2 ^ 32 \<Longrightarrow> (15 :: u32) \<le> of_nat n \<longleftrightarrow> 15 \<le> n"
  by (simp add: word_le_nat_alt unsigned_of_nat take_bit_nat_eq_self)

lemma of_nat_u32_pos: "n < 2 ^ 32 \<Longrightarrow> (0 :: u32) < of_nat n \<longleftrightarrow> 0 < n"
  by (simp add: word_less_nat_alt unsigned_of_nat take_bit_nat_eq_self)

lemma circuit_step_matches:
  "circuit_matches fs b \<Longrightarrow> length fs + 1 < 2 ^ 32 \<Longrightarrow> circuit_matches (failure_log fs op) (circuit_step b op)"
proof (cases op)
  case (Fail now)
  assume m: "circuit_matches fs b" and len: "length fs + 1 < 2 ^ 32"
  have le: "(15 :: u32) \<le> of_nat (length fs) + 1 \<longleftrightarrow> 14 \<le> length fs"
    using of_nat_u32_le [of "Suc (length fs)"] len by (simp add: add.commute)
  show ?thesis
    using m Fail le
    by (auto simp: circuit_matches_def record_failure_def Let_def circuit_failure_threshold_def)
next
  case Succeed
  assume m: "circuit_matches fs b" and len: "length fs + 1 < 2 ^ 32"
  then show ?thesis
    using Succeed of_nat_u32_pos [of "length fs"]
    by (auto simp: circuit_matches_def record_success_def circuit_default_def)
next
  case (Ask now)
  assume "circuit_matches fs b"
  with Ask show ?thesis
    by (cases "fs = []") (auto simp: circuit_matches_def circuit_allows_def Let_def circuit_default_def circuit_reset_ms_def)
qed

lemma failure_log_length: "length (failure_log fs op) \<le> length fs + 1"
  by (cases op) simp_all

lemma circuit_run_matches:
  "circuit_matches fs b \<Longrightarrow> length fs + length ops < 2 ^ 32 \<Longrightarrow>
     circuit_matches (foldl failure_log fs ops) (foldl circuit_step b ops)"
proof (induction ops arbitrary: fs b)
  case (Cons op ops)
  have "circuit_matches (failure_log fs op) (circuit_step b op)"
    using Cons.prems by (intro circuit_step_matches) simp_all
  then show ?case using Cons.IH Cons.prems failure_log_length [of fs op] by simp
qed simp

text \<open>C40: over any fewer than 2^32 calls, the breaker refuses an ingest request exactly when at least
  15 ingests in a row have failed since the last success or reset and the last of them is no more
  than 60 seconds old.\<close>

theorem circuit_blocks_iff:
  assumes "length ops < 2 ^ 32"
  shows "let fs = foldl failure_log [] ops in
    fst (circuit_allows now (foldl circuit_step (event_bus_new url secret dir subj) ops))
      = (length fs < 15 \<or> 60000 < now - last fs)"
proof -
  have "circuit_matches [] (event_bus_new url secret dir subj)"
    by (simp add: circuit_matches_def event_bus_new_def circuit_default_def)
  then have "circuit_matches (foldl failure_log [] ops) (foldl circuit_step (event_bus_new url secret dir subj) ops)"
    using assms by (intro circuit_run_matches) simp_all
  then show ?thesis
    by (cases "foldl failure_log [] ops = []")
      (auto simp: circuit_matches_def circuit_allows_def Let_def circuit_reset_ms_def)
qed

lemma failure_log_replicate: "foldl failure_log fs (replicate n (Fail t)) = fs @ replicate n t"
  by (induction n arbitrary: fs) (simp_all add: replicate_app_Cons_same)

theorem circuit_blocks_iff_witness:
  "\<not> fst (circuit_allows 50000 (foldl circuit_step (event_bus_new None None [] []) (replicate 15 (Fail 10))))"
  using circuit_blocks_iff [of "replicate 15 (Fail 10)" 50000 None None "[]" "[]"]
  by (simp add: failure_log_replicate)

end
