(* ===== verification/Agents.thy ===== *)
theory Agents
  imports Sanitize
begin

text \<open>
  The agent runners of src/src/agents.rs: the provider taxonomy, the command line and the
  environment of the child process, and how a run ends. What the child process does (its output
  lines in the order they arrive, and how it ends) is an argument.
\<close>

section \<open>Providers\<close>

datatype agent_provider =
    ClaudeCli
  | ClaudeSdk
  | GenericAiSdk
  | GeminiSdk
  | OpencodeAiSdk
  | OpenaiCodexCli
  | OpenaiSdk

instantiation agent_provider :: enum
begin

definition enum_agent_provider :: "agent_provider list" where
  "enum_agent_provider =
     [ClaudeCli, ClaudeSdk, GenericAiSdk, GeminiSdk, OpencodeAiSdk, OpenaiCodexCli, OpenaiSdk]"

definition enum_all_agent_provider :: "(agent_provider \<Rightarrow> bool) \<Rightarrow> bool" where
  "enum_all_agent_provider P = list_all P Enum.enum"

definition enum_ex_agent_provider :: "(agent_provider \<Rightarrow> bool) \<Rightarrow> bool" where
  "enum_ex_agent_provider P = list_ex P Enum.enum"

instance
proof
  have univ: "(UNIV :: agent_provider set) = set Enum.enum"
    unfolding enum_agent_provider_def by (auto intro: agent_provider.exhaust)
  then show "(UNIV :: agent_provider set) = set Enum.enum" .
  show "distinct (Enum.enum :: agent_provider list)"
    by (simp add: enum_agent_provider_def)
  show "Enum.enum_all P = Ball UNIV P" for P :: "agent_provider \<Rightarrow> bool"
    using univ by (auto simp: enum_all_agent_provider_def list_all_iff)
  show "Enum.enum_ex P = Bex UNIV P" for P :: "agent_provider \<Rightarrow> bool"
    using univ by (auto simp: enum_ex_agent_provider_def list_ex_iff)
qed

end

fun provider_as_str :: "agent_provider \<Rightarrow> string" where
  "provider_as_str ClaudeCli = ''claude-cli''"
| "provider_as_str ClaudeSdk = ''claude-sdk''"
| "provider_as_str GenericAiSdk = ''generic-ai-sdk''"
| "provider_as_str GeminiSdk = ''gemini-sdk''"
| "provider_as_str OpencodeAiSdk = ''opencode-ai-sdk''"
| "provider_as_str OpenaiCodexCli = ''openai-codex-cli''"
| "provider_as_str OpenaiSdk = ''openai-sdk''"

definition provider_parse :: "string \<Rightarrow> agent_provider option" where
  "provider_parse value =
     (if value = ''claude-cli'' then Some ClaudeCli
      else if value = ''claude-sdk'' then Some ClaudeSdk
      else if value = ''generic-ai-sdk'' then Some GenericAiSdk
      else if value = ''gemini-sdk'' then Some GeminiSdk
      else if value = ''opencode-ai-sdk'' then Some OpencodeAiSdk
      else if value = ''openai-codex-cli'' then Some OpenaiCodexCli
      else if value = ''openai-sdk'' then Some OpenaiSdk
      else None)"

definition from_env_default :: "(string \<Rightarrow> string option) \<Rightarrow> agent_provider" where
  "from_env_default env =
     (case env ''AGENT_PROVIDER'' of
        None \<Rightarrow> GenericAiSdk
      | Some v \<Rightarrow> (case provider_parse v of None \<Rightarrow> GenericAiSdk | Some p \<Rightarrow> p))"

definition display_name :: "agent_provider \<Rightarrow> string" where
  "display_name p =
     replace_char CHR ''-'' '' '' (replace_str ''-cli'' [] (replace_str ''-sdk'' [] (provider_as_str p)))"

definition can_edit_workspace :: "agent_provider \<Rightarrow> bool" where
  "can_edit_workspace p \<longleftrightarrow> p \<noteq> GeminiSdk"

definition can_use_shell :: "agent_provider \<Rightarrow> bool" where
  "can_use_shell p \<longleftrightarrow> p = OpenaiSdk \<or> p = OpenaiCodexCli \<or> p = ClaudeSdk \<or> p = ClaudeCli"

definition resolve_agent_provider :: "string option \<Rightarrow> agent_provider \<Rightarrow> agent_provider" where
  "resolve_agent_provider per_task_override boot_default =
     (case per_task_override of
        None \<Rightarrow> boot_default
      | Some v \<Rightarrow> (case provider_parse v of None \<Rightarrow> boot_default | Some p \<Rightarrow> p))"

section \<open>The child process\<close>

record cli_runner =
  cr_provider :: agent_provider
  cr_program :: string
  cr_base_args :: "string list"

definition for_provider :: "(string \<Rightarrow> string option) \<Rightarrow> agent_provider \<Rightarrow> cli_runner" where
  "for_provider env p =
     (let (default_program, base_args) =
            (case p of
               ClaudeCli \<Rightarrow> (''claude'', [''-p'', ''--output-format'', ''stream-json'', ''--verbose''])
             | ClaudeSdk \<Rightarrow> (''claude'', [''-p'', ''--output-format'', ''stream-json'', ''--verbose''])
             | OpenaiCodexCli \<Rightarrow> (''codex'', [''exec'', ''--json''])
             | _ \<Rightarrow> (''opencode'', [''run'']));
          env_key = ''AGENT_CLI_'' @ replace_char CHR ''-'' ''_'' (ascii_upper (provider_as_str p));
          program = (case env env_key of Some v \<Rightarrow> v | None \<Rightarrow> default_program)
      in \<lparr>cr_provider = p, cr_program = program, cr_base_args = base_args\<rparr>)"

definition base_env_keys :: "string list" where
  "base_env_keys = [''PATH'', ''HOME'', ''LANG'', ''TERM'']"

fun forward_keys :: "agent_provider \<Rightarrow> string list" where
  "forward_keys ClaudeCli = [''ANTHROPIC_API_KEY'', ''ANTHROPIC_MODEL'', ''ANTHROPIC_BASE_URL'']"
| "forward_keys ClaudeSdk = [''ANTHROPIC_API_KEY'', ''ANTHROPIC_MODEL'', ''ANTHROPIC_BASE_URL'']"
| "forward_keys GeminiSdk = [''GEMINI_API_KEY'', ''GEMINI_MODEL'', ''GOOGLE_API_KEY'']"
| "forward_keys OpenaiCodexCli = [''OPENAI_API_KEY'', ''OPENAI_MODEL'', ''OPENAI_BASE_URL'', ''CODEX_MODEL'']"
| "forward_keys OpenaiSdk = [''OPENAI_API_KEY'', ''OPENAI_MODEL'', ''OPENAI_BASE_URL'', ''CODEX_MODEL'']"
| "forward_keys OpencodeAiSdk = [''OPENCODE_API_KEY'', ''OPENCODE_MODELS'', ''OPENCODE_MODEL'']"
| "forward_keys GenericAiSdk = [''GENERIC_AI_SDK_MODELS'', ''OPENAI_API_KEY'', ''OPENAI_BASE_URL'']"

text \<open>One loop of \<open>build_agent_env\<close>: a variable that is set is copied.\<close>

definition forward_env ::
  "(string \<Rightarrow> string option) \<Rightarrow> string list \<Rightarrow> (string \<Rightarrow> string option) \<Rightarrow> string \<Rightarrow> string option" where
  "forward_env env keys m =
     fold (\<lambda>key m. case env key of Some v \<Rightarrow> m(key \<mapsto> v) | None \<Rightarrow> m) keys m"

definition build_agent_env :: "(string \<Rightarrow> string option) \<Rightarrow> agent_provider \<Rightarrow> string \<Rightarrow> string option" where
  "build_agent_env env p = forward_env env (forward_keys p) (forward_env env base_env_keys Map.empty)"

text \<open>The command of a run: program, arguments, working directory, and the whole environment of the
  child, which is cleared first.\<close>

record command =
  cmd_program :: string
  cmd_args :: "string list"
  cmd_dir :: string
  cmd_env :: "string \<Rightarrow> string option"

definition cli_command :: "cli_runner \<Rightarrow> string \<Rightarrow> string \<Rightarrow> (string \<Rightarrow> string option) \<Rightarrow> command" where
  "cli_command r prompt cwd env =
     \<lparr>cmd_program = cr_program r, cmd_args = cr_base_args r @ [prompt], cmd_dir = cwd, cmd_env = env\<rparr>"

datatype runner_event = Claude json | Stderr string | Error string

datatype output_line = Out string | Err string

datatype child_end =
    Exited int
  | Signalled
  | Wait_Failed string
  | Timed_Out
  | Cancelled

text \<open>What the two reader tasks emit for a line; \<open>parse\<close> is \<open>serde_json::from_str\<close>.\<close>

fun line_event :: "(string \<Rightarrow> json option) \<Rightarrow> output_line \<Rightarrow> runner_event list" where
  "line_event parse (Out line) =
     (if trim line = [] then []
      else [Claude (case parse line of Some v \<Rightarrow> v | None \<Rightarrow> JObject [(''text'', JString line)])])"
| "line_event parse (Err line) = [Stderr line]"

fun child_result :: "string \<Rightarrow> string \<Rightarrow> child_end \<Rightarrow> string + unit" where
  "child_result program limit (Exited n) =
     (if n = 0 then Inr () else Inl (program @ '' exited with status '' @ show_int n))"
| "child_result program limit Signalled = Inl (program @ '' exited with status signal'')"
| "child_result program limit (Wait_Failed e) = Inl (''agent process error: '' @ e)"
| "child_result program limit Timed_Out = Inl (''agent run exceeded '' @ limit)"
| "child_result program limit Cancelled = Inl ''cancelled''"

text \<open>\<open>CliRunner::run\<close>: a spawn that fails emits nothing; otherwise the lines that arrived are emitted,
  and the end of the child decides the result.\<close>

definition cli_run ::
  "(string \<Rightarrow> json option) \<Rightarrow> string \<Rightarrow> cli_runner \<Rightarrow> string option \<Rightarrow> output_line list \<Rightarrow> child_end \<Rightarrow>
     runner_event list \<times> (string + unit)" where
  "cli_run parse limit r spawn_error arrived ending =
     (case spawn_error of
        Some e \<Rightarrow> ([], Inl (''failed to spawn '' @ cr_program r @ '': '' @ e))
      | None \<Rightarrow> (concat (map (line_event parse) arrived), child_result (cr_program r) limit ending))"

section \<open>Facts\<close>

text \<open>Parsing inverts printing of provider names in both directions, so a per-task override takes
  effect exactly when it is one of the seven names.\<close>

theorem provider_names_roundtrip:
  "((provider_parse s = Some p) = (s = provider_as_str p))
   \<and> resolve_agent_provider (Some s) boot_default =
       (if s \<in> range provider_as_str then the (provider_parse s) else boot_default)"
proof -
  have iff: "(provider_parse s = Some p) = (s = provider_as_str p)" for s p
    by (cases p) (auto simp: provider_parse_def)
  show ?thesis
    using iff [of s] by (cases "provider_parse s") (auto simp: resolve_agent_provider_def)
qed

lemma forward_env_get:
  "forward_env env keys m k = (if k \<in> set keys \<and> env k \<noteq> None then env k else m k)"
  unfolding forward_env_def
  by (induction keys arbitrary: m) (auto split: option.splits)

lemma build_agent_env_get:
  "build_agent_env env p k = (if k \<in> set (base_env_keys @ forward_keys p) then env k else None)"
  unfolding build_agent_env_def forward_env_get by auto

text \<open>The credentials a provider is meant to have.\<close>

fun own_credentials :: "agent_provider \<Rightarrow> string set" where
  "own_credentials ClaudeCli = {''ANTHROPIC_API_KEY''}"
| "own_credentials ClaudeSdk = {''ANTHROPIC_API_KEY''}"
| "own_credentials GeminiSdk = {''GEMINI_API_KEY'', ''GOOGLE_API_KEY''}"
| "own_credentials OpenaiCodexCli = {''OPENAI_API_KEY''}"
| "own_credentials OpenaiSdk = {''OPENAI_API_KEY''}"
| "own_credentials OpencodeAiSdk = {''OPENCODE_API_KEY''}"
| "own_credentials GenericAiSdk = {''OPENAI_API_KEY''}"

lemma forwarded_secrets:
  "set secret_env_keys \<inter> set (base_env_keys @ forward_keys p) = own_credentials p"
  by (cases p) (simp_all add: secret_env_keys_def base_env_keys_def insert_commute)

text \<open>C29: the environment of an agent process has nothing but the listed variables with their values
  in the parent, and of all the variables whose values the worker treats as secrets it has only
  the API keys of its own provider: no GitHub, AWS, control-plane or server secret.\<close>

theorem agent_env_is_isolated:
  assumes "cmd_env (cli_command r prompt cwd (build_agent_env env p)) k = Some v"
  shows "env k = Some v \<and> k \<in> set (base_env_keys @ forward_keys p)
    \<and> (k \<in> set secret_env_keys) = (k \<in> own_credentials p)"
proof -
  have "build_agent_env env p k = Some v" using assms by (simp add: cli_command_def)
  then have "k \<in> set (base_env_keys @ forward_keys p)" "env k = Some v"
    unfolding build_agent_env_get by (simp_all split: if_splits)
  with forwarded_secrets [of p] show ?thesis by blast
qed

theorem agent_env_is_isolated_witness:
  "(\<lambda>k. if k = ''PATH'' then Some ''/bin'' else None) ''PATH'' = Some ''/bin''
   \<and> ''PATH'' \<notin> set secret_env_keys"
proof -
  let ?env = "\<lambda>k. if k = ''PATH'' then Some ''/bin'' else None"
  have "cmd_env (cli_command (for_provider ?env ClaudeCli) [] [] (build_agent_env ?env ClaudeCli)) ''PATH'' = Some ''/bin''"
    by (simp add: cli_command_def build_agent_env_get base_env_keys_def)
  from agent_env_is_isolated [OF this] show ?thesis by simp
qed

end
