(* ===== verification/Config.thy ===== *)
theory Config
  imports Net Agents
begin

text \<open>
  Configuration from the environment (src/src/config.rs) and the startup authority policy. The
  environment is a function; \<open>EXECUTIONS_PROGRESS\<close>, a constant of the messaging crate, is an
  argument.
\<close>

section \<open>Reading the environment\<close>

datatype governance_mode = Governed | UngovernedLocalOnly

fun governance_as_str :: "governance_mode \<Rightarrow> string" where
  "governance_as_str Governed = ''governed''"
| "governance_as_str UngovernedLocalOnly = ''ungoverned-local-only''"

datatype bind_mode = Bind_Thread | Bind_Repo

definition normalized :: "string option \<Rightarrow> string option" where
  "normalized v =
     (case v of None \<Rightarrow> None | Some s \<Rightarrow> if trim s = [] then None else Some (trim s))"

definition env_opt :: "(string \<Rightarrow> string option) \<Rightarrow> string \<Rightarrow> string option" where
  "env_opt env key = normalized (env key)"

definition or_else :: "'a option \<Rightarrow> 'a option \<Rightarrow> 'a option" where
  "or_else a b = (case a of None \<Rightarrow> b | Some x \<Rightarrow> Some x)"

definition env_or :: "(string \<Rightarrow> string option) \<Rightarrow> string \<Rightarrow> string \<Rightarrow> string" where
  "env_or env key d = (case env_opt env key of None \<Rightarrow> d | Some v \<Rightarrow> v)"

text \<open>\<open>env_num\<close> at an unsigned type with largest value \<open>upper\<close>.\<close>

definition env_num :: "(string \<Rightarrow> string option) \<Rightarrow> nat \<Rightarrow> string \<Rightarrow> nat \<Rightarrow> nat" where
  "env_num env upper key d =
     (case env_opt env key of
        None \<Rightarrow> d
      | Some v \<Rightarrow> (case parse_uint upper v of None \<Rightarrow> d | Some n \<Rightarrow> n))"

definition u16_max :: nat where "u16_max = 2 ^ 16 - 1"
definition u32_max :: nat where "u32_max = 2 ^ 32 - 1"
definition u64_max :: nat where "u64_max = 2 ^ 64 - 1"

record config =
  cfg_host :: ip_addr
  cfg_port :: nat
  cfg_workspace_repo :: string
  cfg_repo_url :: "string option"
  cfg_thread_id :: "string option"
  cfg_thread_title :: "string option"
  cfg_worker_bind_mode :: bind_mode
  cfg_user_id :: "string option"
  cfg_outputs_dir :: string
  cfg_default_storage_provider :: string
  cfg_agent_run_timeout_ms :: nat
  cfg_base_branch :: string
  cfg_agent_branch_prefix :: string
  cfg_default_provider :: agent_provider
  cfg_server_auth_secret :: "string option"
  cfg_event_ingest_url :: "string option"
  cfg_event_ingest_secret :: "string option"
  cfg_nats_url :: "string option"
  cfg_nats_event_subject :: string
  cfg_nats_outbox_dir :: string
  cfg_nats_outbox_max_attempts :: nat
  cfg_control_plane_url :: "string option"
  cfg_ungoverned_local_only :: bool
  cfg_fiducia_node_url :: "string option"
  cfg_fiducia_node_internal_secret :: "string option"
  cfg_fiducia_node_org_id :: string
  cfg_control_plane_secret :: "string option"
  cfg_log_dir :: string
  cfg_processed_tasks_dir :: string
  cfg_idle_timeout_ms :: nat
  cfg_git_author_name :: string
  cfg_git_author_email :: string
  cfg_skip_boot_git_sync :: bool

definition from_env :: "string \<Rightarrow> (string \<Rightarrow> string option) \<Rightarrow> config" where
  "from_env executions_progress env =
     (let thread_id = or_else (env_opt env ''REMOTE_DEV_THREAD_ID'') (env_opt env ''THREAD_ID'');
          worker_bind_mode =
            (if env_opt env ''WORKER_BIND_MODE'' = Some ''thread'' then Bind_Thread
             else if env_opt env ''WORKER_BIND_MODE'' = Some ''repo'' then Bind_Repo
             else if thread_id \<noteq> None then Bind_Thread else Bind_Repo);
          log_dir = env_or env ''LOG_DIR'' ''/tmp/convos''
      in \<lparr> cfg_host = (case parse_ip (env_or env ''HOST'' ''0.0.0.0'') of
                          Some ip \<Rightarrow> ip | None \<Rightarrow> V4 0 0 0 0),
           cfg_port = env_num env u16_max ''PORT'' 8080,
           cfg_workspace_repo = env_or env ''WORKSPACE_REPO'' ''/home/node/workspace/repo'',
           cfg_repo_url = or_else (env_opt env ''DD_REPO_URL'') (env_opt env ''FIDUCIA_REPO_URL''),
           cfg_thread_id = thread_id,
           cfg_thread_title = or_else (env_opt env ''REMOTE_DEV_THREAD_TITLE'') (env_opt env ''THREAD_TITLE''),
           cfg_worker_bind_mode = worker_bind_mode,
           cfg_user_id = env_opt env ''USER_ID'',
           cfg_outputs_dir = env_or env ''OUTPUTS_DIR'' ''/home/node/workspace/outputs'',
           cfg_default_storage_provider = env_or env ''DEFAULT_STORAGE_PROVIDER'' ''local'',
           cfg_agent_run_timeout_ms = env_num env u64_max ''AGENT_RUN_TIMEOUT_MS'' (2 * 60 * 60000),
           cfg_base_branch = env_or env ''BASE_BRANCH'' ''dev'',
           cfg_agent_branch_prefix = env_or env ''AGENT_BRANCH_PREFIX'' ''agent/k8s/openai-5.5'',
           cfg_default_provider = from_env_default env,
           cfg_server_auth_secret = env_opt env ''SERVER_AUTH_SECRET'',
           cfg_event_ingest_url = env_opt env ''EVENT_INGEST_URL'',
           cfg_event_ingest_secret = env_opt env ''EVENT_INGEST_SECRET'',
           cfg_nats_url = env_opt env ''NATS_URL'',
           cfg_nats_event_subject = env_or env ''NATS_EVENT_SUBJECT'' executions_progress,
           cfg_nats_outbox_dir = (case env_opt env ''NATS_OUTBOX_DIR'' of
                                    Some d \<Rightarrow> d | None \<Rightarrow> log_dir @ ''/nats-outbox''),
           cfg_nats_outbox_max_attempts = env_num env u32_max ''NATS_OUTBOX_MAX_ATTEMPTS'' 100,
           cfg_control_plane_url = or_else (env_opt env ''CONTROL_PLANE_URL'') (env_opt env ''FIDUCIA_CONTROL_PLANE_URL''),
           cfg_ungoverned_local_only = (env_opt env ''FIDUCIA_UNGOVERNED_LOCAL_ONLY'' = Some ''true''),
           cfg_fiducia_node_url = env_opt env ''FIDUCIA_NODE_URL'',
           cfg_fiducia_node_internal_secret =
             or_else (env_opt env ''FIDUCIA_NODE_INTERNAL_SECRET'') (env_opt env ''FIDUCIA_INTERNAL_SECRET''),
           cfg_fiducia_node_org_id = env_or env ''FIDUCIA_NODE_ORG_ID'' ''fiducia-ai-control-plane'',
           cfg_control_plane_secret =
             or_else (env_opt env ''FIDUCIA_CONTROL_PLANE_SECRET'') (env_opt env ''FIDUCIA_INTERNAL_SECRET''),
           cfg_log_dir = log_dir,
           cfg_processed_tasks_dir = (case env_opt env ''PROCESSED_TASKS_DIR'' of
                                        Some d \<Rightarrow> d | None \<Rightarrow> log_dir @ ''/processed-tasks''),
           cfg_idle_timeout_ms = env_num env u64_max ''IDLE_TIMEOUT_MS'' (30 * 60 * 1000),
           cfg_git_author_name = env_or env ''GIT_AUTHOR_NAME'' ''Fiducia Agent'',
           cfg_git_author_email = env_or env ''GIT_AUTHOR_EMAIL'' ''agent@fiducia.cloud'',
           cfg_skip_boot_git_sync = (env_opt env ''SKIP_BOOT_GIT_SYNC'' = Some ''true'') \<rparr>)"

section \<open>The authority policy\<close>

definition resolve_governance_mode ::
  "string option \<Rightarrow> bool \<Rightarrow> ip_addr \<Rightarrow> string + governance_mode" where
  "resolve_governance_mode control_plane_url ungoverned_local_only host =
     (case (control_plane_url, ungoverned_local_only) of
        (Some _, False) \<Rightarrow> Inr Governed
      | (Some _, True) \<Rightarrow>
          Inl ''FIDUCIA_UNGOVERNED_LOCAL_ONLY must be unset when CONTROL_PLANE_URL is configured''
      | (None, True) \<Rightarrow>
          if ip_is_loopback host then Inr UngovernedLocalOnly
          else Inl ''FIDUCIA_UNGOVERNED_LOCAL_ONLY=true is restricted to local/test use and requires HOST to be a loopback address''
      | (None, False) \<Rightarrow>
          Inl ''CONTROL_PLANE_URL is required; for explicit local/test use only, bind HOST to a loopback address and set FIDUCIA_UNGOVERNED_LOCAL_ONLY=true'')"

definition governance_mode_of :: "config \<Rightarrow> string + governance_mode" where
  "governance_mode_of c =
     resolve_governance_mode (cfg_control_plane_url c) (cfg_ungoverned_local_only c) (cfg_host c)"

text \<open>A variable counts when it is set to something other than white space.\<close>

definition set_in :: "(string \<Rightarrow> string option) \<Rightarrow> string \<Rightarrow> bool" where
  "set_in env key \<longleftrightarrow> (\<exists>v. env key = Some v \<and> trim v \<noteq> [])"

lemma env_opt_None: "env_opt env key = None \<longleftrightarrow> \<not> set_in env key"
  by (auto simp: env_opt_def normalized_def set_in_def split: option.split)

lemma env_opt_Some: "env_opt env key = Some v \<longleftrightarrow> v \<noteq> [] \<and> (\<exists>w. env key = Some w \<and> trim w = v)"
  by (auto simp: env_opt_def normalized_def split: option.splits)

lemma or_else_None: "or_else a b = None \<longleftrightarrow> a = None \<and> b = None"
  by (auto simp: or_else_def split: option.split)

lemma any_address: "parse_ip ''0.0.0.0'' = Some (V4 0 0 0 0)"
  by (simp add: ip_eval)

text \<open>The worker runs without the control plane in exactly one case: the flag is spelled out, no
  control-plane address is set, and HOST is set to an address literal of the loopback interface.
  It runs governed exactly when an address is set and the flag is not; anything else does not
  start. In particular an unset or malformed HOST never opens the escape hatch.\<close>

theorem ungoverned_needs_loopback:
  "(governance_mode_of (from_env subj env) = Inr UngovernedLocalOnly) =
     (\<not> set_in env ''CONTROL_PLANE_URL'' \<and> \<not> set_in env ''FIDUCIA_CONTROL_PLANE_URL''
      \<and> (\<exists>w. env ''FIDUCIA_UNGOVERNED_LOCAL_ONLY'' = Some w \<and> trim w = ''true'')
      \<and> (\<exists>w ip. env ''HOST'' = Some w \<and> parse_ip (trim w) = Some ip \<and> ip_is_loopback ip))
   \<and> (governance_mode_of (from_env subj env) = Inr Governed) =
     ((set_in env ''CONTROL_PLANE_URL'' \<or> set_in env ''FIDUCIA_CONTROL_PLANE_URL'')
      \<and> \<not> (\<exists>w. env ''FIDUCIA_UNGOVERNED_LOCAL_ONLY'' = Some w \<and> trim w = ''true''))"
proof -
  define u where "u = or_else (env_opt env ''CONTROL_PLANE_URL'') (env_opt env ''FIDUCIA_CONTROL_PLANE_URL'')"
  define f where "f \<longleftrightarrow> env_opt env ''FIDUCIA_UNGOVERNED_LOCAL_ONLY'' = Some ''true''"
  define h where "h = (case parse_ip (env_or env ''HOST'' ''0.0.0.0'') of Some ip \<Rightarrow> ip | None \<Rightarrow> V4 0 0 0 0)"
  have mode: "governance_mode_of (from_env subj env) = resolve_governance_mode u f h"
    by (simp add: governance_mode_of_def from_env_def u_def f_def h_def Let_def)
  have u: "u = None \<longleftrightarrow> \<not> set_in env ''CONTROL_PLANE_URL'' \<and> \<not> set_in env ''FIDUCIA_CONTROL_PLANE_URL''"
    by (simp only: u_def or_else_None env_opt_None)
  have f: "f \<longleftrightarrow> (\<exists>w. env ''FIDUCIA_UNGOVERNED_LOCAL_ONLY'' = Some w \<and> trim w = ''true'')"
    by (auto simp: f_def env_opt_Some)
  have empty: "parse_ip [] = None" by (simp add: ip_eval)
  have h: "ip_is_loopback h \<longleftrightarrow> (\<exists>w ip. env ''HOST'' = Some w \<and> parse_ip (trim w) = Some ip \<and> ip_is_loopback ip)"
  proof (cases "env_opt env ''HOST''")
    case None
    then have "\<not> ip_is_loopback h" by (simp add: h_def env_or_def any_address)
    moreover have "\<not> set_in env ''HOST''" using None env_opt_None by blast
    ultimately show ?thesis using empty by (auto simp: set_in_def)
  next
    case (Some v)
    then obtain w where w: "env ''HOST'' = Some w" "trim w = v" by (auto simp: env_opt_Some)
    have "env_or env ''HOST'' ''0.0.0.0'' = v" using Some by (simp only: env_or_def option.case)
    then have "h = (case parse_ip v of Some ip \<Rightarrow> ip | None \<Rightarrow> V4 0 0 0 0)" by (simp only: h_def)
    with w show ?thesis by (cases "parse_ip v") simp_all
  qed
  have "(resolve_governance_mode u f h = Inr UngovernedLocalOnly) = (u = None \<and> f \<and> ip_is_loopback h)"
    and "(resolve_governance_mode u f h = Inr Governed) = (u \<noteq> None \<and> \<not> f)"
    by (cases u; cases f; simp add: resolve_governance_mode_def)+
  with mode u f h show ?thesis by simp
qed

end
