(* ===== verification/ControlPlane.thy ===== *)
theory ControlPlane
  imports Config
begin

text \<open>
  The client of the control plane (src/src/control_plane.rs): construction, registration, claims,
  transitions and the renewal of the exact election. The HTTP endpoint and the fiducia-node are
  arguments: \<open>send\<close> answers a request with a status and a body or fails, \<open>renew\<close> answers
  \<open>election_renew\<close>; \<open>from_slice\<close> is \<open>serde_json::from_slice\<close>, \<open>is_uuid\<close> says whether
  \<open>Uuid::parse_str\<close> accepts a text.
\<close>

section \<open>Construction\<close>

definition claim_lease_ttl_ms :: u64 where
  "claim_lease_ttl_ms = 30000"

definition claim_renew_interval_ms :: u64 where
  "claim_renew_interval_ms = 10000"

record work_claim =
  wc_work_item_id :: string
  wc_fencing_token :: u64

definition control_plane_connect_timeout_ms :: nat where
  "control_plane_connect_timeout_ms = 5000"

definition control_plane_request_timeout_ms :: nat where
  "control_plane_request_timeout_ms = 10000"

definition node_fencing_request_timeout_ms :: nat where
  "node_fencing_request_timeout_ms = 10000"

record http_client =
  hc_connect_timeout_ms :: nat
  hc_request_timeout_ms :: nat

record node_client =
  nc_base_url :: string
  nc_secret :: string
  nc_org_id :: string
  nc_request_timeout_ms :: "nat option"

record control_plane =
  cp_governance_mode :: governance_mode
  cp_base :: "string option"
  cp_http :: http_client
  cp_internal_secret :: "string option"
  cp_instance_id :: string
  cp_agent_id :: "string option"
  cp_node :: "node_client option"

definition bounded_http_client :: http_client where
  "bounded_http_client =
     \<lparr>hc_connect_timeout_ms = control_plane_connect_timeout_ms, hc_request_timeout_ms = control_plane_request_timeout_ms\<rparr>"

definition internal_node_client :: "string \<Rightarrow> string \<Rightarrow> string \<Rightarrow> node_client" where
  "internal_node_client base_url internal_secret org_id =
     \<lparr>nc_base_url = base_url, nc_secret = internal_secret, nc_org_id = org_id,
      nc_request_timeout_ms = Some node_fencing_request_timeout_ms\<rparr>"

text \<open>\<open>char::is_control\<close>: the code points of the category Cc.\<close>

definition is_control :: "string \<Rightarrow> bool" where
  "is_control c \<longleftrightarrow>
     (case c of
        [b] \<Rightarrow> code b < 32 \<or> code b = 127
      | [b1, b2] \<Rightarrow> code b1 = 0xC2 \<and> 128 \<le> code b2 \<and> code b2 < 160
      | _ \<Rightarrow> False)"

definition validate_node_org_id :: "string \<Rightarrow> string + unit" where
  "validate_node_org_id org_id =
     (if 128 < length org_id \<or> list_ex (\<lambda>c. is_ws c \<or> is_control c) (utf8_chars org_id)
      then Inl ''FIDUCIA_NODE_ORG_ID must be at most 128 bytes and contain no whitespace or control characters''
      else Inr ())"

definition require :: "bool \<Rightarrow> string \<Rightarrow> string + unit" where
  "require ok message = (if ok then Inr () else Inl message)"

definition check_governed ::
  "string option \<Rightarrow> string option \<Rightarrow> string option \<Rightarrow> string \<Rightarrow> string + unit" where
  "check_governed internal_secret node_url node_internal_secret node_org_id =
     res_bind (require (internal_secret \<noteq> None)
       ''FIDUCIA_CONTROL_PLANE_SECRET or FIDUCIA_INTERNAL_SECRET is required when control-plane governance is enabled'') (\<lambda>_.
     res_bind (require (node_url \<noteq> None)
       ''FIDUCIA_NODE_URL is required when control-plane governance is enabled'') (\<lambda>_.
     res_bind (require (node_internal_secret \<noteq> None)
       ''FIDUCIA_NODE_INTERNAL_SECRET or FIDUCIA_INTERNAL_SECRET is required when control-plane governance is enabled'') (\<lambda>_.
     res_bind (require (node_org_id \<noteq> [])
       ''FIDUCIA_NODE_ORG_ID is required when control-plane governance is enabled'') (\<lambda>_.
     validate_node_org_id node_org_id))))"

definition control_plane_new ::
  "governance_mode \<Rightarrow> string option \<Rightarrow> string option \<Rightarrow> string option \<Rightarrow> string option \<Rightarrow> string \<Rightarrow> string
     \<Rightarrow> string + control_plane" where
  "control_plane_new mode base_url internal_secret node_url node_internal_secret org_id instance_id =
     (let base_url = normalized base_url;
          internal_secret = normalized internal_secret;
          node_url = normalized node_url;
          node_internal_secret = normalized node_internal_secret;
          node_org_id = trim org_id
      in res_bind
           (case (mode, base_url) of
              (Governed, None) \<Rightarrow> Inl ''CONTROL_PLANE_URL is required in governed mode''
            | (UngovernedLocalOnly, Some _) \<Rightarrow>
                Inl ''CONTROL_PLANE_URL must be unset in ungoverned-local-only mode''
            | _ \<Rightarrow> Inr ())
           (\<lambda>_. res_bind
             (if mode = Governed
              then check_governed internal_secret node_url node_internal_secret node_org_id
              else Inr ())
             (\<lambda>_. Inr
               \<lparr> cp_governance_mode = mode,
                 cp_base = map_option (trim_end_chars {CHR ''/''}) base_url,
                 cp_http = bounded_http_client,
                 cp_internal_secret = internal_secret,
                 cp_instance_id = instance_id,
                 cp_agent_id = None,
                 cp_node = (case (node_url, node_internal_secret, normalized (Some node_org_id)) of
                              (Some url, Some secret, Some org) \<Rightarrow> Some (internal_node_client url secret org)
                            | _ \<Rightarrow> None) \<rparr>)))"

definition cp_enabled :: "control_plane \<Rightarrow> bool" where
  "cp_enabled cp \<longleftrightarrow> cp_governance_mode cp = Governed"

section \<open>Requests and responses\<close>

record request =
  rq_method :: string
  rq_url :: string
  rq_auth :: "string option"
  rq_body :: json

text \<open>Reading the body of a response may fail after its status is known.\<close>

record response =
  rs_status :: nat
  rs_body :: "string + string"

definition is_success :: "nat \<Rightarrow> bool" where
  "is_success status \<longleftrightarrow> 200 \<le> status \<and> status < 300"

text \<open>\<open>show_status\<close> prints a status as \<open>reqwest::StatusCode\<close> does.\<close>

definition response_error :: "(nat \<Rightarrow> string) \<Rightarrow> string \<Rightarrow> nat \<Rightarrow> string \<Rightarrow> string" where
  "response_error show_status operation status body =
     (let detail = trim body;
          head = ''control-plane '' @ operation @ '' failed with HTTP '' @ show_status status
      in if detail = [] then head else head @ '': '' @ detail)"

definition cp_req :: "control_plane \<Rightarrow> string \<Rightarrow> string \<Rightarrow> json \<Rightarrow> request option" where
  "cp_req cp method path body =
     map_option (\<lambda>base. \<lparr>rq_method = method, rq_url = base @ path, rq_auth = cp_internal_secret cp, rq_body = body\<rparr>)
       (cp_base cp)"

definition registered_agent_id :: "(string \<Rightarrow> bool) \<Rightarrow> json \<Rightarrow> string + string" where
  "registered_agent_id is_uuid v =
     (case get_str v ''id'' of
        Some i \<Rightarrow> if is_uuid i then Inr i else Inl ''control-plane registration omitted a valid agent id''
      | None \<Rightarrow> Inl ''control-plane registration omitted a valid agent id'')"

definition claimed_fencing_token :: "json \<Rightarrow> string + u64" where
  "claimed_fencing_token v =
     (case get_u64 v ''fencing_token'' of
        Some token \<Rightarrow> if 0 < token then Inr token else Inl ''control-plane claim omitted a nonzero fencing token''
      | None \<Rightarrow> Inl ''control-plane claim omitted a nonzero fencing token'')"

text \<open>\<open>value[key]\<close> is null when there is no such key.\<close>

definition json_index :: "json \<Rightarrow> string \<Rightarrow> json" where
  "json_index v key = (case json_get v key of Some x \<Rightarrow> x | None \<Rightarrow> JNull)"

definition renewal_response_authorizes :: "json \<Rightarrow> string \<Rightarrow> u64 \<Rightarrow> bool" where
  "renewal_response_authorizes v agent_id token \<longleftrightarrow>
     (let output = json_index (json_index v ''result'') ''output'';
          leadership = json_index output ''leadership''
      in as_bool (json_index output ''renewed'') = Some True
       \<and> as_str (json_index leadership ''leader'') = Some agent_id
       \<and> as_u64 (json_index leadership ''fencing_token'') = Some token)"

section \<open>The calls\<close>

text \<open>The world the client talks to.\<close>

record cp_world =
  w_send :: "request \<Rightarrow> string + response"
  w_renew :: "node_client \<Rightarrow> string \<Rightarrow> string \<Rightarrow> u64 \<Rightarrow> u64 \<Rightarrow> string + json"
  w_from_slice :: "string \<Rightarrow> string + json"
  w_is_uuid :: "string \<Rightarrow> bool"
  w_show_status :: "nat \<Rightarrow> string"

definition map_err :: "(string \<Rightarrow> string) \<Rightarrow> string + 'a \<Rightarrow> string + 'a" where
  "map_err f r = (case r of Inl e \<Rightarrow> Inl (f e) | Inr x \<Rightarrow> Inr x)"

text \<open>Sending, the status check and parsing, as \<open>register\<close> and \<open>claim_work\<close> do them.\<close>

definition checked_json :: "cp_world \<Rightarrow> string \<Rightarrow> request \<Rightarrow> string + json" where
  "checked_json w operation rq =
     res_bind (map_err (\<lambda>e. ''control-plane '' @ operation @ '' failed: '' @ e) (w_send w rq)) (\<lambda>rs.
     res_bind (map_err (\<lambda>e. ''could not read control-plane '' @ operation @ '': '' @ e) (rs_body rs)) (\<lambda>body.
       if \<not> is_success (rs_status rs)
       then Inl (response_error (w_show_status w) operation (rs_status rs) body)
       else map_err (\<lambda>e. ''invalid control-plane '' @ operation @ '' response: '' @ e)
              (w_from_slice w body)))"

definition register :: "cp_world \<Rightarrow> string \<Rightarrow> string list \<Rightarrow> control_plane \<Rightarrow> (string + unit) \<times> control_plane" where
  "register w model capabilities cp =
     (let body = JObject [(''model'', JString model), (''capabilities'', JArray (map JString capabilities)),
                (''metadata'', JObject [(''agentId'', JString (cp_instance_id cp)),
                                        (''kind'', JString ''fiducia-ai-agent-manager'')])]
      in case cp_req cp ''POST'' ''/v1/agents'' body of
           None \<Rightarrow> (Inr (), cp)
         | Some rq \<Rightarrow>
             (case res_bind (checked_json w ''registration'' rq) (registered_agent_id (w_is_uuid w)) of
                Inl e \<Rightarrow> (Inl e, cp)
              | Inr i \<Rightarrow> (Inr (), cp\<lparr>cp_agent_id := Some i\<rparr>)))"

definition require_agent :: "control_plane \<Rightarrow> string + string" where
  "require_agent cp =
     (case cp_agent_id cp of Some i \<Rightarrow> Inr i | None \<Rightarrow> Inl ''control-plane agent is not registered'')"

definition claim_work :: "cp_world \<Rightarrow> control_plane \<Rightarrow> string \<Rightarrow> u64 \<Rightarrow> string + work_claim" where
  "claim_work w cp work_item_id ttl_ms =
     (if cp_base cp = None then Inl ''control plane is not configured''
      else res_bind (require_agent cp) (\<lambda>agent_id.
        let body = JObject [(''agent_id'', JString agent_id), (''ttl_ms'', JInt (uint ttl_ms))]
        in res_bind (checked_json w ''work claim''
               (the (cp_req cp ''POST'' (''/v1/work-items/'' @ work_item_id @ ''/claim'') body))) (\<lambda>v.
             res_bind (claimed_fencing_token v) (\<lambda>token.
               Inr \<lparr>wc_work_item_id = work_item_id, wc_fencing_token = token\<rparr>))))"

definition transition_request :: "control_plane \<Rightarrow> string \<Rightarrow> work_claim \<Rightarrow> string \<Rightarrow> request" where
  "transition_request cp agent_id claim status =
     the (cp_req cp ''POST'' (''/v1/work-items/'' @ wc_work_item_id claim @ ''/transition'')
       (JObject [(''status'', JString status), (''agent_id'', JString agent_id),
                 (''fencing_token'', JInt (uint (wc_fencing_token claim)))]))"

definition cp_transition :: "cp_world \<Rightarrow> control_plane \<Rightarrow> work_claim \<Rightarrow> string \<Rightarrow> string + unit" where
  "cp_transition w cp claim status =
     (if cp_base cp = None then Inl ''control plane is not configured''
      else res_bind (require_agent cp) (\<lambda>agent_id.
        res_bind (map_err (\<lambda>e. ''control-plane transition to '' @ status @ '' failed: '' @ e)
                    (w_send w (transition_request cp agent_id claim status))) (\<lambda>rs.
          if is_success (rs_status rs) then Inr ()
          else Inl (response_error (w_show_status w) ''transition'' (rs_status rs)
                 (case rs_body rs of Inr body \<Rightarrow> body | Inl _ \<Rightarrow> [])))))"

definition renew_claim :: "cp_world \<Rightarrow> control_plane \<Rightarrow> work_claim \<Rightarrow> string + unit" where
  "renew_claim w cp claim =
     (case cp_node cp of
        None \<Rightarrow> Inl ''fiducia-node is unavailable for claim renewal''
      | Some node \<Rightarrow>
          res_bind (require_agent cp) (\<lambda>agent_id.
            res_bind (map_err (\<lambda>e. ''claim renewal request failed: '' @ e)
                (w_renew w node (''ai-work:'' @ wc_work_item_id claim) agent_id (wc_fencing_token claim) claim_lease_ttl_ms))
              (\<lambda>v. if renewal_response_authorizes v agent_id (wc_fencing_token claim) then Inr ()
                   else Inl ''stale or malformed work-item election; refusing mutation'')))"

section \<open>Facts\<close>

definition nonblank :: "string option \<Rightarrow> bool" where
  "nonblank v \<longleftrightarrow> (\<exists>s. v = Some s \<and> trim s \<noteq> [])"

lemma normalized_None: "normalized v = None \<longleftrightarrow> \<not> nonblank v"
  by (auto simp: normalized_def nonblank_def split: option.splits)

lemma normalized_cases:
  "(\<exists>x. normalized v = Some x) \<longleftrightarrow> nonblank v"
  using normalized_None [of v] by auto

definition org_ok :: "string \<Rightarrow> bool" where
  "org_ok org \<longleftrightarrow> org \<noteq> [] \<and> length org \<le> 128 \<and> \<not> list_ex (\<lambda>c. is_ws c \<or> is_control c) (utf8_chars org)"

lemma check_governed_ok:
  "check_governed a b c org = Inr () \<longleftrightarrow> a \<noteq> None \<and> b \<noteq> None \<and> c \<noteq> None \<and> org_ok org"
  by (auto simp: check_governed_def require_def res_bind_Inr_iff validate_node_org_id_def org_ok_def)

text \<open>C30: a client is constructed in governed mode exactly when the control-plane address, both secrets
  and the node address are set to something other than white space and the organisation id is
  well formed; then it has its endpoint, presents its secret, and holds the node handle that
  renewals need. In ungoverned mode it is constructed exactly when no address is set, and then it
  has no endpoint to send anything to.\<close>

theorem governed_client_is_complete:
  "is_ok (control_plane_new mode b s nu ns org inst) =
     (if mode = Governed then nonblank b \<and> nonblank s \<and> nonblank nu \<and> nonblank ns \<and> org_ok (trim org)
      else \<not> nonblank b)
   \<and> (\<forall>cp. control_plane_new mode b s nu ns org inst = Inr cp \<longrightarrow>
        cp_agent_id cp = None \<and> cp_enabled cp = (mode = Governed)
        \<and> (cp_base cp \<noteq> None) = (mode = Governed)
        \<and> (mode = Governed \<longrightarrow> cp_internal_secret cp \<noteq> None \<and> cp_node cp \<noteq> None))"
proof (cases mode)
  case Governed
  show ?thesis
  proof (cases "nonblank b \<and> nonblank s \<and> nonblank nu \<and> nonblank ns \<and> org_ok (trim org)")
    case True
    then obtain b' s' nu' ns' where n: "normalized b = Some b'" "normalized s = Some s'"
        "normalized nu = Some nu'" "normalized ns = Some ns'" "org_ok (trim org)"
      using normalized_cases by metis
    then have "check_governed (normalized s) (normalized nu) (normalized ns) (trim org) = Inr ()"
      by (simp add: check_governed_ok)
    moreover have "trim (trim org) = trim org"
      by (rule trim_no_ws) (use n(5) in \<open>auto simp: org_ok_def list_ex_iff\<close>)
    then have "trim (trim org) = [] \<Longrightarrow> False"
      using n(5) by (simp add: org_ok_def)
    ultimately show ?thesis
      using True Governed n by (auto simp: control_plane_new_def Let_def cp_enabled_def normalized_def [of "Some (trim org)"])
  next
    case False
    have "\<not> is_ok (control_plane_new mode b s nu ns org inst)"
    proof (cases "normalized b")
      case None
      then show ?thesis using Governed by (simp add: control_plane_new_def Let_def)
    next
      case (Some b')
      then have "check_governed (normalized s) (normalized nu) (normalized ns) (trim org) \<noteq> Inr ()"
        using False normalized_cases [of b] by (simp add: check_governed_ok normalized_cases)
      then obtain e where "check_governed (normalized s) (normalized nu) (normalized ns) (trim org) = Inl e"
        by (cases "check_governed (normalized s) (normalized nu) (normalized ns) (trim org)") auto
      then show ?thesis using Some Governed by (simp add: control_plane_new_def Let_def)
    qed
    then show ?thesis using False Governed by auto
  qed
next
  case UngovernedLocalOnly
  then show ?thesis
    using normalized_None [of b]
    by (cases "normalized b") (auto simp: control_plane_new_def Let_def cp_enabled_def)
qed

theorem governed_client_is_complete_witness:
  "\<exists>cp. control_plane_new Governed (Some ''http://cp/'') (Some ''s'') (Some ''http://n'') (Some ''k'') ''org'' ''i'' = Inr cp
     \<and> cp_node cp \<noteq> None"
proof -
  let ?new = "control_plane_new Governed (Some ''http://cp/'') (Some ''s'') (Some ''http://n'') (Some ''k'') ''org'' ''i''"
  have t: "trim ''http://cp/'' = ''http://cp/''" "trim ''s'' = ''s''" "trim ''http://n'' = ''http://n''"
    "trim ''k'' = ''k''" "trim ''org'' = ''org''"
    by (rule trim_visible; simp add: code_def is_ascii_def)+
  have "org_ok ''org''"
    by (simp add: org_ok_def not_ws_single is_control_def code_def is_cont_def)
  then have "is_ok ?new"
    using governed_client_is_complete [of Governed "Some ''http://cp/''" "Some ''s''" "Some ''http://n''" "Some ''k''" "''org''" "''i''"]
    by (simp add: nonblank_def t)
  then obtain cp where "?new = Inr cp" by (cases ?new) auto
  then show ?thesis
    using governed_client_is_complete [of Governed "Some ''http://cp/''" "Some ''s''" "Some ''http://n''" "Some ''k''" "''org''" "''i''"]
    by simp
qed

definition json_at :: "string list \<Rightarrow> json \<Rightarrow> json option" where
  "json_at path v = fold (\<lambda>k x. case x of None \<Rightarrow> None | Some u \<Rightarrow> json_get u k) path (Some v)"

lemma json_index_at: "json_index v k = (case json_get v k of Some x \<Rightarrow> x | None \<Rightarrow> JNull)"
  by (simp add: json_index_def)

lemma json_index_null [simp]: "json_index JNull k = JNull"
  by (simp add: json_index_def json_get_def)

lemma as_bool_Some: "as_bool v = Some b \<longleftrightarrow> v = JBool b"
  by (auto simp: as_bool_def split: json.splits)

lemma as_u64_Some: "as_u64 v = Some t \<longleftrightarrow> v = JInt (uint t)"
proof -
  have "uint t < 2 ^ 64" for t :: u64 using uint_bounded [of t] by simp
  moreover have "uint (of_int i :: u64) = i" if "0 \<le> i" "i < 2 ^ 64" for i
    using that by (simp add: unsigned_of_int take_bit_int_eq_self)
  ultimately show ?thesis
    by (auto simp: as_u64_def split: json.splits if_splits)
qed

lemma renewal_response_iff:
  "renewal_response_authorizes v agent token \<longleftrightarrow>
     json_at [''result'', ''output'', ''renewed''] v = Some (JBool True)
     \<and> json_at [''result'', ''output'', ''leadership'', ''leader''] v = Some (JString agent)
     \<and> json_at [''result'', ''output'', ''leadership'', ''fencing_token''] v = Some (JInt (uint token))"
proof -
  have three: "json_index (json_index (json_index v a) b) c = x \<longleftrightarrow> json_at [a, b, c] v = Some x"
    if "x \<noteq> JNull" for a b c x
    using that by (auto simp: json_at_def json_index_at split: option.splits)
      (auto simp: json_get_def split: json.splits)
  have four: "json_index (json_index (json_index (json_index v a) b) c) d = x \<longleftrightarrow> json_at [a, b, c, d] v = Some x"
    if "x \<noteq> JNull" for a b c d x
    using that by (auto simp: json_at_def json_index_at split: option.splits)
      (auto simp: json_get_def split: json.splits)
  show ?thesis
    by (simp add: renewal_response_authorizes_def Let_def as_bool_Some as_u64_Some three four)
qed

text \<open>C15: a renewal succeeds only on an answer of the node that says, at the exact places, that the
  election of this very work item was renewed, that this agent leads it, and with the very token
  of the claim; a missing node handle, an unregistered agent, a transport error and every other
  document fail closed.\<close>

theorem renewal_is_exact:
  "(renew_claim w cp claim = Inr ()) =
     (\<exists>node agent v. cp_node cp = Some node \<and> cp_agent_id cp = Some agent
       \<and> w_renew w node (''ai-work:'' @ wc_work_item_id claim) agent (wc_fencing_token claim) 30000 = Inr v
       \<and> json_at [''result'', ''output'', ''renewed''] v = Some (JBool True)
       \<and> json_at [''result'', ''output'', ''leadership'', ''leader''] v = Some (JString agent)
       \<and> json_at [''result'', ''output'', ''leadership'', ''fencing_token''] v
           = Some (JInt (uint (wc_fencing_token claim))))"
  by (auto simp: renew_claim_def require_agent_def res_bind_Inr_iff map_err_def claim_lease_ttl_ms_def
      renewal_response_iff split: option.splits sum.splits if_splits)

lemma claim_work_result:
  assumes "claim_work w cp item ttl = Inr claim"
  shows "wc_work_item_id claim = item \<and> 0 < wc_fencing_token claim \<and> cp_agent_id cp \<noteq> None"
  using assms
  by (auto simp: claim_work_def res_bind_Inr_iff claimed_fencing_token_def require_agent_def Let_def
      split: if_splits option.splits)

end
