(* ===== verification/GitOps.thy ===== *)
theory GitOps
  imports GitNames
begin

text \<open>
  The child processes of src/src/git.rs: \<open>sh_capture\<close> as a function of how the child ends, and the
  argument vector of every git command the worker runs. No shell is involved: an argument
  vector is what the program receives.
\<close>

section \<open>Running a command\<close>

text \<open>What the task reading an output of the child comes to.\<close>

datatype reader_end =
    Read_To_End string
  | Read_Failed string
  | Reader_Failed string

text \<open>How a child ends; \<open>Sh_Exited\<close> has the exit code unless a signal ended it, and the readers of both
  outputs. The other ends kill and reap the child, which may fail as well, and drop the outputs.\<close>

datatype sh_end =
    Sh_Spawn_Failed string
  | Sh_Exited "int option" reader_end reader_end
  | Sh_Wait_Failed string "string option"
  | Sh_Timed_Out "string option"
  | Sh_Cancelled "string option"

datatype sh_result = Sh_Ok string | Sh_Err string | Sh_Panic

definition git_timeout_quick_s :: nat where
  "git_timeout_quick_s = 60"

definition git_timeout_network_s :: nat where
  "git_timeout_network_s = 300"

text \<open>\<open>s.is_char_boundary(n)\<close>: slicing at another byte panics.\<close>

definition is_char_boundary :: "string \<Rightarrow> nat \<Rightarrow> bool" where
  "is_char_boundary s n \<longleftrightarrow> n = 0 \<or> n = length s \<or> (n < length s \<and> \<not> is_cont (s ! n))"

definition with_reap :: "string \<Rightarrow> string \<Rightarrow> string option \<Rightarrow> sh_result" where
  "with_reap what reason reap =
     (case reap of
        None \<Rightarrow> Sh_Err reason
      | Some e \<Rightarrow> Sh_Err (reason @ ''; '' @ what @ '' could not be reaped: '' @ e))"

definition collect_output :: "string \<Rightarrow> string \<Rightarrow> reader_end \<Rightarrow> string + string" where
  "collect_output program stream reader =
     (case reader of
        Reader_Failed e \<Rightarrow> Inl (program @ '': '' @ stream @ '' reader task failed: '' @ e)
      | Read_Failed e \<Rightarrow> Inl (program @ '': could not read '' @ stream @ '': '' @ e)
      | Read_To_End bytes \<Rightarrow> Inr bytes)"

text \<open>\<open>lossy\<close> is \<open>String::from_utf8_lossy\<close>, \<open>show_timeout\<close> the debug form of the timeout.\<close>

definition sh_capture ::
  "(string \<Rightarrow> string) \<Rightarrow> string \<Rightarrow> string \<Rightarrow> string list \<Rightarrow> sh_end \<Rightarrow> sh_result" where
  "sh_capture lossy show_timeout program args ending =
     (let what = program @ '' '' @ join '' '' args in
      case ending of
        Sh_Spawn_Failed e \<Rightarrow> Sh_Err (program @ '': spawn failed: '' @ e)
      | Sh_Exited exit_code out err \<Rightarrow>
          (case collect_output program ''stdout'' out of
             Inl e \<Rightarrow> Sh_Err e
           | Inr stdout \<Rightarrow>
               (case collect_output program ''stderr'' err of
                  Inl e \<Rightarrow> Sh_Err e
                | Inr bytes \<Rightarrow>
                    if exit_code = Some 0 then Sh_Ok (lossy stdout)
                    else
                      let stderr = lossy bytes; cut = min (length stderr) 1000 in
                      if is_char_boundary stderr cut
                      then Sh_Err (what @ '' exited '' @ show_int (case exit_code of Some n \<Rightarrow> n | None \<Rightarrow> -1)
                                   @ '': '' @ take cut stderr)
                      else Sh_Panic))
      | Sh_Wait_Failed e reap \<Rightarrow> with_reap what (what @ '': '' @ e) reap
      | Sh_Timed_Out reap \<Rightarrow> with_reap what (what @ '' timed out after '' @ show_timeout) reap
      | Sh_Cancelled reap \<Rightarrow> with_reap what (what @ '' cancelled'') reap)"

section \<open>The commands\<close>

definition generated_git_exclude_paths :: "string list" where
  "generated_git_exclude_paths = [''.pnpm-store'', ''node_modules'', ''.next'', ''.turbo'']"

definition current_branch_args :: "string list" where
  "current_branch_args = [''symbolic-ref'', ''--quiet'', ''--short'', ''HEAD'']"

definition current_commit_args :: "string list" where
  "current_commit_args = [''rev-parse'', ''HEAD'']"

definition workspace_status_args :: "string list" where
  "workspace_status_args =
     [''status'', ''--porcelain'', ''--untracked-files=all'', ''--'', ''.'']
     @ map (\<lambda>p. '':(exclude)'' @ p) generated_git_exclude_paths"

definition fetch_args :: "string \<Rightarrow> nat \<Rightarrow> string + string list" where
  "fetch_args branch depth =
     res_bind (assert_safe_branch branch ''remote branch'') (\<lambda>_.
       Inr [''fetch'', ''--quiet'', ''--prune'', ''--depth='' @ digits depth, ''origin'',
            ''+refs/heads/'' @ branch @ '':refs/remotes/origin/'' @ branch])"

definition remote_branch_args :: "string \<Rightarrow> string + string list" where
  "remote_branch_args branch =
     res_bind (assert_safe_branch branch ''remote branch'') (\<lambda>_.
       Inr [''ls-remote'', ''--heads'', ''origin'', branch])"

definition identity_args :: "string \<Rightarrow> string \<Rightarrow> string list list" where
  "identity_args name email = [[''config'', ''user.name'', name], [''config'', ''user.email'', email]]"

definition add_args :: "string list list" where
  "add_args = [[''add'', ''-A'', ''--'', ''.''], [''reset'', ''-q'', ''HEAD'', ''--''] @ generated_git_exclude_paths]"

definition commit_args :: "string \<Rightarrow> string list" where
  "commit_args message = [''commit'', ''--no-verify'', ''-m'', message]"

definition push_args :: "string \<Rightarrow> string + string list" where
  "push_args branch =
     res_bind (assert_safe_branch branch ''session branch'') (\<lambda>_.
       Inr [''push'', ''--no-verify'', ''--set-upstream'', ''origin'', branch])"

definition switch_args :: "string \<Rightarrow> string \<Rightarrow> string list" where
  "switch_args branch source = [''switch'', ''--discard-changes'', ''-C'', branch, source]"

section \<open>The calls\<close>

text \<open>
  A git call runs its commands through a runner: program, arguments and timeout in seconds. The
  variants with and without a cancellation token are one call with two runners. An error is a
  value the caller sees; a panic unwinds the task.
\<close>

datatype fault = Fail string | Unwind

fun fault_error :: "fault \<Rightarrow> string option" where
  "fault_error (Fail e) = Some e"
| "fault_error Unwind = None"

type_synonym 's runner = "string \<Rightarrow> string list \<Rightarrow> nat \<Rightarrow> ('s, fault, string) action"

fun lift_sh :: "sh_result \<Rightarrow> fault + string" where
  "lift_sh (Sh_Ok out) = Inr out"
| "lift_sh (Sh_Err e) = Inl (Fail e)"
| "lift_sh Sh_Panic = Inl Unwind"

definition io_lift :: "string + 'a \<Rightarrow> ('s, fault, 'a) action" where
  "io_lift r = (case r of Inl e \<Rightarrow> io_fail (Fail e) | Inr x \<Rightarrow> io_return x)"

abbreviation attempt :: "('s, fault, 'a) action \<Rightarrow> ('s, fault, string + 'a) action" where
  "attempt m \<equiv> io_catch fault_error m"

definition git_quick :: "'s runner \<Rightarrow> string list \<Rightarrow> ('s, fault, string) action" where
  "git_quick run args = run ''git'' args git_timeout_quick_s"

definition git_network :: "'s runner \<Rightarrow> string list \<Rightarrow> ('s, fault, string) action" where
  "git_network run args = run ''git'' args git_timeout_network_s"

definition nonempty_trimmed :: "string \<Rightarrow> string option" where
  "nonempty_trimmed s = (if trim s = [] then None else Some (trim s))"

definition current_branch_with_cancel :: "'s runner \<Rightarrow> ('s, fault, string option) action" where
  "current_branch_with_cancel run = io_map nonempty_trimmed (git_quick run current_branch_args)"

definition current_branch :: "'s runner \<Rightarrow> ('s, fault, string option) action" where
  "current_branch run =
     io_map (\<lambda>r. case r of Inl _ \<Rightarrow> None | Inr s \<Rightarrow> nonempty_trimmed s) (attempt (git_quick run current_branch_args))"

definition current_commit :: "'s runner \<Rightarrow> ('s, fault, string) action" where
  "current_commit run = io_map trim (git_quick run current_commit_args)"

definition workspace_status :: "'s runner \<Rightarrow> ('s, fault, string) action" where
  "workspace_status run = git_quick run workspace_status_args"

definition fetch_remote_branch :: "'s runner \<Rightarrow> string \<Rightarrow> nat \<Rightarrow> ('s, fault, unit) action" where
  "fetch_remote_branch run branch depth =
     io_bind (io_lift (fetch_args branch depth)) (\<lambda>args. io_map (\<lambda>_. ()) (git_network run args))"

definition remote_branch_exists :: "'s runner \<Rightarrow> string \<Rightarrow> ('s, fault, bool) action" where
  "remote_branch_exists run branch =
     io_bind (io_lift (remote_branch_args branch)) (\<lambda>args.
       io_map (\<lambda>out. trim out \<noteq> []) (git_network run args))"

definition configure_identity :: "'s runner \<Rightarrow> string \<Rightarrow> string \<Rightarrow> ('s, fault, unit) action" where
  "configure_identity run name email =
     io_each (\<lambda>args. io_map (\<lambda>_. ()) (git_quick run args)) (identity_args name email)"

definition add_workspace_changes :: "'s runner \<Rightarrow> ('s, fault, unit) action" where
  "add_workspace_changes run = io_each (\<lambda>args. io_map (\<lambda>_. ()) (git_quick run args)) add_args"

definition git_commit :: "'s runner \<Rightarrow> string \<Rightarrow> ('s, fault, unit) action" where
  "git_commit run message = io_map (\<lambda>_. ()) (git_quick run (commit_args message))"

definition push_branch :: "'s runner \<Rightarrow> string \<Rightarrow> ('s, fault, unit) action" where
  "push_branch run branch =
     io_bind (io_lift (push_args branch)) (\<lambda>args. io_map (\<lambda>_. ()) (git_network run args))"

text \<open>A runner that keeps a view of the state gives calls that keep it.\<close>

lemma keeps_lift [keeps_rules]: "keeps v (io_lift r)"
  by (cases r) (simp_all add: io_lift_def keeps_rules)

lemma git_calls_keep:
  assumes "\<And>p args t. keeps v (run p args t)"
  shows "keeps v (git_quick run args)" "keeps v (git_network run args)"
    "keeps v (current_branch_with_cancel run)" "keeps v (current_branch run)" "keeps v (current_commit run)"
    "keeps v (workspace_status run)" "keeps v (fetch_remote_branch run branch depth)"
    "keeps v (remote_branch_exists run branch)" "keeps v (configure_identity run name email)"
    "keeps v (add_workspace_changes run)" "keeps v (git_commit run message)" "keeps v (push_branch run branch)"
  unfolding git_quick_def git_network_def current_branch_with_cancel_def current_branch_def current_commit_def
    workspace_status_def fetch_remote_branch_def remote_branch_exists_def configure_identity_def
    add_workspace_changes_def git_commit_def push_branch_def
  by (intro keeps_rules assms)+

section \<open>Facts\<close>

text \<open>A branch that reaches a command line has passed the check, so it cannot be read as an option or
  as a second refspec, and it cannot leave the namespace it is put in.\<close>

lemma push_args_ok: "push_args branch = Inr args \<Longrightarrow>
   well_formed_ref branch \<and> args = [''push'', ''--no-verify'', ''--set-upstream'', ''origin'', branch]"
  by (auto simp: push_args_def res_bind_Inr_iff assert_safe_branch_iff invalid_branch_iff)

lemma fetch_args_ok: "fetch_args branch depth = Inr args \<Longrightarrow> well_formed_ref branch \<and>
   args = [''fetch'', ''--quiet'', ''--prune'', ''--depth='' @ digits depth, ''origin'',
           ''+refs/heads/'' @ branch @ '':refs/remotes/origin/'' @ branch]"
  by (auto simp: fetch_args_def res_bind_Inr_iff assert_safe_branch_iff invalid_branch_iff)

lemma well_formed_no_option:
  "well_formed_ref b \<Longrightarrow> b \<noteq> [] \<and> hd b \<noteq> CHR ''-'' \<and> hd b \<noteq> CHR ''+'' \<and> CHR '':'' \<notin> set b"
proof -
  assume "well_formed_ref b"
  then have p: "branch_pattern b" by (simp add: well_formed_ref_def)
  have "\<not> branch_char CHR '':''" by (simp add: branch_char_def char_class_defs)
  then have "CHR '':'' \<notin> set b" using branch_pattern_chars [OF p] by blast
  moreover have "b \<noteq> [] \<and> is_alnum (hd b)" by (rule branch_pattern_hd [OF p])
  moreover have "\<not> is_alnum CHR ''-''" "\<not> is_alnum CHR ''+''" by (simp_all add: char_class_defs)
  ultimately show ?thesis by metis
qed


lemma feature_branch_ok: "assert_safe_branch ''feature/ok-1'' l = Inr ()"
  by (simp add: assert_safe_branch_def) code_simp


text \<open>
  Cutting the error text at byte 1000 is not safe: when a character of several bytes lies across
  that byte, the call panics instead of returning its error.
\<close>

theorem long_stderr_panics:
  "sh_capture id t program args (Sh_Exited (Some 1) (Read_To_End []) (Read_To_End (replicate 999 CHR ''x'' @ [CHR 0xC3, CHR 0xA9]))) = Sh_Panic"
  by (simp add: sh_capture_def collect_output_def Let_def is_char_boundary_def nth_append is_cont_def code_def)

end
