(* ===== verification/Paths.thy ===== *)
theory Paths
  imports Text
begin

text \<open>
  \<open>std::path\<close> on Unix, as far as the program uses it: the components of a path, joining, the file
  name and its extension. A path is its string.
\<close>

datatype path_component = RootDir | CurDir | ParentDir | Normal string

definition is_sep :: "char \<Rightarrow> bool" where
  "is_sep c \<longleftrightarrow> c = CHR ''/''"

definition is_absolute :: "string \<Rightarrow> bool" where
  "is_absolute p \<longleftrightarrow> p \<noteq> [] \<and> is_sep (hd p)"

fun part_component :: "string \<Rightarrow> path_component list" where
  "part_component q =
     (if q = [] \<or> q = ''.'' then [] else if q = ''..'' then [ParentDir] else [Normal q])"

definition components :: "string \<Rightarrow> path_component list" where
  "components p =
     (let parts = split_on is_sep p
      in (if is_absolute p then [RootDir] else if hd parts = ''.'' then [CurDir] else [])
         @ concat (map part_component parts))"

text \<open>\<open>Path::join\<close>: an absolute second path replaces the first one.\<close>

definition path_join :: "string \<Rightarrow> string \<Rightarrow> string" where
  "path_join a b =
     (if is_absolute b then b
      else if a = [] \<or> is_sep (last a) then a @ b
      else a @ CHR ''/'' # b)"

definition file_name :: "string \<Rightarrow> string option" where
  "file_name p =
     (let cs = components p
      in if cs = [] then None else (case last cs of Normal q \<Rightarrow> Some q | _ \<Rightarrow> None))"

text \<open>The part behind the last dot of the file name, unless the dot is its first character.\<close>

definition extension :: "string \<Rightarrow> string option" where
  "extension p =
     (case file_name p of
        None \<Rightarrow> None
      | Some q \<Rightarrow>
          (case rsplit_once CHR ''.'' q of
             None \<Rightarrow> None
           | Some (stem, ext) \<Rightarrow> if stem = [] then None else Some ext))"

text \<open>The text of a relative path without the separators and dot components at its ends, which is
  what \<open>strip_prefix\<close> leaves of it behind a directory it was joined to.\<close>

definition relative_text :: "string \<Rightarrow> string" where
  "relative_text p =
     (let skip = dropWhile (\<lambda>q. q = [] \<or> q = ''.'')
      in join ''/'' (rev (skip (rev (skip (split_on is_sep p))))))"

text \<open>The directory a path lies in: none for the root and for the empty path.\<close>

definition path_parent :: "string \<Rightarrow> string option" where
  "path_parent p =
     (let skip = dropWhile (\<lambda>q. q = [] \<or> q = ''.'');
          root = (if is_absolute p then ''/'' else []);
          names = skip (rev (split_on is_sep p))
      in if names = [] then None
         else Some (root @ join ''/'' (dropWhile (\<lambda>q. q = []) (rev (skip (tl names))))))"

section \<open>Facts\<close>

lemma part_component_parts:
  "Normal q \<in> set (part_component r) \<Longrightarrow> q = r"
  "ParentDir \<in> set (part_component r) \<longleftrightarrow> r = ''..''"
  by (auto split: if_splits)

lemma parent_in_components: "ParentDir \<in> set (components p) \<longleftrightarrow> ''..'' \<in> set (split_on is_sep p)"
  by (auto simp: components_def Let_def part_component_parts simp del: part_component.simps)

lemma normal_in_components: "Normal q \<in> set (components p) \<longleftrightarrow>
   q \<in> set (split_on is_sep p) \<and> q \<noteq> [] \<and> q \<noteq> ''.'' \<and> q \<noteq> ''..''"
  by (auto simp: components_def Let_def split: if_splits)

lemma split_on_no_sep: "q \<in> set (split_on is_sep p) \<Longrightarrow> c \<in> set q \<Longrightarrow> \<not> is_sep c"
  using split_on_pieces by blast

lemma path_join_parts:
  assumes "\<not> is_absolute b"
  shows "set (split_on is_sep (path_join a b)) \<subseteq> set (split_on is_sep a) \<union> set (split_on is_sep b)"
proof (cases "a = []")
  case True
  then show ?thesis using assms by (auto simp: path_join_def)
next
  case ne: False
  show ?thesis
  proof (cases "is_sep (last a)")
    case True
    then have a: "a = butlast a @ [CHR ''/'']" using ne by (metis append_butlast_last_id is_sep_def)
    have "split_on is_sep (path_join a b) = split_on is_sep (butlast a) @ split_on is_sep b"
      using assms True ne a by (metis append_Cons append_Nil append_assoc is_sep_def path_join_def split_on_append_sep)
    moreover have "split_on is_sep a = split_on is_sep (butlast a) @ split_on is_sep []"
      using a by (metis is_sep_def split_on_append_sep)
    ultimately show ?thesis by auto
  next
    case False
    then have "path_join a b = a @ CHR ''/'' # b" using assms ne by (simp add: path_join_def)
    then show ?thesis by (simp add: split_on_append_sep is_sep_def)
  qed
qed

end
