(* ===== verification/Storage.thy ===== *)
theory Storage
  imports Prelude Paths
begin

unbundle bit_operations_syntax

text \<open>
  Artifact storage of src/src/storage.rs: the local adapter, the content type of a file name, and the
  dependency-free SHA-256 on 32-bit words, step for step as the code has it.
\<close>

section \<open>SHA-256\<close>

text \<open>The two tables of constants, in decimal.\<close>

definition sha_k :: "u32 list" where
  "sha_k =
    [1116352408, 1899447441, 3049323471, 3921009573, 961987163, 1508970993, 2453635748, 2870763221,
     3624381080, 310598401, 607225278, 1426881987, 1925078388, 2162078206, 2614888103, 3248222580,
     3835390401, 4022224774, 264347078, 604807628, 770255983, 1249150122, 1555081692, 1996064986,
     2554220882, 2821834349, 2952996808, 3210313671, 3336571891, 3584528711, 113926993, 338241895,
     666307205, 773529912, 1294757372, 1396182291, 1695183700, 1986661051, 2177026350, 2456956037,
     2730485921, 2820302411, 3259730800, 3345764771, 3516065817, 3600352804, 4094571909, 275423344,
     430227734, 506948616, 659060556, 883997877, 958139571, 1322822218, 1537002063, 1747873779,
     1955562222, 2024104815, 2227730452, 2361852424, 2428436474, 2756734187, 3204031479, 3329325298]"

definition sha_init :: "u32 list" where
  "sha_init =
    [1779033703, 3144134277, 1013904242, 2773480762, 1359893119, 2600822924, 528734635, 1541459225]"

text \<open>The padding loop: a zero byte until the length is 56 modulo 64.\<close>

function pad_loop :: "u8 list \<Rightarrow> u8 list" where
  "pad_loop msg = (if length msg mod 64 = 56 then msg else pad_loop (msg @ [0]))"
  by pat_completeness auto
termination
proof (relation "measure (\<lambda>msg. (120 - length msg mod 64) mod 64)", simp, goal_cases)
  case (1 msg)
  define m where "m = length msg mod 64"
  have "m < 64" "m \<noteq> 56" using 1 by (simp_all add: m_def)
  moreover have "Suc (length msg) mod 64 = (if m = 63 then 0 else Suc m)"
    unfolding m_def by (simp add: mod_Suc)
  ultimately have "(120 - Suc (length msg) mod 64) mod 64 < (120 - m) mod 64"
    by (cases "m < 56") (auto simp: le_mod_geq mod_less)
  then show ?case by (simp add: m_def)
qed

declare pad_loop.simps [simp del]

definition be_bytes64 :: "u64 \<Rightarrow> u8 list" where
  "be_bytes64 x = map (\<lambda>i. ucast (drop_bit (8 * (7 - i)) x)) [0..<8]"

definition be_word32 :: "u8 \<Rightarrow> u8 \<Rightarrow> u8 \<Rightarrow> u8 \<Rightarrow> u32" where
  "be_word32 a b c d =
     push_bit 24 (ucast a) OR push_bit 16 (ucast b) OR push_bit 8 (ucast c) OR ucast d"

definition sha_pad :: "u8 list \<Rightarrow> u8 list" where
  "sha_pad data = pad_loop (data @ [0x80]) @ be_bytes64 (of_nat (length data) * 8)"

fun chunks_exact :: "nat \<Rightarrow> 'a list \<Rightarrow> 'a list list" where
  "chunks_exact n xs =
     (if 0 < n \<and> n \<le> length xs then take n xs # chunks_exact n (drop n xs) else [])"

declare chunks_exact.simps [simp del]

definition rotr :: "nat \<Rightarrow> u32 \<Rightarrow> u32" where
  "rotr n x = word_rotr n x"

definition small_sigma0 :: "u32 \<Rightarrow> u32" where
  "small_sigma0 x = rotr 7 x XOR rotr 18 x XOR drop_bit 3 x"

definition small_sigma1 :: "u32 \<Rightarrow> u32" where
  "small_sigma1 x = rotr 17 x XOR rotr 19 x XOR drop_bit 10 x"

definition load_words :: "u8 list \<Rightarrow> u32 list" where
  "load_words chunk =
     map (\<lambda>i. be_word32 (chunk ! (i * 4)) (chunk ! (i * 4 + 1)) (chunk ! (i * 4 + 2)) (chunk ! (i * 4 + 3)))
       [0..<16] @ replicate 48 0"

definition schedule_step :: "u32 list \<Rightarrow> nat \<Rightarrow> u32 list" where
  "schedule_step w i =
     w[i := w ! (i - 16) + small_sigma0 (w ! (i - 15)) + w ! (i - 7) + small_sigma1 (w ! (i - 2))]"

definition schedule :: "u8 list \<Rightarrow> u32 list" where
  "schedule chunk = foldl schedule_step (load_words chunk) [16..<64]"

text \<open>The eight working variables \<open>a\<close> to \<open>hh\<close> are a list.\<close>

definition sha_round :: "u32 list \<Rightarrow> u32 list \<Rightarrow> nat \<Rightarrow> u32 list" where
  "sha_round w v i =
     (case v of
        [a, b, c, d, e, f, g, hh] \<Rightarrow>
          let s1 = rotr 6 e XOR rotr 11 e XOR rotr 25 e;
              ch = (e AND f) XOR (NOT e AND g);
              t1 = hh + s1 + ch + sha_k ! i + w ! i;
              s0 = rotr 2 a XOR rotr 13 a XOR rotr 22 a;
              maj = (a AND b) XOR (a AND c) XOR (b AND c);
              t2 = s0 + maj
          in [t1 + t2, a, b, c, d + t1, e, f, g]
      | _ \<Rightarrow> v)"

definition sha_block :: "u32 list \<Rightarrow> u8 list \<Rightarrow> u32 list" where
  "sha_block h chunk = map2 (+) h (foldl (sha_round (schedule chunk)) h [0..<64])"

definition hex_digit :: "nat \<Rightarrow> char" where
  "hex_digit n = ''0123456789abcdef'' ! n"

definition hex8 :: "u32 \<Rightarrow> string" where
  "hex8 x = map (\<lambda>i. hex_digit (unat (drop_bit (4 * (7 - i)) x) mod 16)) [0..<8]"

definition sha256_words :: "u8 list \<Rightarrow> u32 list" where
  "sha256_words data = foldl sha_block sha_init (chunks_exact 64 (sha_pad data))"

definition sha256_hex :: "u8 list \<Rightarrow> string" where
  "sha256_hex data = concat (map hex8 (sha256_words data))"

section \<open>Publishing\<close>

record published_artifact =
  pa_filename :: string
  pa_content_type :: "string option"
  pa_size_bytes :: "u64 option"
  pa_storage_provider :: string
  pa_storage_key :: "string option"
  pa_url :: string
  pa_sha256 :: "string option"

record publish_options =
  po_task_id :: string
  po_file_path :: string
  po_filename :: "string option"

text \<open>Lower-casing: no character outside ASCII has a lower case that occurs in one of the names.\<close>

definition sniff_content_type :: "string \<Rightarrow> string option" where
  "sniff_content_type path =
     (case extension path of
        None \<Rightarrow> None
      | Some e \<Rightarrow>
          map_of [(''json'', ''application/json''), (''txt'', ''text/plain''), (''log'', ''text/plain''),
                  (''md'', ''text/markdown''), (''html'', ''text/html''), (''png'', ''image/png''),
                  (''jpg'', ''image/jpeg''), (''jpeg'', ''image/jpeg''), (''svg'', ''image/svg+xml''),
                  (''pdf'', ''application/pdf'')] (ascii_lower e))"

text \<open>The replies of the file system: creating the directory, reading the source, writing the copy.\<close>

record fs_reply =
  fs_mkdir :: "string + unit"
  fs_read :: "string + u8 list"
  fs_write :: "string + unit"

definition fs_error :: "string \<Rightarrow> string \<Rightarrow> string + 'a \<Rightarrow> string + 'a" where
  "fs_error what path r = (case r of Inl e \<Rightarrow> Inl (what @ '' '' @ path @ '': '' @ e) | Inr x \<Rightarrow> Inr x)"

definition artifact_filename :: "publish_options \<Rightarrow> string + string" where
  "artifact_filename opts =
     (case po_filename opts of
        Some f \<Rightarrow> Inr f
      | None \<Rightarrow> (case file_name (po_file_path opts) of
                   Some f \<Rightarrow> Inr f
                 | None \<Rightarrow> Inl ''cannot determine artifact filename''))"

definition publish_dest :: "string \<Rightarrow> string \<Rightarrow> string \<Rightarrow> string" where
  "publish_dest root task_id filename = path_join (path_join root task_id) filename"

definition publish :: "string \<Rightarrow> fs_reply \<Rightarrow> publish_options \<Rightarrow> string + published_artifact" where
  "publish root fs opts =
     res_bind (artifact_filename opts) (\<lambda>filename.
     let dest_dir = path_join root (po_task_id opts);
         dest = publish_dest root (po_task_id opts) filename
     in res_bind (fs_error ''mkdir'' dest_dir (fs_mkdir fs)) (\<lambda>_.
        res_bind (fs_error ''read'' (po_file_path opts) (fs_read fs)) (\<lambda>bytes.
        res_bind (fs_error ''write'' dest (fs_write fs)) (\<lambda>_.
          Inr \<lparr> pa_filename = filename, pa_content_type = sniff_content_type (po_file_path opts),
                pa_size_bytes = Some (of_nat (length bytes)), pa_storage_provider = ''local'',
                pa_storage_key = Some (''remote-dev/'' @ po_task_id opts @ ''/'' @ filename),
                pa_url = ''file://'' @ dest, pa_sha256 = Some (sha256_hex bytes) \<rparr>))))"

section \<open>The digest against its standard\<close>

text \<open>FIPS 180-4 states the padding by its number of zero bytes and the message schedule as a recurrence.\<close>

definition fips_pad :: "u8 list \<Rightarrow> u8 list" where
  "fips_pad data =
     data @ [0x80] @ replicate ((119 - length data mod 64) mod 64) 0 @ be_bytes64 (of_nat (length data) * 8)"

fun fips_w :: "u8 list \<Rightarrow> nat \<Rightarrow> u32" where
  "fips_w chunk t =
     (if t < 16
      then be_word32 (chunk ! (t * 4)) (chunk ! (t * 4 + 1)) (chunk ! (t * 4 + 2)) (chunk ! (t * 4 + 3))
      else fips_w chunk (t - 16) + small_sigma0 (fips_w chunk (t - 15)) + fips_w chunk (t - 7)
           + small_sigma1 (fips_w chunk (t - 2)))"

declare fips_w.simps [simp del]

definition fips_sha256 :: "u8 list \<Rightarrow> u32 list" where
  "fips_sha256 data =
     foldl (\<lambda>h chunk. map2 (+) h (foldl (sha_round (map (fips_w chunk) [0..<64])) h [0..<64]))
       sha_init (chunks_exact 64 (fips_pad data))"

lemma mod64_sub: "(120 - Suc n mod 64) mod 64 = (119 - n mod 64) mod (64 :: nat)"
proof -
  have "n mod 64 < 64" by simp
  then show ?thesis by (auto simp: mod_Suc)
qed

lemma pad_loop_zeros: "pad_loop msg = msg @ replicate ((120 - length msg mod 64) mod 64) 0"
proof (induction msg rule: pad_loop.induct)
  case (1 msg)
  define m where "m = length msg mod 64"
  show ?case
  proof (cases "m = 56")
    case True
    then show ?thesis by (subst pad_loop.simps) (simp add: m_def)
  next
    case False
    have m: "m < 64" by (simp add: m_def)
    have "(120 - m) mod 64 = Suc ((119 - m) mod 64)"
      using m False by (cases "m < 56") (auto simp: le_mod_geq)
    moreover have "pad_loop msg = (msg @ [0]) @ replicate ((119 - m) mod 64) 0"
      by (subst pad_loop.simps) (use 1 False in \<open>simp add: m_def mod64_sub\<close>)
    ultimately show ?thesis by (simp add: m_def replicate_append_same [symmetric])
  qed
qed

lemma sha_pad_fips: "sha_pad data = fips_pad data"
  by (simp add: sha_pad_def fips_pad_def pad_loop_zeros mod64_sub)

lemma length_schedule_steps [simp]: "length (foldl schedule_step w is) = length w"
  by (induction "is" arbitrary: w) (simp_all add: schedule_step_def)

lemma schedule_prefix:
  assumes "16 \<le> n" and "n \<le> 64"
  shows "foldl schedule_step (load_words chunk) [16..<n] = map (fips_w chunk) [0..<n] @ replicate (64 - n) 0"
  using assms
proof (induction n rule: dec_induct)
  case base
  have "map (fips_w chunk) [0..<16] =
      map (\<lambda>i. be_word32 (chunk ! (i * 4)) (chunk ! (i * 4 + 1)) (chunk ! (i * 4 + 2)) (chunk ! (i * 4 + 3))) [0..<16]"
    by (rule map_cong) (simp_all add: fips_w.simps)
  then show ?case by (simp add: load_words_def)
next
  case (step n)
  let ?W = "map (fips_w chunk) [0..<n] @ replicate (64 - n) 0"
  have at: "?W ! k = fips_w chunk k" if "k < n" for k
    using that by (simp add: nth_append)
  have "64 - n = Suc (64 - Suc n)" using step.prems by linarith
  then have "replicate (64 - n) (0 :: u32) = 0 # replicate (64 - Suc n) 0"
    by (metis replicate_Suc)
  then have upd: "?W [n := x] = map (fips_w chunk) [0..<n] @ x # replicate (64 - Suc n) 0" for x
    by (simp add: list_update_append)
  have "foldl schedule_step (load_words chunk) [16..<Suc n] = schedule_step ?W n"
    using step by simp
  also have "\<dots> = ?W [n := fips_w chunk n]"
    using step.hyps(1) at by (simp add: schedule_step_def fips_w.simps [of chunk n])
  finally show ?case by (simp add: upd)
qed

lemma schedule_fips: "schedule chunk = map (fips_w chunk) [0..<64]"
  using schedule_prefix [of 64 chunk] by (simp add: schedule_def)

lemma sha_round_length: "length v = 8 \<Longrightarrow> length (sha_round w v i) = 8"
  by (auto simp: sha_round_def Let_def split: list.splits)

lemma sha_rounds_length: "length v = 8 \<Longrightarrow> length (foldl (sha_round w) v is) = 8"
  by (induction "is" arbitrary: v) (simp_all add: sha_round_length)

lemma sha_blocks_length: "length h = 8 \<Longrightarrow> length (foldl sha_block h cs) = 8"
  by (induction cs arbitrary: h) (simp_all add: sha_block_def sha_rounds_length)

lemma sha256_words_length: "length (sha256_words data) = 8"
  by (simp add: sha256_words_def sha_blocks_length sha_init_def)

lemma length_concat_hex: "length (concat (map hex8 ws)) = 8 * length ws"
  by (induction ws) (simp_all add: hex8_def)

definition hex_alphabet :: "char set" where
  "hex_alphabet = set ''0123456789abcdef''"

lemma hex_digit_in: "n < 16 \<Longrightarrow> hex_digit n \<in> hex_alphabet"
  unfolding hex_digit_def hex_alphabet_def by (rule nth_mem) simp

lemma hex8_chars: "set (hex8 x) \<subseteq> hex_alphabet"
  by (auto simp: hex8_def intro: hex_digit_in)


text \<open>No two messages are padded alike.\<close>

lemma be_bytes64_inj: "be_bytes64 x = be_bytes64 y \<Longrightarrow> x = y"
proof (rule bit_word_eqI)
  fix n assume eq: "be_bytes64 x = be_bytes64 y" and "n < LENGTH(64)"
  then have n: "n < 64" by simp
  define i where "i = 7 - n div 8"
  have "n div 8 \<le> 7" using n by linarith
  then have i: "i < 8" "8 * (7 - i) + n mod 8 = n" by (simp_all add: i_def)
  have "be_bytes64 z ! i = (ucast (drop_bit (8 * (7 - i)) z) :: u8)" for z
    unfolding be_bytes64_def using i(1) by (subst nth_map) simp_all
  then have "(ucast (drop_bit (8 * (7 - i)) x) :: u8) = ucast (drop_bit (8 * (7 - i)) y)"
    using eq by metis
  then have "bit (ucast (drop_bit (8 * (7 - i)) x) :: u8) (n mod 8) = bit (ucast (drop_bit (8 * (7 - i)) y) :: u8) (n mod 8)"
    by simp
  then show "bit x n = bit y n" using i(2) by (simp add: bit_ucast_iff bit_drop_bit_eq)
qed

lemma sha_pad_inj:
  assumes "sha_pad a = sha_pad b" and "length a < 2 ^ 61" and "length b < 2 ^ 61"
  shows "a = b"
proof -
  have eq: "fips_pad a = fips_pad b" using assms(1) by (simp add: sha_pad_fips)
  have tail: "drop (length (fips_pad d) - 8) (fips_pad d) = be_bytes64 (of_nat (length d) * 8)" for d
    by (simp add: fips_pad_def be_bytes64_def)
  have "(of_nat (length a) * 8 :: u64) = of_nat (length b) * 8"
    using be_bytes64_inj tail [of a] tail [of b] eq by metis
  then have "unat (of_nat (length a * 8) :: u64) = unat (of_nat (length b * 8) :: u64)" by simp
  then have "length a = length b"
    using assms(2,3) by (simp only: unsigned_of_nat take_bit_nat_eq_self) (simp add: take_bit_nat_eq_self)
  moreover have "take (length d) (fips_pad d) = d" for d by (simp add: fips_pad_def)
  ultimately show ?thesis using eq by metis
qed

section \<open>Publishing in place\<close>

text \<open>
  The worker publishes from the directory that is also the root of its storage, so the copy of an
  output file is the file itself: it is read and then written back to its own path.
\<close>

definition plain_name :: "string \<Rightarrow> bool" where
  "plain_name n \<longleftrightarrow> n \<noteq> [] \<and> n \<noteq> ''.'' \<and> n \<noteq> ''..'' \<and> list_all (\<lambda>c. \<not> is_sep c) n"

lemma split_on_joined:
  assumes "plain_name n"
  shows "last (split_on is_sep (path_join d n)) = n"
proof -
  have abs: "\<not> is_absolute n" and none: "\<forall>c \<in> set n. \<not> is_sep c"
    using assms by (auto simp: plain_name_def is_absolute_def list_all_iff)
  then have one: "split_on is_sep n = [n]" by (simp add: split_on_none)
  consider "d = []" | d' where "d = d' @ [CHR ''/'']" | "d \<noteq> []" "\<not> is_sep (last d)"
    by (metis append_butlast_last_id is_sep_def)
  then show ?thesis
  proof cases
    case 1
    then show ?thesis using abs one by (simp add: path_join_def)
  next
    case 2
    then have "path_join d n = d' @ CHR ''/'' # n" using abs by (simp add: path_join_def is_sep_def)
    then show ?thesis using one by (simp add: split_on_append_sep is_sep_def)
  next
    case 3
    then have "path_join d n = d @ CHR ''/'' # n" using abs by (simp add: path_join_def)
    then show ?thesis using one by (simp add: split_on_append_sep is_sep_def)
  qed
qed

lemma last_concat_part:
  "xs \<noteq> [] \<Longrightarrow> plain_name (last xs) \<Longrightarrow>
     concat (map part_component xs) \<noteq> [] \<and> last (concat (map part_component xs)) = Normal (last xs)"
  by (cases xs rule: rev_cases) (simp_all add: plain_name_def)

lemma file_name_joined: "plain_name n \<Longrightarrow> file_name (path_join d n) = Some n"
  using last_concat_part [of "split_on is_sep (path_join d n)"] split_on_joined [of n d]
  by (auto simp: file_name_def components_def Let_def)

lemma res_bind_InrE:
  assumes "res_bind r f = Inr y" obtains x where "r = Inr x" and "f x = Inr y"
  using assms by (auto simp: res_bind_Inr_iff)

lemma publish_url:
  assumes "publish root fs opts = Inr a"
  shows "\<exists>f. artifact_filename opts = Inr f \<and> pa_url a = ''file://'' @ publish_dest root (po_task_id opts) f"
proof -
  obtain f where f: "artifact_filename opts = Inr f"
    using assms by (cases "artifact_filename opts") (simp_all add: publish_def)
  then have "pa_url a = ''file://'' @ publish_dest root (po_task_id opts) f"
    using assms unfolding publish_def Let_def
    by (simp only: f res_bind_simps) (elim res_bind_InrE, simp, erule subst, simp)
  with f show ?thesis by blast
qed

lemma publish_overwrites_source:
  assumes n: "plain_name n" and ok: "publish root fs \<lparr>po_task_id = t, po_file_path = p, po_filename = None\<rparr> = Inr a"
    and p: "p = path_join (path_join root t) n"
  shows "pa_url a = ''file://'' @ p"
proof -
  have "artifact_filename \<lparr>po_task_id = t, po_file_path = p, po_filename = None\<rparr> = Inr n"
    using file_name_joined [OF n] p by (simp add: artifact_filename_def)
  with publish_url [OF ok] show ?thesis by (auto simp: p publish_dest_def)
qed

end
