(* ===== verification/State.thy ===== *)
theory State
  imports Prelude Agents Config ControlPlane EventBus GitNames
begin

text \<open>
  The shared state of the worker (src/src/state.rs): sessions, tasks, the sequence numbers of a
  task's events, the reclaiming of finished tasks, and the session lookup of orchestrator.rs.

  An \<open>Arc\<close> to a session is its session id: a registered task keeps its session registered
  (\<open>State_Sessions\<close>), so the id always denotes the shared object. The async mutexes of a session are
  not state of their own: \<open>queue\<close> is held by the task that \<open>running_task_id\<close> names, \<open>ready\<close> is the flag
  it protects.
\<close>

section \<open>Sessions and tasks\<close>

record thread_session =
  ts_session_id :: string
  ts_user_id :: "string option"
  ts_workspace_path :: string
  ts_branch :: string
  ts_ready :: bool
  ts_task_ids :: "string list"
  ts_queued_task_ids :: "string list"
  ts_running_task_id :: "string option"

record task_state =
  tk_task_id :: string
  tk_prompt :: string
  tk_user_id :: "string option"
  tk_thread_id :: "string option"
  tk_provider :: agent_provider
  tk_branch :: string
  tk_worktree_path :: string
  tk_session :: string
  tk_cancel :: bool
  tk_seq :: int
  tk_finished :: bool
  tk_cancelled :: bool
  tk_finished_at :: "int option"

definition next_seq :: "task_state \<Rightarrow> int \<times> task_state" where
  "next_seq t = (tk_seq t, t\<lparr>tk_seq := i64_wrap (tk_seq t + 1)\<rparr>)"

definition is_finished :: "task_state \<Rightarrow> bool" where
  "is_finished t \<longleftrightarrow> tk_finished t"

text \<open>\<open>m.entry("provider").or_insert_with(..)\<close>: an event that names a provider keeps it.\<close>

definition with_provider :: "agent_provider \<Rightarrow> json \<Rightarrow> json" where
  "with_provider p event =
     (case event of
        JObject kvs \<Rightarrow>
          if map_of kvs ''provider'' = None then JObject (kvs @ [(''provider'', JString (provider_as_str p))])
          else event
      | _ \<Rightarrow> event)"

text \<open>What the bus reads besides its arguments: the redaction and the clock.\<close>

record emitter =
  em_clean :: "string \<Rightarrow> string"
  em_now :: int
  em_stamp :: string

definition emit_task :: "emitter \<Rightarrow> json \<Rightarrow> task_state \<times> event_bus \<Rightarrow> task_state \<times> event_bus" where
  "emit_task em event tb =
     (case tb of (t, b) \<Rightarrow>
        (case next_seq t of (seq, t) \<Rightarrow>
           (t, emit (em_clean em) (em_now em) (em_stamp em)
                 \<lparr>be_task_id = tk_task_id t, be_thread_id = tk_thread_id t, be_user_id = tk_user_id t,
                  be_seq = seq, be_event = with_provider (tk_provider t) event\<rparr> b)))"

section \<open>The worker\<close>

record app =
  ap_config :: config
  ap_bus :: event_bus
  ap_control_plane :: control_plane
  ap_sessions :: "(string, thread_session) hmap"
  ap_tasks :: "(string, task_state) hmap"
  ap_started_at :: string
  ap_instance_id :: string
  ap_spawned :: "string list"

definition app_emit :: "emitter \<Rightarrow> string \<Rightarrow> json \<Rightarrow> app \<Rightarrow> app" where
  "app_emit em task_id event a =
     (case hm_get (ap_tasks a) task_id of
        None \<Rightarrow> a
      | Some t \<Rightarrow>
          (case emit_task em event (t, ap_bus a) of
             (t, b) \<Rightarrow> a\<lparr>ap_tasks := hm_insert task_id t (ap_tasks a), ap_bus := b\<rparr>))"

definition session_id :: "config \<Rightarrow> string option \<Rightarrow> string \<Rightarrow> string" where
  "session_id c thread_id task_id =
     (case or_else thread_id (cfg_thread_id c) of Some s \<Rightarrow> s | None \<Rightarrow> task_id)"

definition map_session :: "(thread_session \<Rightarrow> thread_session) \<Rightarrow> string \<Rightarrow> app \<Rightarrow> app" where
  "map_session f sid a =
     (case hm_get (ap_sessions a) sid of
        None \<Rightarrow> a
      | Some s \<Rightarrow> a\<lparr>ap_sessions := hm_insert sid (f s) (ap_sessions a)\<rparr>)"

definition map_task :: "(task_state \<Rightarrow> task_state) \<Rightarrow> string \<Rightarrow> app \<Rightarrow> app" where
  "map_task f tid a =
     (case hm_get (ap_tasks a) tid of
        None \<Rightarrow> a
      | Some t \<Rightarrow> a\<lparr>ap_tasks := hm_insert tid (f t) (ap_tasks a)\<rparr>)"

text \<open>The session a task is put on: its object if the id is known, else a new one.\<close>

definition new_session :: "config \<Rightarrow> string \<Rightarrow> string option \<Rightarrow> string \<Rightarrow> thread_session" where
  "new_session c sid user_id branch =
     \<lparr>ts_session_id = sid, ts_user_id = user_id, ts_workspace_path = cfg_workspace_repo c, ts_branch = branch,
      ts_ready = False, ts_task_ids = [], ts_queued_task_ids = [], ts_running_task_id = None\<rparr>"

definition get_or_create_session ::
  "(string \<Rightarrow> string) \<Rightarrow> string \<Rightarrow> string option \<Rightarrow> string option \<Rightarrow> string option \<Rightarrow> string option \<Rightarrow> string option \<Rightarrow> app \<Rightarrow>
     (string + thread_session) \<times> app" where
  "get_or_create_session lowercase task_id thread_id user_id branch_hint title_hint prompt_hint a =
     (let sid = session_id (ap_config a) thread_id task_id in
      case session_branch lowercase (cfg_agent_branch_prefix (ap_config a)) sid branch_hint title_hint prompt_hint of
        Inl e \<Rightarrow> (Inl e, a)
      | Inr desired_branch \<Rightarrow>
          (case hm_get (ap_sessions a) sid of
             Some existing \<Rightarrow> (Inr existing, a)
           | None \<Rightarrow>
               let s = new_session (ap_config a) sid user_id desired_branch
               in (Inr s, a\<lparr>ap_sessions := hm_insert sid s (ap_sessions a)\<rparr>)))"

section \<open>Reclaiming finished tasks\<close>

definition expired :: "int \<Rightarrow> task_state \<Rightarrow> bool" where
  "expired cutoff t \<longleftrightarrow> is_finished t \<and> (case tk_finished_at t of None \<Rightarrow> False | Some ts \<Rightarrow> ts < cutoff)"

definition gc_one :: "string \<Rightarrow> app \<Rightarrow> app" where
  "gc_one i a =
     (let a = (case hm_get (ap_tasks a) i of
                 None \<Rightarrow> a
               | Some t \<Rightarrow>
                   map_session (\<lambda>s. s\<lparr>ts_task_ids := filter (\<lambda>x. x \<noteq> i) (ts_task_ids s)\<rparr>) (tk_session t)
                     (a\<lparr>ap_tasks := hm_remove i (ap_tasks a)\<rparr>))
      in a\<lparr>ap_bus := gc_task i (ap_bus a)\<rparr>)"

definition gc_finished :: "int \<Rightarrow> int \<Rightarrow> app \<Rightarrow> nat \<times> app" where
  "gc_finished now retain_ms a =
     (let cutoff = i64_wrap (now - max retain_ms 0);
          ids = map tk_task_id (filter (expired cutoff) (hm_values (ap_tasks a)));
          a = foldl (\<lambda>a i. gc_one i a) a ids;
          a = a\<lparr>ap_sessions := hm_retain (\<lambda>_ s. ts_task_ids s \<noteq> [] \<or> ts_running_task_id s \<noteq> None) (ap_sessions a)\<rparr>
      in (length ids, a))"

end
