(* ===== verification/Prompt.thy ===== *)
theory Prompt
  imports Text
begin

text \<open>
  The prompt heuristics of src/src/prompt.rs. The regex crate is a parameter, an engine: for a
  pattern and a text the matches from left to right, each with the text before it, and the rest;
  and the capture groups of the first match. In a pattern the percent sign stands for the backslash.
\<close>

record regex_engine =
  rx_matches :: "string \<Rightarrow> string \<Rightarrow> (string \<times> string) list \<times> string"
  rx_captures :: "string \<Rightarrow> string \<Rightarrow> string option list option"

definition rx :: "string \<Rightarrow> string" where
  "rx p = map (\<lambda>c. if c = CHR ''%'' then CHR 0x5C else c) p"

definition is_match :: "regex_engine \<Rightarrow> string \<Rightarrow> string \<Rightarrow> bool" where
  "is_match en p text \<longleftrightarrow> fst (rx_matches en p text) \<noteq> []"

definition replace_matches :: "regex_engine \<Rightarrow> string \<Rightarrow> string \<Rightarrow> string \<Rightarrow> string" where
  "replace_matches en p repl text =
     (case rx_matches en p text of (ms, rest) \<Rightarrow> concat (map (\<lambda>m. fst m @ repl) ms) @ rest)"

section \<open>Pull requests\<close>

definition negated_pr :: string where
  \<open>negated_pr = rx ''(?i)%b(?:do%s+not|don't|dont|never)%s+(?:(?:open|create|submit|make|raise)%s+)?(?:a%s+)?(?:draft%s+)?(?:pr|pull%s+request|merge%s+request)%b''\<close>

definition negated_pr_without :: string where
  \<open>negated_pr_without = rx ''(?i)%b(?:without|no)%s+(?:(?:opening|creating|submitting|making|raising)%s+)?(?:a%s+)?(?:draft%s+)?(?:pr|pull%s+request|merge%s+request)s?%b''\<close>

definition negated_pr_bare :: string where
  \<open>negated_pr_bare = rx ''(?i)%b(?:without|no)%s+(?:pr|pull%s+request|merge%s+request)s?%b''\<close>

definition pr_request :: string where
  \<open>pr_request = rx ''(?i)%b(?:open|create|submit|make|raise)%s+(?:a%s+)?(?:draft%s+)?(?:pr|pull%s+request|merge%s+request)%b''\<close>

definition pr_mention :: string where
  \<open>pr_mention = rx ''(?i)%b(?:pr|pull%s+request|merge%s+request)%b''\<close>

definition strip_negated_pr :: "regex_engine \<Rightarrow> string \<Rightarrow> string" where
  "strip_negated_pr en prompt =
     replace_matches en negated_pr_bare '' '' (replace_matches en negated_pr_without '' ''
       (replace_matches en negated_pr '' '' prompt))"

definition prompt_requests_pull_request :: "regex_engine \<Rightarrow> string \<Rightarrow> bool" where
  "prompt_requests_pull_request en prompt \<longleftrightarrow>
     (let stripped = strip_negated_pr en prompt
      in is_match en pr_request stripped \<or> is_match en pr_mention stripped)"

section \<open>Workspace changes and access\<close>

definition negated_change_1 :: string where
  \<open>negated_change_1 = rx ''(?i)%b(?:do%s+not|don't|dont|never)%s+(?:make%s+)?(?:any%s+)?(?:file|code|workspace|repo(?:sitory)?|source)?%s*(?:changes?|edits?|modifications?)%b''\<close>

definition negated_change_2 :: string where
  \<open>negated_change_2 = rx ''(?i)%b(?:do%s+not|don't|dont|never)%s+(?:edit|change|modify|write|update|create|delete|remove|patch|fix|implement)%b''\<close>

definition negated_change_3 :: string where
  \<open>negated_change_3 = rx ''(?i)%b(?:without|no)%s+(?:making%s+)?(?:any%s+)?(?:file|code|workspace|repo(?:sitory)?|source)?%s*(?:changes?|edits?|modifications?)%b''\<close>

definition strip_negated_change :: "regex_engine \<Rightarrow> string \<Rightarrow> string" where
  "strip_negated_change en prompt =
     replace_matches en negated_change_3 '' '' (replace_matches en negated_change_2 '' ''
       (replace_matches en negated_change_1 '' '' prompt))"

definition change_verb :: string where
  \<open>change_verb = rx ''(?i)%b(add|append|change|create|delete|edit|fix|implement|modify|move|patch|refactor|remove|rename|replace|update|write)%b''\<close>

definition prompt_likely_requires_workspace_change :: "regex_engine \<Rightarrow> string \<Rightarrow> bool" where
  "prompt_likely_requires_workspace_change en prompt \<longleftrightarrow> is_match en change_verb (strip_negated_change en prompt)"

definition named_file :: string where
  \<open>named_file = rx ''(?i)%b(readme(?:%.md)?|package(?:%.json)?|pnpm-lock|dockerfile|makefile|tsconfig|cargo%.toml|go%.mod)%b''\<close>

definition workspace_noun :: string where
  \<open>workspace_noun = rx ''(?i)%b(repo(?:sitory)?|codebase|workspace|working tree|source tree|folders?|directories|dirs?|files?|top[- ]level|root)%b''\<close>

definition inspection_verb :: string where
  \<open>inspection_verb = rx ''(?i)%b(count|find|grep|how many|inspect|list|look|open|read|search|show|tree|what|where|which)%b''\<close>

definition prompt_likely_requires_workspace_access :: "regex_engine \<Rightarrow> string \<Rightarrow> bool" where
  "prompt_likely_requires_workspace_access en prompt \<longleftrightarrow>
     (if prompt_likely_requires_workspace_change en prompt then True
      else let workspace = strip_negated_change en prompt in
        if is_match en named_file workspace then True
        else is_match en workspace_noun workspace \<and> is_match en inspection_verb workspace)"

section \<open>Shell access\<close>

definition shell_git :: string where
  \<open>shell_git = rx ''(?i)%bgit%s+(?:fetch|merge|push|commit|branch)%b''\<close>

definition shell_fetch_push :: string where
  \<open>shell_fetch_push = rx ''(?i)%b(?:fetch|push)%s+(?:origin|the%s+current%s+branch|current%s+branch|branches?)%b''\<close>

definition shell_commit :: string where
  \<open>shell_commit = rx ''(?i)%bcommit%s+(?:the%s+integrated%s+result|current%s+changes?|workspace%s+changes?|merge%s+result)%b''\<close>

definition shell_merge_sibling :: string where
  \<open>shell_merge_sibling = rx ''(?i)%bmerge%s+(?:with%s+)?sibling%b''\<close>

definition shell_sibling_branches :: string where
  \<open>shell_sibling_branches = rx ''(?i)%bsibling%s+feature%s+branches?%b''\<close>

definition prompt_likely_requires_shell_access :: "regex_engine \<Rightarrow> string \<Rightarrow> bool" where
  "prompt_likely_requires_shell_access en prompt \<longleftrightarrow>
     (let p = strip_negated_change en prompt
      in is_match en shell_git p \<or> is_match en shell_fetch_push p \<or> is_match en shell_commit p
         \<or> is_match en shell_merge_sibling p \<or> is_match en shell_sibling_branches p)"

section \<open>Deterministic edits\<close>

record append_file_edit =
  af_text :: string
  af_relative_path :: string

definition append_quoted :: string where
  \<open>append_quoted = rx ''(?i)%b(?:append(?:ing)?|add(?:ing)?)%s+(?:"([^"]+)"|'([^']+)'|`([^`]+)`)%s+(?:to|into)%s+(?:the%s+)?(?:file%s+)?([A-Za-z0-9][A-Za-z0-9._/-]*)''\<close>

definition append_unquoted :: string where
  \<open>append_unquoted = rx ''(?i)%b(?:append(?:ing)?|add(?:ing)?)%s+([A-Za-z0-9][A-Za-z0-9._-]*)%s+(?:to|into)%s+(?:the%s+)?(?:file%s+)?([A-Za-z0-9][A-Za-z0-9._/-]*)''\<close>

text \<open>\<open>c.get(i)\<close>: a group that took no part in the match is absent.\<close>

definition group :: "string option list \<Rightarrow> nat \<Rightarrow> string option" where
  "group gs i = (if i < length gs then gs ! i else None)"

definition first_group :: "string option list \<Rightarrow> string" where
  "first_group gs =
     (case group gs 1 of Some t \<Rightarrow> t
      | None \<Rightarrow> (case group gs 2 of Some t \<Rightarrow> t
      | None \<Rightarrow> (case group gs 3 of Some t \<Rightarrow> t | None \<Rightarrow> [])))"

definition parse_deterministic_append :: "regex_engine \<Rightarrow> string \<Rightarrow> append_file_edit option" where
  "parse_deterministic_append en prompt =
     (case rx_captures en append_quoted prompt of
        Some c \<Rightarrow>
          map_option (\<lambda>path. \<lparr>af_text = first_group c, af_relative_path = path\<rparr>) (group c 4)
      | None \<Rightarrow>
          (case rx_captures en append_unquoted prompt of
             None \<Rightarrow> None
           | Some c \<Rightarrow>
               (case (group c 1, group c 2) of
                  (Some t, Some path) \<Rightarrow> Some \<lparr>af_text = t, af_relative_path = path\<rparr>
                | _ \<Rightarrow> None)))"

section \<open>Facts\<close>

text \<open>A prompt without a negation is judged as it is.\<close>

lemma replace_matches_none: "rx_matches en p text = ([], text) \<Longrightarrow> replace_matches en p r text = text"
  by (simp add: replace_matches_def)

lemma strip_negated_change_id:
  "rx_matches en negated_change_1 p = ([], p) \<Longrightarrow> rx_matches en negated_change_2 p = ([], p) \<Longrightarrow>
   rx_matches en negated_change_3 p = ([], p) \<Longrightarrow> strip_negated_change en p = p"
  by (simp add: strip_negated_change_def replace_matches_none)

lemma change_needs_access:
  "prompt_likely_requires_workspace_change en p \<Longrightarrow> prompt_likely_requires_workspace_access en p"
  by (simp add: prompt_likely_requires_workspace_access_def)

end
