(* ===== verification/Exec.thy ===== *)
theory Exec
  imports State GitOps Storage Prompt
begin

text \<open>
  The machine a task runs on. It follows one task: its state and its session, the event bus, and the
  trace of what the task did to the outside. Everything the outside answers is a script of the
  state, consumed in order: how each child process ends, what each control-plane call meets, the
  file system, the agent's output, the clock.

  Concurrency is a script as well. At each suspension point of the code (an await) the interrupts
  that arrive there are handled: a cancellation request, a tick of the renewal timer, a line of a
  reader task that outlived its agent. Between two awaits only the first and the last can arrive,
  from other threads; they are taken just before the code next looks at the cancellation flags.
\<close>

section \<open>State\<close>

datatype act =
    Command string "string list"
  | Claimed work_claim
  | Transition work_claim string
  | Replied bool
  | Renewed work_claim bool
  | Agent_Started command
  | Made_Dir string
  | Wrote string string
  | Publishing string
  | Emitted json
  | Cancel_Requested

datatype interrupt =
    Cancel_Request
  | Renew_Tick cp_world
  | Late_Line output_line

text \<open>An output file of the task: its path, whether it is a file, what publishing it meets.\<close>

record output_file =
  of_path :: string
  of_is_file :: bool
  of_reply :: fs_reply
  of_cancel_wins :: bool

record agent_script =
  as_spawn_error :: "string option"
  as_lines :: "output_line list"
  as_end :: child_end

record exec =
  x_task :: task_state
  x_session :: thread_session
  x_bus :: event_bus
  x_trace :: "act list"
  x_keep :: "work_claim option"
  x_lost :: "string option"
  x_readers :: bool
  x_interrupts :: "nat \<Rightarrow> interrupt list"
  x_children :: "nat \<Rightarrow> sh_end"
  x_calls :: "nat \<Rightarrow> cp_world"
  x_files :: "nat \<Rightarrow> string + string"
  x_clock :: "nat \<Rightarrow> int \<times> string"
  x_agent :: agent_script
  x_outputs :: "output_file list option"

text \<open>What does not change while the task runs.\<close>

record site =
  si_config :: config
  si_control_plane :: control_plane
  si_environ :: "string \<Rightarrow> string option"
  si_clean :: "string \<Rightarrow> string"
  si_lossy :: "string \<Rightarrow> string"
  si_show_secs :: "nat \<Rightarrow> string"
  si_show_limit :: string
  si_parse_line :: "string \<Rightarrow> json option"
  si_engine :: regex_engine

type_synonym 'a act_m = "(exec, fault, 'a) action"

section \<open>Primitive steps\<close>

definition record_act :: "act \<Rightarrow> exec \<Rightarrow> exec" where
  "record_act a x = x\<lparr>x_trace := x_trace x @ [a]\<rparr>"

definition emit_now :: "site \<Rightarrow> json \<Rightarrow> exec \<Rightarrow> exec" where
  "emit_now si event x =
     (let clock = x_clock x 0;
          em = \<lparr>em_clean = si_clean si, em_now = fst clock, em_stamp = snd clock\<rparr>
      in case emit_task em event (x_task x, x_bus x) of
           (t, b) \<Rightarrow> record_act (Emitted (with_provider (tk_provider (x_task x)) event))
                       (x\<lparr>x_task := t, x_bus := b, x_clock := (\<lambda>n. x_clock x (Suc n))\<rparr>))"

definition emit_m :: "site \<Rightarrow> json \<Rightarrow> unit act_m" where
  "emit_m si event = io_do (emit_now si event)"

definition status_event :: "string \<Rightarrow> string \<Rightarrow> json" where
  "status_event status message =
     JObject [(''kind'', JString ''status''), (''status'', JString status), (''message'', JString message)]"

definition stderr_event :: "string \<Rightarrow> json" where
  "stderr_event text = JObject [(''kind'', JString ''stderr''), (''text'', JString text)]"

definition error_event :: "string \<Rightarrow> json" where
  "error_event message = JObject [(''kind'', JString ''error''), (''message'', JString message)]"

text \<open>The emit callback of \<open>run_agent\<close>.\<close>

fun agent_event :: "runner_event \<Rightarrow> json" where
  "agent_event (Claude raw) = JObject [(''kind'', JString ''claude''), (''raw'', raw)]"
| "agent_event (Stderr text) = stderr_event text"
| "agent_event (Error message) = error_event message"

definition emit_line :: "site \<Rightarrow> output_line \<Rightarrow> exec \<Rightarrow> exec" where
  "emit_line si line x = foldl (\<lambda>x ev. emit_now si (agent_event ev) x) x (line_event (si_parse_line si) line)"

section \<open>Interrupts\<close>

text \<open>The cancel route on this task: refused once it is finished.\<close>

definition cancel_request :: "site \<Rightarrow> exec \<Rightarrow> exec" where
  "cancel_request si x =
     (if is_finished (x_task x) then x
      else emit_now si (status_event ''cancelling'' ''Cancellation requested'')
             (record_act Cancel_Requested (x\<lparr>x_task := (x_task x)\<lparr>tk_cancelled := True, tk_cancel := True\<rparr>\<rparr>)))"

text \<open>A tick of the renewal timer, while a claim is kept alive: a renewal that fails cancels the task
  and ends the renewals.\<close>

definition renew_tick :: "site \<Rightarrow> cp_world \<Rightarrow> exec \<Rightarrow> exec" where
  "renew_tick si w x =
     (case (x_keep x, x_lost x) of
        (Some claim, None) \<Rightarrow>
          (case renew_claim w (si_control_plane si) claim of
             Inr _ \<Rightarrow> record_act (Renewed claim True) x
           | Inl e \<Rightarrow> record_act (Renewed claim False)
                       (x\<lparr>x_task := (x_task x)\<lparr>tk_cancel := True\<rparr>, x_lost := Some e\<rparr>))
      | _ \<Rightarrow> x)"

definition late_line :: "site \<Rightarrow> output_line \<Rightarrow> exec \<Rightarrow> exec" where
  "late_line si line x = (if x_readers x then emit_line si line x else x)"

fun handle_interrupt :: "site \<Rightarrow> exec \<Rightarrow> interrupt \<Rightarrow> exec" where
  "handle_interrupt si x Cancel_Request = cancel_request si x"
| "handle_interrupt si x (Renew_Tick w) = renew_tick si w x"
| "handle_interrupt si x (Late_Line line) = late_line si line x"

fun needs_await :: "interrupt \<Rightarrow> bool" where
  "needs_await (Renew_Tick w) = True"
| "needs_await _ = False"

definition next_interrupts :: "exec \<Rightarrow> interrupt list \<times> exec" where
  "next_interrupts x = (x_interrupts x 0, x\<lparr>x_interrupts := (\<lambda>n. x_interrupts x (Suc n))\<rparr>)"

definition await :: "site \<Rightarrow> unit act_m" where
  "await si = io_do (\<lambda>x. case next_interrupts x of (is, x) \<Rightarrow> foldl (handle_interrupt si) x is)"

definition preempt :: "site \<Rightarrow> unit act_m" where
  "preempt si =
     io_do (\<lambda>x. case next_interrupts x of
                  (is, x) \<Rightarrow> foldl (handle_interrupt si) x (filter (\<lambda>i. \<not> needs_await i) is))"

definition ensure_task_active :: "site \<Rightarrow> unit act_m" where
  "ensure_task_active si =
     io_bind (preempt si) (\<lambda>_.
     io_bind (io_get x_task) (\<lambda>t.
       if tk_cancel t
       then io_fail (Fail (if tk_cancelled t then ''task cancelled by request''
                           else ''task cancelled after loss of work-item authority''))
       else io_return ()))"

text \<open>The check with an optional token.\<close>

definition ensure_cancel_active :: "site \<Rightarrow> bool \<Rightarrow> unit act_m" where
  "ensure_cancel_active si has_token =
     io_bind (preempt si) (\<lambda>_.
     io_bind (io_get x_task) (\<lambda>t.
       if has_token \<and> tk_cancel t then io_fail (Fail ''task cancelled by request'') else io_return ()))"

section \<open>Child processes, files and the control plane\<close>

text \<open>A child that does not end by itself is cancelled if its token is, and else runs into its timeout.\<close>

fun observed_end :: "bool \<Rightarrow> sh_end \<Rightarrow> sh_end" where
  "observed_end cancelled (Sh_Cancelled reap) = (if cancelled then Sh_Cancelled reap else Sh_Timed_Out reap)"
| "observed_end cancelled e = e"

definition run_child :: "site \<Rightarrow> bool \<Rightarrow> exec runner" where
  "run_child si has_token program args secs =
     io_bind (io_do (record_act (Command program args))) (\<lambda>_.
     io_bind (await si) (\<lambda>_ x.
       let e = observed_end (has_token \<and> tk_cancel (x_task x)) (x_children x 0)
       in (lift_sh (sh_capture (si_lossy si) (si_show_secs si secs) program args e),
           x\<lparr>x_children := (\<lambda>n. x_children x (Suc n))\<rparr>)))"

definition file_call :: "site \<Rightarrow> (string + string) act_m" where
  "file_call si =
     io_bind (await si) (\<lambda>_ x. (Inr (x_files x 0), x\<lparr>x_files := (\<lambda>n. x_files x (Suc n))\<rparr>))"

definition next_call :: "cp_world act_m" where
  "next_call x = (Inr (x_calls x 0), x\<lparr>x_calls := (\<lambda>n. x_calls x (Suc n))\<rparr>)"

definition claim_m :: "site \<Rightarrow> string \<Rightarrow> work_claim act_m" where
  "claim_m si work_item_id =
     io_bind (await si) (\<lambda>_.
     io_bind next_call (\<lambda>w.
     io_bind (io_lift (claim_work w (si_control_plane si) work_item_id claim_lease_ttl_ms)) (\<lambda>claim.
     io_bind (io_do (record_act (Claimed claim))) (\<lambda>_. io_return claim))))"

definition transition_m :: "site \<Rightarrow> work_claim \<Rightarrow> string \<Rightarrow> unit act_m" where
  "transition_m si claim status =
     io_bind (io_do (record_act (Transition claim status))) (\<lambda>_.
     io_bind (await si) (\<lambda>_.
     io_bind next_call (\<lambda>w.
       let r = cp_transition w (si_control_plane si) claim status
       in io_bind (io_do (record_act (Replied (is_ok r)))) (\<lambda>_. io_lift r))))"

definition renew_m :: "site \<Rightarrow> work_claim \<Rightarrow> unit act_m" where
  "renew_m si claim =
     io_bind (await si) (\<lambda>_.
     io_bind next_call (\<lambda>w.
       let r = renew_claim w (si_control_plane si) claim
       in io_bind (io_do (record_act (Renewed claim (is_ok r)))) (\<lambda>_. io_lift r)))"

end
