(* ===== verification/Orchestrator.thy ===== *)
theory Orchestrator
  imports Exec
begin

text \<open>
  Task orchestration, src/src/orchestrator.rs: preparing the session's workspace, the lifecycle of a
  task, its claim on the work item and the renewals that keep it, and the events it ends with.
\<close>

section \<open>Preparing the workspace\<close>

definition set_ready :: "unit act_m" where
  "set_ready = io_do (\<lambda>x. x\<lparr>x_session := (x_session x)\<lparr>ts_ready := True\<rparr>\<rparr>)"

definition identity_m :: "site \<Rightarrow> bool \<Rightarrow> unit act_m" where
  "identity_m si c =
     configure_identity (run_child si c) (cfg_git_author_name (si_config si)) (cfg_git_author_email (si_config si))"

text \<open>Which remote branch the session branch starts from.\<close>

definition switch_source :: "site \<Rightarrow> bool \<Rightarrow> string \<Rightarrow> string act_m" where
  "switch_source si c branch =
     io_bind (attempt (remote_branch_exists (run_child si c) branch)) (\<lambda>r.
     io_bind (ensure_cancel_active si c) (\<lambda>_.
       if r = Inr True then
         io_bind (attempt (fetch_remote_branch (run_child si c) branch 1)) (\<lambda>_.
         io_bind (ensure_cancel_active si c) (\<lambda>_. io_return (''origin/'' @ branch)))
       else io_return (''origin/'' @ cfg_base_branch (si_config si))))"

definition checked_out_branch :: "site \<Rightarrow> bool \<Rightarrow> string option act_m" where
  "checked_out_branch si c =
     (if c then current_branch_with_cancel (run_child si c) else current_branch (run_child si c))"

definition switch_if_needed :: "site \<Rightarrow> bool \<Rightarrow> string \<Rightarrow> string option \<Rightarrow> string \<Rightarrow> unit act_m" where
  "switch_if_needed si c branch current source =
     (if current = Some branch then io_return ()
      else
        io_bind (workspace_status (run_child si c)) (\<lambda>status.
          if trim status \<noteq> [] then
            io_fail (Fail (''workspace has uncommitted changes while on ''
              @ (case current of Some b \<Rightarrow> b | None \<Rightarrow> ''detached HEAD'')
              @ ''; refusing to switch to '' @ branch))
          else io_map (\<lambda>_. ()) (run_child si c ''git'' (switch_args branch source) git_timeout_quick_s)))"

definition prepare_session_workspace_inner :: "site \<Rightarrow> bool \<Rightarrow> unit act_m" where
  "prepare_session_workspace_inner si c =
     io_bind (await si) (\<lambda>_.
     io_bind (io_get x_session) (\<lambda>session.
       let cfg = si_config si; branch = ts_branch session in
       if ts_ready session then io_return ()
       else
         io_bind (ensure_cancel_active si c) (\<lambda>_.
         if cfg_skip_boot_git_sync cfg then
           io_bind (identity_m si c) (\<lambda>_.
           io_bind (ensure_cancel_active si c) (\<lambda>_. set_ready))
         else
           io_bind (fetch_remote_branch (run_child si c) (cfg_base_branch cfg) 1) (\<lambda>_.
           io_bind (ensure_cancel_active si c) (\<lambda>_.
           io_bind (switch_source si c branch) (\<lambda>source.
           io_bind (ensure_cancel_active si c) (\<lambda>_.
           io_bind (checked_out_branch si c) (\<lambda>current.
           io_bind (ensure_cancel_active si c) (\<lambda>_.
           io_bind (switch_if_needed si c branch current source) (\<lambda>_.
             if branch = cfg_base_branch cfg then
               io_fail (Fail (''refusing to run '' @ ts_session_id session @ '' on parent branch '' @ cfg_base_branch cfg))
             else
               io_bind (ensure_cancel_active si c) (\<lambda>_.
               io_bind (identity_m si c) (\<lambda>_.
               io_bind (ensure_cancel_active si c) (\<lambda>_. set_ready)))))))))))))"

section \<open>The deterministic edit\<close>

function trim_start_matches :: "string \<Rightarrow> string \<Rightarrow> string" where
  "trim_start_matches pat s =
     (case strip_prefix pat s of
        None \<Rightarrow> s
      | Some r \<Rightarrow> if pat = [] then s else trim_start_matches pat r)"
  by pat_completeness auto
termination
  by (relation "measure (\<lambda>(pat, s). length s)") (auto simp: strip_prefix_Some)

declare trim_start_matches.simps [simp del]

definition blocked_names :: "string list" where
  "blocked_names = [''.git'', ''node_modules'', ''.pnpm-store'', ''.next'', ''.turbo'']"

fun refused_component :: "string \<Rightarrow> path_component \<Rightarrow> string option" where
  "refused_component raw ParentDir = Some (''refusing append outside repo: '' @ raw)"
| "refused_component raw (Normal p) =
     (if p \<in> set blocked_names then Some (''refusing append into generated path: '' @ raw) else None)"
| "refused_component raw _ = None"

definition safe_repo_relative :: "string \<Rightarrow> string + string" where
  "safe_repo_relative raw =
     (let trimmed = trim_end_chars (set '').,;:'') (trim_start_matches ''./'' (trim raw)) in
      if trimmed = [] \<or> CHR 0x00 \<in> set trimmed \<or> is_absolute trimmed
      then Inl (''refusing unsafe append path: '' @ raw)
      else
        (case List.map_filter (refused_component raw) (components trimmed) of
           e # _ \<Rightarrow> Inl e
         | [] \<Rightarrow> Inr (replace_char CHR 0x5C ''/'' (relative_text trimmed))))"

definition newline :: string where
  "newline = [CHR 0x0A]"

text \<open>\<open>ends_with('\n')\<close>.\<close>

definition ends_newline :: "string \<Rightarrow> bool" where
  "ends_newline s \<longleftrightarrow> s \<noteq> [] \<and> last s = CHR 0x0A"

definition appended_contents :: "string \<Rightarrow> string \<Rightarrow> string" where
  "appended_contents existing text =
     existing @ (if existing \<noteq> [] \<and> \<not> ends_newline existing then newline else []) @ text
     @ (if ends_newline text then [] else newline)"

definition file_result :: "string + string \<Rightarrow> string act_m" where
  "file_result r = io_lift r"

definition apply_deterministic_append :: "site \<Rightarrow> append_file_edit \<Rightarrow> bool act_m" where
  "apply_deterministic_append si edit =
     io_bind (ensure_task_active si) (\<lambda>_.
     io_bind (io_get (\<lambda>x. ts_workspace_path (x_session x))) (\<lambda>workspace.
     io_bind (io_lift (safe_repo_relative (af_relative_path edit))) (\<lambda>rel.
       let target = path_join workspace rel in
       io_bind (case path_parent target of
                  None \<Rightarrow> io_return ()
                | Some parent \<Rightarrow>
                    io_bind (ensure_task_active si) (\<lambda>_.
                    io_bind (io_do (record_act (Made_Dir parent))) (\<lambda>_.
                    io_bind (file_call si) (\<lambda>r. io_map (\<lambda>_. ()) (file_result r))))) (\<lambda>_.
       io_bind (file_call si) (\<lambda>r.
         let existing = (case r of Inr s \<Rightarrow> s | Inl _ \<Rightarrow> []);
             contents = appended_contents existing (af_text edit) in
         io_bind (ensure_task_active si) (\<lambda>_.
         io_bind (io_do (record_act (Wrote target contents))) (\<lambda>_.
         io_bind (file_call si) (\<lambda>r.
         io_bind (file_result r) (\<lambda>_.
         io_bind (emit_m si (status_event ''deterministic-edit:append-file''
                    (''Appended '' @ digits (length (af_text edit)) @ '' character(s) to '' @ rel))) (\<lambda>_.
           io_return True))))))))))"

section \<open>The agent\<close>

text \<open>As for any child: cancelled only if the token is, else its timeout comes.\<close>

fun observed_child_end :: "bool \<Rightarrow> child_end \<Rightarrow> child_end" where
  "observed_child_end cancelled Cancelled = (if cancelled then Cancelled else Timed_Out)"
| "observed_child_end cancelled e = e"

text \<open>Only a regular exit waits for the reader tasks.\<close>

fun readers_left :: "child_end \<Rightarrow> bool" where
  "readers_left (Exited n) = False"
| "readers_left Signalled = False"
| "readers_left _ = True"

definition run_agent :: "site \<Rightarrow> unit act_m" where
  "run_agent si =
     io_bind (io_get (\<lambda>x. (x_task x, x_session x, x_agent x))) (\<lambda>(t, s, a).
       let r = for_provider (si_environ si) (tk_provider t);
           cmd = cli_command r (tk_prompt t) (ts_workspace_path s) (build_agent_env (si_environ si) (tk_provider t))
       in
       io_bind (io_do (record_act (Agent_Started cmd))) (\<lambda>_.
       case as_spawn_error a of
         Some e \<Rightarrow> io_fail (Fail (''failed to spawn '' @ cr_program r @ '': '' @ e))
       | None \<Rightarrow>
           io_bind (io_each (\<lambda>line. io_bind (await si) (\<lambda>_. io_do (emit_line si line))) (as_lines a)) (\<lambda>_.
           io_bind (await si) (\<lambda>_.
           io_bind (io_get (\<lambda>x. observed_child_end (tk_cancel (x_task x)) (as_end a))) (\<lambda>e.
           io_bind (io_do (\<lambda>x. x\<lparr>x_readers := readers_left e\<rparr>)) (\<lambda>_.
             io_lift (child_result (cr_program r) (si_show_limit si) e)))))))"

section \<open>Artifacts\<close>

definition optional_field :: "string \<Rightarrow> json option \<Rightarrow> (string \<times> json) list" where
  "optional_field name v = (case v of None \<Rightarrow> [] | Some j \<Rightarrow> [(name, j)])"

definition artifact_json :: "published_artifact \<Rightarrow> json" where
  "artifact_json a =
     JObject ([(''filename'', JString (pa_filename a))]
       @ optional_field ''content_type'' (map_option JString (pa_content_type a))
       @ optional_field ''size_bytes'' (map_option (\<lambda>n. JInt (uint n)) (pa_size_bytes a))
       @ [(''storage_provider'', JString (pa_storage_provider a))]
       @ optional_field ''storage_key'' (map_option JString (pa_storage_key a))
       @ [(''url'', JString (pa_url a))]
       @ optional_field ''sha256'' (map_option JString (pa_sha256 a)))"

definition artifact_event :: "string + published_artifact \<Rightarrow> json" where
  "artifact_event r =
     (case r of
        Inr a \<Rightarrow> JObject [(''kind'', JString ''artifact''), (''artifact'', artifact_json a)]
      | Inl e \<Rightarrow> stderr_event (''artifact publish failed: '' @ e))"

definition publish_output :: "site \<Rightarrow> output_file \<Rightarrow> unit act_m" where
  "publish_output si f =
     io_bind (ensure_task_active si) (\<lambda>_.
       if \<not> of_is_file f then io_return ()
       else
         io_bind (io_do (record_act (Publishing (of_path f)))) (\<lambda>_.
         io_bind (await si) (\<lambda>_.
         io_bind (io_get x_task) (\<lambda>t.
           if tk_cancel t \<and> of_cancel_wins f then ensure_task_active si
           else emit_m si (artifact_event (publish (cfg_outputs_dir (si_config si)) (of_reply f)
                  \<lparr>po_task_id = tk_task_id t, po_file_path = of_path f, po_filename = None\<rparr>))))))"

definition publish_artifacts :: "site \<Rightarrow> unit act_m" where
  "publish_artifacts si =
     io_bind (ensure_task_active si) (\<lambda>_.
     io_bind (await si) (\<lambda>_.
     io_bind (io_get x_outputs) (\<lambda>outs.
       case outs of
         None \<Rightarrow> io_return ()
       | Some entries \<Rightarrow> io_each (\<lambda>f. io_bind (await si) (\<lambda>_. publish_output si f)) entries)))"

section \<open>The lifecycle\<close>

text \<open>The first line of a text, of at most 72 characters.\<close>

definition first_line :: "string \<Rightarrow> string" where
  "first_line s =
     take_chars 72
       (case split_once newline s of
          None \<Rightarrow> s
        | Some (line, _) \<Rightarrow> (case strip_suffix [CHR 0x0D] line of None \<Rightarrow> line | Some l \<Rightarrow> l))"

definition deterministic_edit :: "site \<Rightarrow> unit act_m" where
  "deterministic_edit si =
     io_bind (io_get x_task) (\<lambda>t.
       if can_edit_workspace (tk_provider t) then
         (case parse_deterministic_append (si_engine si) (tk_prompt t) of
            None \<Rightarrow> io_return ()
          | Some edit \<Rightarrow>
              io_bind (attempt (apply_deterministic_append si edit)) (\<lambda>r.
                case r of
                  Inr _ \<Rightarrow> io_return ()
                | Inl e \<Rightarrow> emit_m si (stderr_event (''deterministic edit failed: '' @ e))))
       else io_return ())"

definition commit_and_push :: "site \<Rightarrow> work_claim option \<Rightarrow> unit act_m" where
  "commit_and_push si claim =
     io_bind (io_get x_task) (\<lambda>t.
     io_bind (ensure_task_active si) (\<lambda>_.
     io_bind (git_commit (run_child si True) (''agent: '' @ first_line (tk_prompt t))) (\<lambda>_.
     io_bind (ensure_task_active si) (\<lambda>_.
     io_bind (case claim of None \<Rightarrow> io_return () | Some c \<Rightarrow> renew_m si c) (\<lambda>_.
     io_bind (ensure_task_active si) (\<lambda>_.
     io_bind (push_branch (run_child si True) (tk_branch t)) (\<lambda>_.
       emit_m si (status_event ''pushed'' (''Pushed '' @ tk_branch t)))))))))"

definition stage_and_push :: "site \<Rightarrow> work_claim option \<Rightarrow> unit act_m" where
  "stage_and_push si claim =
     io_bind (ensure_task_active si) (\<lambda>_.
     io_bind (add_workspace_changes (run_child si True)) (\<lambda>_.
     io_bind (ensure_task_active si) (\<lambda>_.
     io_bind (workspace_status (run_child si True)) (\<lambda>status.
       if trim status \<noteq> [] then commit_and_push si claim
       else emit_m si (status_event ''no-changes'' ''No workspace changes to commit'')))))"

definition run_task_lifecycle :: "site \<Rightarrow> work_claim option \<Rightarrow> unit act_m" where
  "run_task_lifecycle si claim =
     io_bind (ensure_task_active si) (\<lambda>_.
     io_bind (deterministic_edit si) (\<lambda>_.
     io_bind (ensure_task_active si) (\<lambda>_.
     io_bind (emit_m si (status_event ''running'' ''Agent running'')) (\<lambda>_.
     io_bind (run_agent si) (\<lambda>_.
     io_bind (ensure_task_active si) (\<lambda>_.
     io_bind (stage_and_push si claim) (\<lambda>_.
     io_bind (ensure_task_active si) (\<lambda>_.
       publish_artifacts si))))))))"

section \<open>The claimed lifecycle\<close>

definition claimed_terminal_status :: "bool \<Rightarrow> bool \<Rightarrow> string" where
  "claimed_terminal_status cancelled_by_request execution_succeeded =
     (if cancelled_by_request then ''cancelled''
      else if execution_succeeded then ''awaiting_review'' else ''failed'')"

text \<open>A success that was not accepted: the item is not left running.\<close>

definition recover_rejected :: "site \<Rightarrow> work_claim \<Rightarrow> string \<Rightarrow> unit act_m" where
  "recover_rejected si claim review_error =
     io_bind (attempt (transition_m si claim ''failed'')) (\<lambda>recovery.
       case recovery of
         Inr _ \<Rightarrow> io_fail (Fail (''could not persist awaiting_review state; marked work failed: '' @ review_error))
       | Inl failed_error \<Rightarrow>
           io_fail (Fail (''could not persist awaiting_review state: '' @ review_error
             @ ''; additionally could not persist failed state: '' @ failed_error)))"

definition report_end :: "site \<Rightarrow> work_claim \<Rightarrow> string + unit \<Rightarrow> string \<Rightarrow> unit act_m" where
  "report_end si claim execution terminal =
     io_bind (attempt (transition_m si claim terminal)) (\<lambda>transition.
       case (execution, transition) of
         (Inr _, Inr _) \<Rightarrow> io_return ()
       | (Inl e, Inr _) \<Rightarrow> io_fail (Fail e)
       | (Inl e, Inl te) \<Rightarrow>
           io_fail (Fail (e @ ''; additionally could not persist '' @ terminal @ '' state: '' @ te))
       | (Inr _, Inl review_error) \<Rightarrow> recover_rejected si claim review_error)"

definition claimed_execution :: "site \<Rightarrow> work_claim \<Rightarrow> unit act_m" where
  "claimed_execution si claim =
     io_bind (attempt (run_task_lifecycle si (Some claim))) (\<lambda>execution.
     io_bind (preempt si) (\<lambda>_.
     io_bind (io_get x_task) (\<lambda>t.
       report_end si claim execution (claimed_terminal_status (tk_cancelled t) (is_ok execution)))))"

text \<open>The renewal loop around it: the timer ticks are interrupts while the claim is kept; after a
  failed renewal the cancelled execution is drained and its result is reported as cleanup.\<close>

definition run_claimed_lifecycle :: "site \<Rightarrow> work_claim \<Rightarrow> unit act_m" where
  "run_claimed_lifecycle si claim =
     io_bind (io_do (\<lambda>x. x\<lparr>x_keep := Some claim, x_lost := None\<rparr>)) (\<lambda>_.
     io_bind (attempt (claimed_execution si claim)) (\<lambda>result.
     io_bind (io_get x_lost) (\<lambda>lost.
     io_bind (io_do (\<lambda>x. x\<lparr>x_keep := None\<rparr>)) (\<lambda>_.
       case lost of
         None \<Rightarrow> io_lift result
       | Some e \<Rightarrow>
           (case result of
              Inr _ \<Rightarrow> io_fail (Fail (''lost work-item authority during task lifecycle: '' @ e))
            | Inl cleanup_error \<Rightarrow>
                io_fail (Fail (''lost work-item authority during task lifecycle: '' @ e
                  @ ''; cancellation cleanup: '' @ cleanup_error)))))))"

section \<open>A task from start to end\<close>

definition claimed_event :: "work_claim \<Rightarrow> json" where
  "claimed_event claim =
     status_event ''claimed'' (''Claimed work-item '' @ wc_work_item_id claim @ '' (fencing token ''
       @ digits (unat (wc_fencing_token claim)) @ '')'')"

definition abandon_claim :: "site \<Rightarrow> work_claim \<Rightarrow> string \<Rightarrow> unit act_m" where
  "abandon_claim si claim cancelled =
     io_bind (attempt (transition_m si claim ''cancelled'')) (\<lambda>r.
       case r of
         Inr _ \<Rightarrow> io_fail (Fail cancelled)
       | Inl te \<Rightarrow>
           io_fail (Fail (cancelled @ ''; additionally could not persist cancelled state: '' @ te)))"

definition start_claimed :: "site \<Rightarrow> work_claim \<Rightarrow> unit act_m" where
  "start_claimed si claim =
     io_bind (transition_m si claim ''running'') (\<lambda>_.
     io_bind (emit_m si (claimed_event claim)) (\<lambda>_.
       run_claimed_lifecycle si claim))"

definition with_claim :: "site \<Rightarrow> work_claim \<Rightarrow> unit act_m" where
  "with_claim si claim =
     io_bind (attempt (ensure_task_active si)) (\<lambda>active.
       case active of
         Inl cancelled \<Rightarrow> abandon_claim si claim cancelled
       | Inr _ \<Rightarrow> start_claimed si claim)"

definition run_claimed :: "site \<Rightarrow> unit act_m" where
  "run_claimed si =
     io_bind (io_get (\<lambda>x. tk_thread_id (x_task x))) (\<lambda>thread.
       case thread of
         None \<Rightarrow> io_fail (Fail ''control-plane governance requires a backing work-item id'')
       | Some work_item_id \<Rightarrow> io_bind (claim_m si work_item_id) (with_claim si))"

definition run_task_inner :: "site \<Rightarrow> unit act_m" where
  "run_task_inner si =
     io_bind (ensure_task_active si) (\<lambda>_.
     io_bind (emit_m si (status_event ''preparing'' ''Preparing workspace'')) (\<lambda>_.
     io_bind (prepare_session_workspace_inner si True) (\<lambda>_.
     io_bind (ensure_task_active si) (\<lambda>_.
       if cp_enabled (si_control_plane si) then run_claimed si
       else run_task_lifecycle si None))))"

definition done_event :: "string \<Rightarrow> string \<Rightarrow> json" where
  "done_event branch reason =
     JObject [(''kind'', JString ''done''), (''branch'', JString branch), (''exitReason'', JString reason)]"

definition exit_reason :: "site \<Rightarrow> string + unit \<Rightarrow> string act_m" where
  "exit_reason si result =
     (case result of
        Inr _ \<Rightarrow> io_return ''completed''
      | Inl err \<Rightarrow>
          io_bind (emit_m si (error_event err)) (\<lambda>_.
          io_bind (preempt si) (\<lambda>_.
          io_map (\<lambda>t. if tk_cancelled t then ''cancelled'' else ''failed'') (io_get x_task))))"

definition finish_task :: "site \<Rightarrow> string \<Rightarrow> unit act_m" where
  "finish_task si reason =
     io_bind (preempt si) (\<lambda>_.
     io_bind (io_get x_task) (\<lambda>t.
       if is_finished t then io_return ()
       else
         io_bind (io_do (\<lambda>x. x\<lparr>x_task := (x_task x)\<lparr>tk_finished := True, tk_finished_at := Some (fst (x_clock x 0))\<rparr>,
                              x_clock := (\<lambda>n. x_clock x (Suc n))\<rparr>)) (\<lambda>_.
           emit_m si (done_event (tk_branch t) reason))))"

definition set_running :: "string option \<Rightarrow> exec \<Rightarrow> exec" where
  "set_running r x = x\<lparr>x_session := (x_session x)\<lparr>ts_running_task_id := r\<rparr>\<rparr>"

definition release_session :: "unit act_m" where
  "release_session =
     io_do (\<lambda>x. if ts_running_task_id (x_session x) = Some (tk_task_id (x_task x)) then set_running None x else x)"

definition run_task :: "site \<Rightarrow> unit act_m" where
  "run_task si =
     io_bind (await si) (\<lambda>_.
     io_bind (io_do (\<lambda>x. set_running (Some (tk_task_id (x_task x))) x)) (\<lambda>_.
     io_bind (attempt (run_task_inner si)) (\<lambda>result.
     io_bind (exit_reason si result) (\<lambda>reason.
     io_bind (finish_task si reason) (\<lambda>_. release_session)))))"

end
