(* ===== verification/Orchestrator_Authority.thy ===== *)
theory Orchestrator_Authority
  imports Orchestrator
begin

text \<open>
  Who may change what, and when: a task changes the workspace, runs its agent, pushes or publishes
  only while nobody has stopped it and, under governance, only for a claim whose work item the
  control plane has put into the running state; a push follows directly on a renewal of that claim.

  The trace of a run obeys that policy. The locale \<open>licence\<close> is the contract the lifecycle rests on: the
  past that its caller has to bring about before it starts.
\<close>

section \<open>The policy\<close>

fun mutates :: "act \<Rightarrow> bool" where
  "mutates (Command program args) =
     (program = ''git'' \<and> args \<noteq> [] \<and> hd args \<in> {''add'', ''commit'', ''push''})"
| "mutates (Agent_Started cmd) = True"
| "mutates (Made_Dir path) = True"
| "mutates (Wrote path contents) = True"
| "mutates (Publishing path) = True"
| "mutates _ = False"

fun is_push :: "act \<Rightarrow> bool" where
  "is_push (Command program args) = (program = ''git'' \<and> args \<noteq> [] \<and> hd args = ''push'')"
| "is_push _ = False"

text \<open>A run is stopped by a cancellation request and by a renewal that fails.\<close>

definition stopped :: "act list \<Rightarrow> bool" where
  "stopped past \<longleftrightarrow> Cancel_Requested \<in> set past \<or> (\<exists>c. Renewed c False \<in> set past)"

definition running_acts :: "work_claim \<Rightarrow> act set" where
  "running_acts c = {Claimed c, Transition c ''running'', Replied True}"

definition authority :: "bool \<Rightarrow> act list \<Rightarrow> act \<Rightarrow> bool" where
  "authority governed past a \<longleftrightarrow>
     (mutates a \<longrightarrow> \<not> stopped past \<and> (governed \<longrightarrow> (\<exists>c. running_acts c \<subseteq> set past)))
     \<and> (is_push a \<and> governed \<longrightarrow>
          (\<exists>c before. past = before @ [Renewed c True] \<and> running_acts c \<subseteq> set before))"

lemma push_mutates: "is_push a \<Longrightarrow> mutates a"
  by (cases a) auto

lemma stopped_snoc [simp]: "stopped (past @ [a]) \<longleftrightarrow> stopped past \<or> stopped [a]"
  by (auto simp: stopped_def)

lemma stopped_single [simp]:
  "stopped [Cancel_Requested]" "stopped [Renewed c ok] \<longleftrightarrow> \<not> ok"
  "\<not> stopped [Command p args]" "\<not> stopped [Claimed c]" "\<not> stopped [Transition c s]" "\<not> stopped [Replied ok]"
  "\<not> stopped [Agent_Started cmd]" "\<not> stopped [Made_Dir d]" "\<not> stopped [Wrote d t]"
  "\<not> stopped [Publishing d]" "\<not> stopped [Emitted j]"
  by (auto simp: stopped_def)

lemma authority_harmless: "\<not> mutates a \<Longrightarrow> authority g past a"
  using push_mutates by (auto simp: authority_def)

section \<open>What a step does to the flags and the trace\<close>

text \<open>The trace obeys the policy: all that is known once the lifecycle has failed.\<close>

definition lawful :: "bool \<Rightarrow> exec \<Rightarrow> bool" where
  "lawful g x \<longleftrightarrow> obeys (authority g) (x_trace x)"

definition steady :: "bool \<Rightarrow> act set \<Rightarrow> exec \<Rightarrow> bool" where
  "steady g S x \<longleftrightarrow> lawful g x \<and> (stopped (x_trace x) \<longrightarrow> tk_cancel (x_task x)) \<and> \<not> x_readers x
     \<and> S \<subseteq> set (x_trace x)"

definition active :: "bool \<Rightarrow> act set \<Rightarrow> exec \<Rightarrow> bool" where
  "active g S x \<longleftrightarrow> steady g S x \<and> \<not> tk_cancel (x_task x)"

lemma steady_lawful: "steady g S x \<Longrightarrow> lawful g x"
  by (simp add: steady_def)

lemma active_steady: "active g S x \<Longrightarrow> steady g S x"
  by (simp add: active_def)

lemma active_not_stopped: "active g S x \<Longrightarrow> \<not> stopped (x_trace x)"
  by (auto simp: active_def steady_def)

lemma record_act_simps [simp]:
  "x_trace (record_act a x) = x_trace x @ [a]" "x_task (record_act a x) = x_task x"
  "x_readers (record_act a x) = x_readers x" "x_session (record_act a x) = x_session x"
  "x_keep (record_act a x) = x_keep x" "x_lost (record_act a x) = x_lost x" "x_bus (record_act a x) = x_bus x"
  "x_outputs (record_act a x) = x_outputs x" "x_agent (record_act a x) = x_agent x"
  by (simp_all add: record_act_def)

lemma emit_task_flags:
  "emit_task em event (t, b) = (t', b') \<Longrightarrow> t' = t\<lparr>tk_seq := i64_wrap (tk_seq t + 1)\<rparr>"
  by (auto simp: emit_task_def next_seq_def)

lemma emit_now_result:
  "\<exists>b c. emit_now si event x =
     record_act (Emitted (with_provider (tk_provider (x_task x)) event))
       (x\<lparr>x_task := (x_task x)\<lparr>tk_seq := i64_wrap (tk_seq (x_task x) + 1)\<rparr>, x_bus := b, x_clock := c\<rparr>)"
  unfolding emit_now_def Let_def
  by (auto dest: emit_task_flags split: prod.split)

lemma emit_now_simps [simp]:
  "x_trace (emit_now si event x) = x_trace x @ [Emitted (with_provider (tk_provider (x_task x)) event)]"
  "x_readers (emit_now si event x) = x_readers x" "x_session (emit_now si event x) = x_session x"
  "x_keep (emit_now si event x) = x_keep x" "x_lost (emit_now si event x) = x_lost x"
  "x_outputs (emit_now si event x) = x_outputs x" "x_agent (emit_now si event x) = x_agent x"
  "x_task (emit_now si event x) = (x_task x)\<lparr>tk_seq := i64_wrap (tk_seq (x_task x) + 1)\<rparr>"
  using emit_now_result [of si event x] by auto

lemma lawful_record: "lawful g x \<Longrightarrow> \<not> mutates a \<Longrightarrow> lawful g (record_act a x)"
  by (simp add: lawful_def authority_harmless)

lemma lawful_emit: "lawful g x \<Longrightarrow> lawful g (emit_now si event x)"
  by (simp add: lawful_def authority_harmless)

lemma steady_emit: "steady g S x \<Longrightarrow> steady g S (emit_now si event x)"
  by (auto simp: steady_def lawful_emit)

lemma lawful_emit_line: "lawful g x \<Longrightarrow> lawful g (emit_line si line x)"
  unfolding emit_line_def by (cases line) (simp_all add: lawful_emit)

lemma steady_emit_line: "steady g S x \<Longrightarrow> steady g S (emit_line si line x)"
  unfolding emit_line_def by (cases line) (simp_all add: steady_emit)

lemma lawful_update [simp]:
  "lawful g (x\<lparr>x_task := t\<rparr>) = lawful g x" "lawful g (x\<lparr>x_lost := l\<rparr>) = lawful g x"
  "lawful g (x\<lparr>x_interrupts := i\<rparr>) = lawful g x" "lawful g (x\<lparr>x_keep := k\<rparr>) = lawful g x"
  "lawful g (x\<lparr>x_children := ch\<rparr>) = lawful g x" "lawful g (x\<lparr>x_calls := ca\<rparr>) = lawful g x"
  "lawful g (x\<lparr>x_files := f\<rparr>) = lawful g x" "lawful g (x\<lparr>x_readers := r\<rparr>) = lawful g x"
  "lawful g (x\<lparr>x_session := s\<rparr>) = lawful g x" "lawful g (x\<lparr>x_clock := cl\<rparr>) = lawful g x"
  by (simp_all add: lawful_def)

lemma steady_update [simp]:
  "steady g S (x\<lparr>x_lost := l\<rparr>) = steady g S x" "steady g S (x\<lparr>x_interrupts := i\<rparr>) = steady g S x"
  "steady g S (x\<lparr>x_keep := k\<rparr>) = steady g S x" "steady g S (x\<lparr>x_children := ch\<rparr>) = steady g S x"
  "steady g S (x\<lparr>x_calls := ca\<rparr>) = steady g S x" "steady g S (x\<lparr>x_files := f\<rparr>) = steady g S x"
  "steady g S (x\<lparr>x_session := s\<rparr>) = steady g S x"
  by (simp_all add: steady_def)

section \<open>Interrupts\<close>

lemma lawful_interrupt: "lawful g x \<Longrightarrow> lawful g (handle_interrupt si x i)"
  by (cases i) (auto simp: cancel_request_def renew_tick_def late_line_def lawful_emit lawful_emit_line
      lawful_record split: option.splits sum.splits)

lemma steady_interrupt: "steady g S x \<Longrightarrow> steady g S (handle_interrupt si x i)"
proof (cases i)
  case Cancel_Request
  assume st: "steady g S x"
  then have "steady g S (record_act Cancel_Requested (x\<lparr>x_task := (x_task x)\<lparr>tk_cancelled := True, tk_cancel := True\<rparr>\<rparr>))"
    by (auto simp: steady_def lawful_record)
  with st Cancel_Request show ?thesis by (simp add: cancel_request_def steady_emit)
next
  case (Renew_Tick w)
  assume "steady g S x"
  with Renew_Tick show ?thesis
    by (auto simp: renew_tick_def steady_def lawful_record split: option.splits sum.splits)
qed (simp add: late_line_def steady_def)

text \<open>Between two awaits an interrupt either leaves the trace alone or cancels.\<close>

lemma preempt_quiet:
  assumes "steady g S x" and "\<not> needs_await i"
  shows "x_trace (handle_interrupt si x i) = x_trace x \<or> tk_cancel (x_task (handle_interrupt si x i))"
  using assms by (cases i) (simp_all add: cancel_request_def late_line_def steady_def)

lemma cancel_stays: "tk_cancel (x_task x) \<Longrightarrow> tk_cancel (x_task (handle_interrupt si x i))"
proof (cases i)
  case (Late_Line line)
  assume "tk_cancel (x_task x)"
  with Late_Line show ?thesis by (cases line) (simp_all add: late_line_def emit_line_def)
qed (auto simp: cancel_request_def renew_tick_def split: option.splits sum.splits)

lemma foldl_interrupts:
  "steady g S x \<Longrightarrow> \<forall>i \<in> set is. \<not> needs_await i \<Longrightarrow>
     steady g S (foldl (handle_interrupt si) x is)
     \<and> (x_trace (foldl (handle_interrupt si) x is) = x_trace x \<or> tk_cancel (x_task (foldl (handle_interrupt si) x is)))"
proof (induction "is" arbitrary: x)
  case (Cons i "is")
  have cancelled: "tk_cancel (x_task y) \<Longrightarrow> tk_cancel (x_task (foldl (handle_interrupt si) y js))" for y js
    by (induction js arbitrary: y) (simp_all add: cancel_stays)
  have st: "steady g S (handle_interrupt si x i)" by (rule steady_interrupt [OF Cons.prems(1)])
  have q: "x_trace (handle_interrupt si x i) = x_trace x \<or> tk_cancel (x_task (handle_interrupt si x i))"
    using Cons.prems by (intro preempt_quiet) auto
  from Cons.IH [OF st] Cons.prems(2) q cancelled show ?case by fastforce
qed simp

lemma foldl_lawful: "lawful g x \<Longrightarrow> lawful g (foldl (handle_interrupt si) x is)"
  by (induction "is" arbitrary: x) (simp_all add: lawful_interrupt)

lemma foldl_steady: "steady g S x \<Longrightarrow> steady g S (foldl (handle_interrupt si) x is)"
  by (induction "is" arbitrary: x) (simp_all add: steady_interrupt)

section \<open>Steps that need no licence\<close>

text \<open>\<open>quiet\<close> steps keep a lawful trace lawful, \<open>calm\<close> steps keep a steady state steady.\<close>

definition quiet :: "bool \<Rightarrow> 'a act_m \<Rightarrow> bool" where
  "quiet g m \<longleftrightarrow> triple (lawful g) m (\<lambda>_. lawful g) (lawful g)"

definition calm :: "bool \<Rightarrow> act set \<Rightarrow> 'a act_m \<Rightarrow> bool" where
  "calm g S m \<longleftrightarrow> triple (steady g S) m (\<lambda>_. steady g S) (steady g S)"

named_theorems step_rules \<open>steps that keep lawful traces or steady states\<close>

lemma quiet_return [step_rules]: "quiet g (io_return v)"
  by (simp add: quiet_def triple_return)

lemma quiet_fail [step_rules]: "quiet g (io_fail e)"
  by (simp add: quiet_def triple_fail)

lemma quiet_get [step_rules]: "quiet g (io_get f)"
  by (simp add: quiet_def triple_get)

lemma quiet_bind [step_rules]: "quiet g m \<Longrightarrow> (\<And>v. quiet g (f v)) \<Longrightarrow> quiet g (io_bind m f)"
  unfolding quiet_def by (rule triple_bind)

lemma quiet_catch [step_rules]: "quiet g m \<Longrightarrow> quiet g (io_catch f m)"
  unfolding quiet_def by (rule triple_catch) simp_all

lemma quiet_if [step_rules]: "quiet g m \<Longrightarrow> quiet g m' \<Longrightarrow> quiet g (if b then m else m')"
  by simp

lemma quiet_lift [step_rules]: "quiet g (io_lift r)"
  by (cases r) (simp_all add: io_lift_def step_rules)

lemma quiet_map [step_rules]: "quiet g m \<Longrightarrow> quiet g (io_map h m)"
  unfolding io_map_def by (intro step_rules)

lemma quiet_emit [step_rules]: "quiet g (emit_m si ev)"
  unfolding quiet_def emit_m_def by (rule triple_do) (rule lawful_emit)

lemma quiet_record [step_rules]: "\<not> mutates a \<Longrightarrow> quiet g (io_do (record_act a))"
  unfolding quiet_def by (rule triple_do) (rule lawful_record)

lemma quiet_await [step_rules]: "quiet g (await si)"
  unfolding quiet_def await_def next_interrupts_def
  by (rule triple_do) (simp add: foldl_lawful)

lemma quiet_preempt [step_rules]: "quiet g (preempt si)"
  unfolding quiet_def preempt_def next_interrupts_def
  by (rule triple_do) (simp add: foldl_lawful)

lemma quiet_next_call [step_rules]: "quiet g next_call"
  by (simp add: quiet_def triple_def next_call_def)

lemma quiet_ensure [step_rules]: "quiet g (ensure_task_active si)"
  unfolding ensure_task_active_def by (intro step_rules)

lemma quiet_transition [step_rules]: "quiet g (transition_m si c s)"
  unfolding transition_m_def Let_def by (intro step_rules) simp_all

lemma calm_return [step_rules]: "calm g S (io_return v)"
  by (simp add: calm_def triple_return)

lemma calm_fail [step_rules]: "calm g S (io_fail e)"
  by (simp add: calm_def triple_fail)

lemma calm_get [step_rules]: "calm g S (io_get f)"
  by (simp add: calm_def triple_get)

lemma calm_bind [step_rules]: "calm g S m \<Longrightarrow> (\<And>v. calm g S (f v)) \<Longrightarrow> calm g S (io_bind m f)"
  unfolding calm_def by (rule triple_bind)

lemma calm_catch [step_rules]: "calm g S m \<Longrightarrow> calm g S (io_catch f m)"
  unfolding calm_def by (rule triple_catch) simp_all

lemma calm_if [step_rules]: "(b \<Longrightarrow> calm g S m) \<Longrightarrow> (\<not> b \<Longrightarrow> calm g S m') \<Longrightarrow> calm g S (if b then m else m')"
  by simp

lemma calm_lift [step_rules]: "calm g S (io_lift r)"
  by (cases r) (simp_all add: io_lift_def step_rules)

lemma calm_map [step_rules]: "calm g S m \<Longrightarrow> calm g S (io_map h m)"
  unfolding io_map_def by (intro step_rules)

lemma calm_emit [step_rules]: "calm g S (emit_m si ev)"
  unfolding calm_def emit_m_def by (rule triple_do) (rule steady_emit)

lemma calm_await [step_rules]: "calm g S (await si)"
  unfolding calm_def await_def next_interrupts_def
  by (rule triple_do) (simp add: foldl_steady)

lemma calm_next_call [step_rules]: "calm g S next_call"
  by (simp add: calm_def triple_def next_call_def)

lemma calm_file_call [step_rules]: "calm g S (file_call si)"
  unfolding file_call_def
  by (intro step_rules) (simp add: calm_def triple_def)

lemma steady_record: "steady g S x \<Longrightarrow> \<not> mutates a \<Longrightarrow> \<not> stopped [a] \<Longrightarrow> steady g S (record_act a x)"
  by (auto simp: steady_def lawful_record)

lemma calm_record [step_rules]: "\<not> mutates a \<Longrightarrow> \<not> stopped [a] \<Longrightarrow> calm g S (io_do (record_act a))"
  unfolding calm_def by (rule triple_do) (rule steady_record)

lemma calm_harmless_child:
  assumes "\<not> mutates (Command program args)"
  shows "calm g S (run_child si c program args secs)"
  unfolding run_child_def
  by (intro step_rules) (use assms in \<open>auto simp: calm_def triple_def Let_def split: sum.splits\<close>)

lemma active_triple: "triple (steady g S) m Q E \<Longrightarrow> triple (active g S) m Q E"
  by (erule triple_conseq) (simp_all add: active_steady)

lemma calm_triple: "calm g S m \<Longrightarrow> triple (steady g S) m (\<lambda>_. steady g S) (lawful g)"
  unfolding calm_def by (erule triple_conseq) (simp_all add: steady_lawful)

lemma calm_weaken: "calm g S m \<Longrightarrow> triple (active g S) m (\<lambda>_. steady g S) (lawful g)"
  by (rule active_triple) (rule calm_triple)

lemma calm_seq: "calm g S m \<Longrightarrow> (\<And>v. triple (steady g S) (f v) Q (lawful g)) \<Longrightarrow>
    triple (steady g S) (io_bind m f) Q (lawful g)"
  by (rule triple_bind [OF calm_triple])

text \<open>The check lets only a task through that nothing has stopped, without touching the trace.\<close>

lemma ensure_active_trace:
  "triple (\<lambda>x. steady g S x \<and> R (x_trace x)) (ensure_task_active si)
     (\<lambda>_ x. active g S x \<and> R (x_trace x)) (steady g S)"
proof -
  have "triple (\<lambda>x. steady g S x \<and> R (x_trace x)) (preempt si)
      (\<lambda>_ x. steady g S x \<and> (R (x_trace x) \<or> tk_cancel (x_task x))) (steady g S)"
    unfolding preempt_def next_interrupts_def
  proof (rule triple_do, clarsimp)
    fix x assume st: "steady g S x" and R: "R (x_trace x)"
    let ?x = "x\<lparr>x_interrupts := \<lambda>n. x_interrupts x (Suc n)\<rparr>"
    let ?is = "filter (\<lambda>i. \<not> needs_await i) (x_interrupts x 0)"
    have "steady g S (foldl (handle_interrupt si) ?x ?is) \<and> (x_trace (foldl (handle_interrupt si) ?x ?is) = x_trace ?x
        \<or> tk_cancel (x_task (foldl (handle_interrupt si) ?x ?is)))"
      by (rule foldl_interrupts) (use st in simp_all)
    with R show "steady g S (foldl (handle_interrupt si) ?x ?is)
       \<and> (R (x_trace (foldl (handle_interrupt si) ?x ?is)) \<or> tk_cancel (x_task (foldl (handle_interrupt si) ?x ?is)))"
      by auto
  qed
  then show ?thesis
    unfolding ensure_task_active_def
    by (rule triple_bind) (auto simp: triple_def io_bind_def io_get_def io_fail_def io_return_def
        active_def split: sum.splits)
qed

lemma ensure_active: "triple (steady g S) (ensure_task_active si) (\<lambda>_. active g S) (steady g S)"
  using ensure_active_trace [where R = "\<lambda>_. True"] by simp

lemma calm_ensure [step_rules]: "calm g S (ensure_task_active si)"
  unfolding calm_def by (rule triple_conseq [OF ensure_active]) (auto intro: active_steady)

lemma ensure_seq: "(\<And>v. triple (active g S) (f v) Q (lawful g)) \<Longrightarrow>
    triple (steady g S) (io_bind (ensure_task_active si) f) Q (lawful g)"
  by (rule triple_bind [OF triple_conseq [OF ensure_active]]) (auto intro: steady_lawful)

lemma ensure_calm_seq: "(\<And>v. triple (active g S) (f v) (\<lambda>_. steady g S) (steady g S)) \<Longrightarrow>
    calm g S (io_bind (ensure_task_active si) f)"
  unfolding calm_def by (rule triple_bind [OF ensure_active])

section \<open>The lifecycle under a licence\<close>

text \<open>A step that mutates, directly behind the check. The licence is what the past contains.\<close>

lemma mutates_not_stopped: "mutates a \<Longrightarrow> \<not> stopped [a]"
  by (cases a) auto

text \<open>The past that allows a push: it ends in the renewal.\<close>

definition renewed_last :: "bool \<Rightarrow> act list \<Rightarrow> bool" where
  "renewed_last g past \<longleftrightarrow>
     (g \<longrightarrow> (\<exists>c before. past = before @ [Renewed c True] \<and> running_acts c \<subseteq> set before))"

lemma triple_lawful: "triple P m Q (steady g S) \<Longrightarrow> triple P m Q (lawful g)"
  by (erule triple_conseq) (simp_all add: steady_lawful)

locale licence =
  fixes g :: bool and S :: "act set" and claim :: "work_claim option"
  assumes licensed: "g \<Longrightarrow> \<exists>c. claim = Some c \<and> running_acts c \<subseteq> S"
begin

lemma licensed_record:
  assumes "active g S x" and "mutates a" and "is_push a \<Longrightarrow> renewed_last g (x_trace x)"
  shows "steady g S (record_act a x)"
proof -
  have "S \<subseteq> set (x_trace x)" using assms(1) by (simp add: active_def steady_def)
  then have "g \<longrightarrow> (\<exists>c. running_acts c \<subseteq> set (x_trace x))" using licensed by blast
  moreover have "\<not> stopped (x_trace x)" using assms(1) by (rule active_not_stopped)
  ultimately have "authority g (x_trace x) a"
    using assms(3) by (auto simp: authority_def renewed_last_def)
  then show ?thesis
    using assms(1) mutates_not_stopped [OF assms(2)]
    by (auto simp: active_def steady_def lawful_def)
qed

lemma licensed_do:
  "mutates a \<Longrightarrow> \<not> is_push a \<Longrightarrow>
     triple (active g S) (io_do (record_act a)) (\<lambda>_. steady g S) (steady g S)"
  by (rule triple_do, rule licensed_record) simp_all

lemma guarded_record:
  assumes "mutates a" and "\<not> is_push a" and "\<And>v. calm g S (h v)"
  shows "calm g S (io_bind (ensure_task_active si) (\<lambda>_. io_bind (io_do (record_act a)) h))"
  by (rule ensure_calm_seq, rule triple_bind [OF licensed_do [OF assms(1,2)]])
    (use assms(3) in \<open>simp add: calm_def\<close>)

lemma child_after_record:
  assumes "triple P (io_do (record_act (Command program args)) :: unit act_m) (\<lambda>_. steady g S) (steady g S)"
  shows "triple P (run_child si c program args secs) (\<lambda>_. steady g S) (steady g S)"
proof -
  have rest: "calm g S (io_bind (await si) (\<lambda>_ x.
      let e = observed_end (c \<and> tk_cancel (x_task x)) (x_children x 0)
      in (lift_sh (sh_capture (si_lossy si) (si_show_secs si secs) program args e),
          x\<lparr>x_children := \<lambda>n. x_children x (Suc n)\<rparr>)))"
    by (intro step_rules) (auto simp: calm_def triple_def Let_def split: sum.splits)
  show ?thesis
    unfolding run_child_def by (rule triple_bind, rule assms, rule rest [unfolded calm_def])
qed

lemma licensed_child:
  "mutates (Command program args) \<Longrightarrow> \<not> is_push (Command program args) \<Longrightarrow>
     triple (active g S) (run_child si c program args secs) (\<lambda>_. steady g S) (steady g S)"
  by (rule child_after_record) (rule licensed_do)

lemma append_calm: "calm g S (apply_deterministic_append si edit)"
  unfolding apply_deterministic_append_def Let_def file_result_def
  by (intro calm_bind [OF calm_ensure] calm_bind [OF calm_get] calm_bind [OF calm_lift] calm_bind
      guarded_record step_rules | simp split: option.split | intro conjI allI impI)+

lemma deterministic_edit_calm: "calm g S (deterministic_edit si)"
  unfolding deterministic_edit_def
  by (intro step_rules calm_bind append_calm | simp split: option.split sum.split | intro conjI allI impI)+

lemma add_licensed:
  "triple (active g S) (add_workspace_changes (run_child si c)) (\<lambda>_. steady g S) (lawful g)"
proof -
  have add: "triple (active g S) (run_child si c ''git'' [''add'', ''-A'', ''--'', ''.''] t)
      (\<lambda>_. steady g S) (steady g S)" for t
    by (rule licensed_child) simp_all
  have reset: "calm g S (run_child si c ''git'' ([''reset'', ''-q'', ''HEAD'', ''--''] @ generated_git_exclude_paths) t)" for t
    by (rule calm_harmless_child) simp
  show ?thesis
    unfolding add_workspace_changes_def add_args_def git_quick_def io_each.simps
    by (rule triple_lawful, rule triple_bind, rule triple_map, rule add, fold calm_def)
      (intro step_rules reset)
qed

lemma commit_licensed:
  "triple (active g S) (git_commit (run_child si c) message) (\<lambda>_. steady g S) (lawful g)"
  unfolding git_commit_def git_quick_def commit_args_def
  by (rule triple_map, rule triple_lawful, rule licensed_child) simp_all

lemma status_calm: "calm g S (workspace_status (run_child si c))"
  unfolding workspace_status_def git_quick_def workspace_status_args_def
  by (rule calm_harmless_child) simp

lemma agent_licensed: "triple (active g S) (run_agent si) (\<lambda>_. steady g S) (lawful g)"
proof -
  have last: "triple (steady g S) (io_bind (io_do (\<lambda>x. x\<lparr>x_readers := readers_left e\<rparr>))
      (\<lambda>_. io_lift (child_result prog limit e))) (\<lambda>_. steady g S) (lawful g)" for e prog limit
    by (cases e) (auto simp: triple_def io_bind_def io_do_def io_lift_def io_fail_def io_return_def steady_def)
  have line: "calm g S (io_bind (await si) (\<lambda>_. io_do (emit_line si l)))" for l
    by (intro step_rules) (simp add: calm_def triple_do steady_emit_line)
  have lines: "calm g S (io_each (\<lambda>l. io_bind (await si) (\<lambda>_. io_do (emit_line si l))) ls)" for ls
    unfolding calm_def by (rule triple_each) (use line in \<open>simp add: calm_def\<close>)
  have start: "triple (active g S) (io_do (record_act (Agent_Started cmd))) (\<lambda>_. steady g S) (lawful g)" for cmd
    by (rule triple_lawful, rule licensed_do) simp_all
  have body: "triple (steady g S) (case as_spawn_error a of
        Some e \<Rightarrow> io_fail (Fail (''failed to spawn '' @ prog @ '': '' @ e))
      | None \<Rightarrow>
          io_bind (io_each (\<lambda>line. io_bind (await si) (\<lambda>_. io_do (emit_line si line))) (as_lines a)) (\<lambda>_.
          io_bind (await si) (\<lambda>_.
          io_bind (io_get (\<lambda>x. observed_child_end (tk_cancel (x_task x)) (as_end a))) (\<lambda>e.
          io_bind (io_do (\<lambda>x. x\<lparr>x_readers := readers_left e\<rparr>)) (\<lambda>_.
            io_lift (child_result prog limit e)))))) (\<lambda>_. steady g S) (lawful g)" for a prog limit
    by (cases "as_spawn_error a")
      (auto intro!: triple_fail steady_lawful calm_seq [OF lines] calm_seq [OF calm_await] calm_seq [OF calm_get] last)
  show ?thesis
    unfolding run_agent_def Let_def
    by (rule triple_bind [OF triple_get [where Q = "\<lambda>_. active g S"]], assumption)
      (auto intro!: triple_bind [OF start] body split: prod.split)
qed

lemma renew_licensed:
  assumes "claim = Some c"
  shows "triple (steady g S) (renew_m si c) (\<lambda>_ x. steady g S x \<and> renewed_last g (x_trace x)) (lawful g)"
proof -
  have lic: "g \<Longrightarrow> running_acts c \<subseteq> S" using licensed assms by auto
  have "triple (steady g S) (io_bind (io_do (record_act (Renewed c (is_ok r)))) (\<lambda>_. io_lift r))
      (\<lambda>_ x. steady g S x \<and> renewed_last g (x_trace x)) (lawful g)" for r :: "string + unit"
    using lic by (cases r) (auto simp: triple_def io_bind_def io_do_def io_lift_def io_fail_def io_return_def
        renewed_last_def steady_def lawful_record)
  then show ?thesis
    unfolding renew_m_def Let_def
    by (intro calm_seq [OF calm_await] calm_seq [OF calm_next_call])
qed

lemma push_licensed:
  "triple (\<lambda>x. active g S x \<and> renewed_last g (x_trace x)) (push_branch (run_child si c) branch)
     (\<lambda>_. steady g S) (lawful g)"
proof (cases "push_args branch")
  case (Inl e)
  then show ?thesis
    by (auto simp: push_branch_def io_lift_def triple_def io_bind_def io_fail_def dest: active_steady steady_lawful)
next
  case (Inr args)
  then have args: "args = [''push'', ''--no-verify'', ''--set-upstream'', ''origin'', branch]"
    using push_args_ok by blast
  have "triple (\<lambda>x. active g S x \<and> renewed_last g (x_trace x)) (run_child si c ''git'' args t)
      (\<lambda>_. steady g S) (steady g S)" for t
    by (rule child_after_record, rule triple_do, rule licensed_record) (simp_all add: args)
  then have "triple (\<lambda>x. active g S x \<and> renewed_last g (x_trace x))
      (io_map (\<lambda>_. ()) (git_network (run_child si c) args)) (\<lambda>_. steady g S) (lawful g)"
    unfolding git_network_def by (intro triple_map triple_lawful)
  then show ?thesis
    by (simp add: push_branch_def Inr io_lift_def triple_def io_bind_def io_return_def)
qed

lemma commit_and_push_licensed:
  "triple (steady g S) (commit_and_push si claim) (\<lambda>_. steady g S) (lawful g)"
proof -
  have renew: "triple (steady g S) (case claim of None \<Rightarrow> io_return () | Some c \<Rightarrow> renew_m si c)
      (\<lambda>_ x. steady g S x \<and> renewed_last g (x_trace x)) (lawful g)"
  proof (cases claim)
    case None
    then have "\<not> g" using licensed by auto
    then show ?thesis by (simp add: None renewed_last_def triple_return)
  qed (simp add: renew_licensed)
  have push: "triple (\<lambda>x. steady g S x \<and> renewed_last g (x_trace x))
      (io_bind (ensure_task_active si) (\<lambda>_.
       io_bind (push_branch (run_child si True) branch) (\<lambda>_. emit_m si ev))) (\<lambda>_. steady g S) (lawful g)" for branch ev
    by (rule triple_bind [OF triple_lawful [OF ensure_active_trace]])
      (rule triple_bind [OF push_licensed], rule calm_triple, rule calm_emit)
  show ?thesis
    unfolding commit_and_push_def
    by (rule calm_seq [OF calm_get], rule ensure_seq, rule triple_bind [OF commit_licensed],
        rule calm_seq [OF calm_ensure], rule triple_bind [OF renew]) (rule push)
qed

lemma stage_licensed: "triple (steady g S) (stage_and_push si claim) (\<lambda>_. steady g S) (lawful g)"
  unfolding stage_and_push_def
  by (rule ensure_seq, rule triple_bind [OF add_licensed], rule calm_seq [OF calm_ensure],
      rule calm_seq [OF status_calm], rule triple_if, rule commit_and_push_licensed, rule calm_triple, rule calm_emit)

lemma publish_output_calm: "calm g S (publish_output si f)"
proof -
  have one: "calm g S (io_bind (await si) (\<lambda>_. io_bind (io_get x_task) (\<lambda>t. if cond t then ensure_task_active si
      else emit_m si (ev t))))" for cond ev
    by (intro step_rules)
  have "triple (active g S) (io_bind (io_do (record_act (Publishing (of_path f)))) (\<lambda>_.
      io_bind (await si) (\<lambda>_. io_bind (io_get x_task) (\<lambda>t. if cond t then ensure_task_active si
      else emit_m si (ev t))))) (\<lambda>_. steady g S) (steady g S)" for cond ev
    by (rule triple_bind, rule licensed_do, simp, simp, rule one [unfolded calm_def])
  then show ?thesis
    unfolding publish_output_def
    by (intro ensure_calm_seq triple_if triple_return) (simp_all add: active_steady)
qed

lemma publish_artifacts_calm: "calm g S (publish_artifacts si)"
proof -
  have "calm g S (io_each (\<lambda>f. io_bind (await si) (\<lambda>_. publish_output si f)) fs)" for fs
    unfolding calm_def
    by (rule triple_each) (fold calm_def, intro calm_bind calm_await publish_output_calm)
  then show ?thesis
    unfolding publish_artifacts_def
    by (intro calm_bind [OF calm_ensure] calm_bind [OF calm_await] calm_bind [OF calm_get])
      (auto intro: calm_return split: option.split)
qed

lemma emit_active: "triple (active g S) (emit_m si ev) (\<lambda>_. active g S) (lawful g)"
  unfolding emit_m_def by (rule triple_do) (simp add: active_def steady_emit)

lemma lifecycle_licensed: "triple (steady g S) (run_task_lifecycle si claim) (\<lambda>_. steady g S) (lawful g)"
  unfolding run_task_lifecycle_def
  by (rule calm_seq [OF calm_ensure], rule calm_seq [OF deterministic_edit_calm],
      rule ensure_seq, rule triple_bind [OF emit_active], rule triple_bind [OF agent_licensed],
      rule calm_seq [OF calm_ensure], rule triple_bind [OF stage_licensed], rule calm_seq [OF calm_ensure],
      rule calm_triple, rule publish_artifacts_calm)

end

interpretation governed: licence True "running_acts c" "Some c" for c
  by unfold_locales simp

interpretation ungoverned: licence False "{}" None
  by unfold_locales simp

section \<open>A whole run\<close>

lemma calm_set_ready [step_rules]: "calm g S set_ready"
  by (simp add: set_ready_def calm_def triple_do)

lemma calm_cancel_check [step_rules]: "calm g S (ensure_cancel_active si c)"
proof -
  have pre: "calm g S (preempt si)"
    unfolding calm_def preempt_def next_interrupts_def by (rule triple_do) (simp add: foldl_steady)
  show ?thesis unfolding ensure_cancel_active_def by (intro step_rules pre)
qed

lemma calm_harmless_git:
  "args = [] \<or> hd args \<notin> {''add'', ''commit'', ''push''} \<Longrightarrow> calm g S (run_child si c ''git'' args t)"
  by (rule calm_harmless_child) auto

lemma calm_each: "(\<And>v. v \<in> set vs \<Longrightarrow> calm g S (f v)) \<Longrightarrow> calm g S (io_each f vs)"
  unfolding calm_def by (rule triple_each)

lemma calm_identity [step_rules]: "calm g S (identity_m si c)"
  unfolding identity_m_def configure_identity_def git_quick_def
  by (intro calm_each step_rules calm_harmless_git) (auto simp: identity_args_def)

lemma calm_lifted_git:
  assumes "\<And>args. r = Inr args \<Longrightarrow> args \<noteq> [] \<and> hd args \<notin> {''add'', ''commit'', ''push''}"
  shows "calm g S (io_bind (io_lift r) (\<lambda>args. io_map h (git_network (run_child si c) args)))"
proof (cases r)
  case (Inr args)
  then have "calm g S (io_map h (git_network (run_child si c) args))"
    unfolding git_network_def by (intro step_rules calm_harmless_git) (use assms in blast)
  then show ?thesis by (simp add: Inr calm_def io_lift_def triple_def io_bind_def io_return_def)
qed (simp add: calm_def io_lift_def triple_def io_bind_def io_fail_def)

lemma calm_fetch [step_rules]: "calm g S (fetch_remote_branch (run_child si c) branch depth)"
  unfolding fetch_remote_branch_def
  by (rule calm_lifted_git) (auto dest!: fetch_args_ok)

lemma calm_remote_exists [step_rules]: "calm g S (remote_branch_exists (run_child si c) branch)"
  unfolding remote_branch_exists_def
  by (rule calm_lifted_git) (auto simp: remote_branch_args_def res_bind_Inr_iff)

lemma calm_source [step_rules]: "calm g S (switch_source si c branch)"
  unfolding switch_source_def by (intro step_rules)

lemma calm_branch [step_rules]: "calm g S (checked_out_branch si c)"
  unfolding checked_out_branch_def current_branch_with_cancel_def current_branch_def git_quick_def
  by (intro step_rules calm_harmless_git) (simp_all add: current_branch_args_def)

lemma calm_switch [step_rules]: "calm g S (switch_if_needed si c branch current source)"
  unfolding switch_if_needed_def workspace_status_def git_quick_def
  by (intro step_rules calm_harmless_git) (simp_all add: workspace_status_args_def switch_args_def)

lemma prepare_calm: "calm g S (prepare_session_workspace_inner si c)"
  unfolding prepare_session_workspace_inner_def Let_def by (intro step_rules)

lemma caught_lawful:
  "triple P m (\<lambda>_. lawful g) (lawful g) \<Longrightarrow> triple P (attempt m) (\<lambda>_. lawful g) (lawful g)"
  by (rule triple_catch) simp_all

lemma quiet_seq: "triple P m (\<lambda>_. lawful g) (lawful g) \<Longrightarrow> (\<And>v. quiet g (f v)) \<Longrightarrow>
    triple P (io_bind m f) (\<lambda>_. lawful g) (lawful g)"
  unfolding quiet_def by (rule triple_bind)

lemma claimed_execution_lawful:
  "triple (steady True (running_acts c)) (claimed_execution si c) (\<lambda>_. lawful True) (lawful True)"
  unfolding claimed_execution_def report_end_def recover_rejected_def
proof (rule quiet_seq [OF caught_lawful])
  show "triple (steady True (running_acts c)) (run_task_lifecycle si (Some c)) (\<lambda>_. lawful True) (lawful True)"
    by (rule triple_conseq [OF governed.lifecycle_licensed]) (simp_all add: steady_lawful)
qed (intro step_rules, auto intro!: step_rules split: sum.split)

lemma claimed_lifecycle_lawful:
  "triple (steady True (running_acts c)) (run_claimed_lifecycle si c) (\<lambda>_. lawful True) (lawful True)"
proof -
  have keep: "triple (steady True (running_acts c)) (io_do (\<lambda>x. x\<lparr>x_keep := Some c, x_lost := None\<rparr>))
      (\<lambda>_. steady True (running_acts c)) (lawful True)"
    by (rule triple_do) simp
  have drop: "quiet True (io_do (\<lambda>x. x\<lparr>x_keep := None\<rparr>))"
    by (simp add: quiet_def triple_do)
  show ?thesis
    unfolding run_claimed_lifecycle_def
    by (rule triple_bind [OF keep], rule quiet_seq [OF caught_lawful [OF claimed_execution_lawful]])
      (intro step_rules drop, auto intro!: step_rules split: option.split sum.split)
qed

lemma claim_steady: "triple (steady g {}) (claim_m si w) (\<lambda>c. steady g {Claimed c}) (lawful g)"
proof -
  have "triple (steady g {}) (io_bind (io_do (record_act (Claimed c))) (\<lambda>_. io_return c))
      (\<lambda>c. steady g {Claimed c}) (lawful g)" for c
    by (auto simp: triple_def io_bind_def io_do_def io_return_def steady_def lawful_record)
  then show ?thesis
    unfolding claim_m_def
    by (intro calm_seq [OF calm_await] calm_seq [OF calm_next_call] calm_seq [OF calm_lift])
qed

lemma running_steady:
  "triple (steady g {Claimed c}) (transition_m si c ''running'') (\<lambda>_. steady g (running_acts c)) (lawful g)"
proof -
  have start: "triple (steady g {Claimed c}) (io_do (record_act (Transition c ''running'')))
      (\<lambda>_. steady g {Claimed c, Transition c ''running''}) (lawful g)"
    by (rule triple_do) (auto simp: steady_def lawful_record)
  have "triple (steady g {Claimed c, Transition c ''running''})
      (io_bind (io_do (record_act (Replied (is_ok r)))) (\<lambda>_. io_lift r)) (\<lambda>_. steady g (running_acts c)) (lawful g)"
    for r :: "string + unit"
    by (cases r) (auto simp: triple_def io_bind_def io_do_def io_lift_def io_fail_def io_return_def steady_def
        running_acts_def lawful_record)
  then show ?thesis
    unfolding transition_m_def Let_def
    by (intro triple_bind [OF start] calm_seq [OF calm_await] calm_seq [OF calm_next_call])
qed

lemma with_claim_lawful:
  "triple (steady True {Claimed c}) (with_claim si c) (\<lambda>_. lawful True) (lawful True)"
proof -
  have go: "triple (steady True {Claimed c}) (start_claimed si c) (\<lambda>_. lawful True) (lawful True)"
    unfolding start_claimed_def
    by (rule triple_bind [OF running_steady], rule calm_seq [OF calm_emit], rule claimed_lifecycle_lawful)
  have "quiet True (abandon_claim si c e)" for e
    unfolding abandon_claim_def by (intro step_rules) (auto intro!: step_rules split: sum.split)
  then have quit: "triple (steady True {Claimed c}) (abandon_claim si c e) (\<lambda>_. lawful True) (lawful True)" for e
    unfolding quiet_def by (rule triple_conseq) (simp_all add: steady_lawful)
  show ?thesis
    unfolding with_claim_def
    by (rule calm_seq [OF calm_catch [OF calm_ensure]]) (auto intro: go quit split: sum.split)
qed

lemma run_claimed_lawful: "triple (steady True {}) (run_claimed si) (\<lambda>_. lawful True) (lawful True)"
  unfolding run_claimed_def
  by (rule calm_seq [OF calm_get])
    (auto intro!: triple_fail steady_lawful triple_bind [OF claim_steady] with_claim_lawful split: option.split)

lemma run_inner_lawful:
  assumes "g = cp_enabled (si_control_plane si)"
  shows "triple (steady g {}) (run_task_inner si) (\<lambda>_. lawful g) (lawful g)"
proof -
  have "triple (steady g {}) (if cp_enabled (si_control_plane si) then run_claimed si else run_task_lifecycle si None)
      (\<lambda>_. lawful g) (lawful g)"
  proof (cases g)
    case True
    then show ?thesis using assms run_claimed_lawful by simp
  next
    case False
    have "triple (steady False {}) (run_task_lifecycle si None) (\<lambda>_. lawful False) (lawful False)"
      by (rule triple_conseq [OF ungoverned.lifecycle_licensed]) (simp_all add: steady_lawful)
    then show ?thesis using assms False by simp
  qed
  then show ?thesis
    unfolding run_task_inner_def
    by (intro calm_seq [OF calm_ensure] calm_seq [OF calm_emit] calm_seq [OF prepare_calm])
qed

text \<open>A task as it is dispatched: not finished, nothing done, no claim; it may be cancelled already.\<close>

definition start_exec :: "exec \<Rightarrow> exec" where
  "start_exec x =
     x\<lparr>x_task := (x_task x)\<lparr>tk_finished := False, tk_finished_at := None\<rparr>, x_trace := [], x_keep := None,
       x_lost := None, x_readers := False\<rparr>"

lemma start_steady: "steady g {} (start_exec x)"
  by (simp add: start_exec_def steady_def lawful_def stopped_def)

lemma quiet_session: "(\<And>x. x_trace (f x) = x_trace x) \<Longrightarrow> quiet g (io_do f)"
  unfolding quiet_def by (rule triple_do) (simp add: lawful_def)

lemma run_task_lawful:
  assumes "g = cp_enabled (si_control_plane si)"
  shows "triple (steady g {}) (run_task si) (\<lambda>_. lawful g) (lawful g)"
proof -
  have running: "calm g {} (io_do (\<lambda>x. set_running (Some (tk_task_id (x_task x))) x))"
    unfolding calm_def set_running_def by (rule triple_do) simp
  have reason: "quiet g (exit_reason si r)" for r
    unfolding exit_reason_def by (cases r) (auto intro!: step_rules)
  have fin: "quiet g (finish_task si reason)" for reason
    unfolding finish_task_def by (intro step_rules quiet_session) simp
  have rel: "quiet g release_session"
    unfolding release_session_def set_running_def by (rule quiet_session) simp
  show ?thesis
    unfolding run_task_def
    by (rule calm_seq [OF calm_await], rule calm_seq [OF running],
        rule quiet_seq [OF caught_lawful [OF run_inner_lawful [OF assms]]]) (intro step_rules reason fin rel)
qed


end
