(* ===== verification/Orchestrator_Outcome.thy ===== *)
theory Orchestrator_Outcome
  imports Orchestrator_Authority
begin

text \<open>
  How a run ends: the one event that ends it, and what the control plane was told. Both rest on a
  frame: everything but the claim, the transitions and the final event leaves the milestones of
  the trace alone.
\<close>

section \<open>The frame\<close>

fun milestone :: "act \<Rightarrow> bool" where
  "milestone (Claimed c) = True"
| "milestone (Transition c s) = True"
| "milestone (Replied ok) = True"
| "milestone (Emitted j) = (get_str j ''kind'' = Some ''done'')"
| "milestone _ = False"

definition milestones :: "exec \<Rightarrow> act list" where
  "milestones x = filter milestone (x_trace x)"

type_synonym fixed = "bool \<times> string \<times> string \<times> agent_provider \<times> string option \<times> string option"

definition fixed_part :: "exec \<Rightarrow> fixed" where
  "fixed_part x = (tk_finished (x_task x), tk_task_id (x_task x), tk_branch (x_task x), tk_provider (x_task x),
     tk_thread_id (x_task x), ts_running_task_id (x_session x))"

definition view :: "exec \<Rightarrow> act list \<times> fixed" where
  "view x = (milestones x, fixed_part x)"

lemmas view_defs = view_def milestones_def fixed_part_def

lemma with_provider_kind [simp]: "get_str (with_provider p j) ''kind'' = get_str j ''kind''"
  by (cases j) (auto simp: with_provider_def get_str_def map_add_def split: option.splits)

lemma view_emit: "get_str ev ''kind'' \<noteq> Some ''done'' \<Longrightarrow> view (emit_now si ev x) = view x"
  by (simp add: view_defs)

lemma view_record: "\<not> milestone a \<Longrightarrow> view (record_act a x) = view x"
  by (simp add: view_defs)

lemma kinds [simp]:
  "get_str (status_event a b) ''kind'' = Some ''status''" "get_str (stderr_event a) ''kind'' = Some ''stderr''"
  "get_str (error_event a) ''kind'' = Some ''error''" "get_str (done_event a b) ''kind'' = Some ''done''"
  "get_str (artifact_event r) ''kind'' \<noteq> Some ''done''" "get_str (claimed_event c) ''kind'' = Some ''status''"
  "get_str (agent_event e) ''kind'' \<noteq> Some ''done''"
  by (simp_all add: status_event_def stderr_event_def error_event_def done_event_def claimed_event_def
      artifact_event_def get_str_def split: sum.splits)
    (cases e; simp add: stderr_event_def error_event_def)+

lemma view_emit_line: "view (emit_line si line x) = view x"
  unfolding emit_line_def by (cases line) (simp_all add: view_emit del: agent_event.simps)

lemma view_update [simp]:
  "view (x\<lparr>x_interrupts := i\<rparr>) = view x" "view (x\<lparr>x_keep := k\<rparr>) = view x" "view (x\<lparr>x_lost := l\<rparr>) = view x"
  "view (x\<lparr>x_children := ch\<rparr>) = view x" "view (x\<lparr>x_calls := ca\<rparr>) = view x" "view (x\<lparr>x_files := f\<rparr>) = view x"
  "view (x\<lparr>x_readers := r\<rparr>) = view x"
  by (simp_all add: view_defs)

lemma view_interrupt: "view (handle_interrupt si x i) = view x"
proof (cases i)
  case Cancel_Request
  have "view (record_act Cancel_Requested (x\<lparr>x_task := (x_task x)\<lparr>tk_cancelled := True, tk_cancel := True\<rparr>\<rparr>)) = view x"
    by (simp add: view_defs)
  with Cancel_Request show ?thesis by (simp add: cancel_request_def view_emit)
next
  case (Renew_Tick w)
  then show ?thesis by (auto simp: renew_tick_def view_defs split: option.splits sum.splits)
qed (simp add: late_line_def view_emit_line)

lemma view_interrupts: "view (foldl (handle_interrupt si) x is) = view x"
  by (induction "is" arbitrary: x) (simp_all add: view_interrupt)

lemma keeps_emit [keeps_rules]: "get_str ev ''kind'' \<noteq> Some ''done'' \<Longrightarrow> keeps view (emit_m si ev)"
  unfolding emit_m_def by (rule keeps_do) (rule view_emit)

lemma keeps_record [keeps_rules]: "\<not> milestone a \<Longrightarrow> keeps view (io_do (record_act a))"
  by (rule keeps_do) (rule view_record)

lemma keeps_await [keeps_rules]: "keeps view (await si)"
  unfolding await_def next_interrupts_def by (rule keeps_do) (simp add: view_interrupts)

lemma keeps_preempt [keeps_rules]: "keeps view (preempt si)"
  unfolding preempt_def next_interrupts_def by (rule keeps_do) (simp add: view_interrupts)

lemma keeps_ensure [keeps_rules]: "keeps view (ensure_task_active si)"
  unfolding ensure_task_active_def by (intro keeps_rules)

lemma keeps_cancel_check [keeps_rules]: "keeps view (ensure_cancel_active si c)"
  unfolding ensure_cancel_active_def by (intro keeps_rules)

lemma keeps_next_call [keeps_rules]: "keeps view next_call"
  by (simp add: keeps_def next_call_def)

lemma keeps_file_call [keeps_rules]: "keeps view (file_call si)"
  unfolding file_call_def by (intro keeps_rules) (simp add: keeps_def)

lemma keeps_child [keeps_rules]: "keeps view (run_child si c program args t)"
  unfolding run_child_def by (intro keeps_rules) (simp_all add: keeps_def Let_def)

lemma keeps_renew [keeps_rules]: "keeps view (renew_m si c)"
  unfolding renew_m_def Let_def by (intro keeps_rules) simp

lemma keeps_option [keeps_rules]:
  "keeps v n \<Longrightarrow> (\<And>y. keeps v (h y)) \<Longrightarrow> keeps v (case opt of None \<Rightarrow> n | Some y \<Rightarrow> h y)"
  by (cases opt) simp_all

lemma keeps_sum [keeps_rules]:
  "(\<And>e. keeps v (n e)) \<Longrightarrow> (\<And>y. keeps v (h y)) \<Longrightarrow> keeps v (case r of Inl e \<Rightarrow> n e | Inr y \<Rightarrow> h y)"
  by (cases r) simp_all

lemmas git_frames = git_calls_keep [where v = view and run = "run_child si c" for si c, OF keeps_child]

lemma keeps_set_ready [keeps_rules]: "keeps view set_ready"
  unfolding set_ready_def by (rule keeps_do) (simp add: view_defs)

lemma keeps_prepare: "keeps view (prepare_session_workspace_inner si c)"
  unfolding prepare_session_workspace_inner_def Let_def identity_m_def switch_source_def checked_out_branch_def
    switch_if_needed_def
  by (intro keeps_rules git_frames)

lemma keeps_agent: "keeps view (run_agent si)"
proof -
  have line: "keeps view (io_do (emit_line si l))" for l by (rule keeps_do) (rule view_emit_line)
  have readers: "keeps view (io_do (\<lambda>x. x\<lparr>x_readers := r\<rparr>))" for r by (rule keeps_do) simp
  show ?thesis
    unfolding run_agent_def Let_def
    by (rule keeps_bind [OF keeps_get]) (auto intro!: keeps_rules line readers split: prod.split)
qed

lemma keeps_append: "keeps view (apply_deterministic_append si edit)"
  unfolding apply_deterministic_append_def Let_def file_result_def by (intro keeps_rules) simp_all

lemma keeps_edit: "keeps view (deterministic_edit si)"
  unfolding deterministic_edit_def by (intro keeps_rules keeps_append) simp

lemma keeps_stage: "keeps view (stage_and_push si claim)"
  unfolding stage_and_push_def commit_and_push_def by (intro keeps_rules git_frames) simp_all

lemma keeps_publish: "keeps view (publish_artifacts si)"
  unfolding publish_artifacts_def publish_output_def by (intro keeps_rules) simp_all

lemma keeps_lifecycle: "keeps view (run_task_lifecycle si claim)"
  unfolding run_task_lifecycle_def by (intro keeps_rules keeps_edit keeps_agent keeps_stage keeps_publish) simp

section \<open>What the control plane is told\<close>

definition pos :: "act list \<Rightarrow> fixed \<Rightarrow> exec \<Rightarrow> bool" where
  "pos M F x \<longleftrightarrow> view x = (M, F)"

text \<open>The exchange about a work item \<open>w\<close> when a run has ended, with or without success: no claim at all;
  a claim that was cancelled at once or never accepted as running; a running item with its terminal
  status; and a success or cancellation that was rejected and followed by the failed status.\<close>

definition begun :: "work_claim \<Rightarrow> act list" where
  "begun c = [Claimed c, Transition c ''running'', Replied True]"

definition settled :: "string option \<Rightarrow> bool \<Rightarrow> act list \<Rightarrow> bool" where
  "settled w completed M \<longleftrightarrow>
     M = [] \<and> \<not> completed
     \<or> (\<exists>c ok. w = Some (wc_work_item_id c) \<and> \<not> completed
          \<and> (M = [Claimed c, Transition c ''cancelled'', Replied ok]
             \<or> M = [Claimed c, Transition c ''running'', Replied False]))
     \<or> (\<exists>c t ok. w = Some (wc_work_item_id c) \<and> M = begun c @ [Transition c t, Replied ok]
          \<and> (if completed then ok \<and> t \<in> {''awaiting_review'', ''cancelled''}
             else t \<in> {''cancelled'', ''failed''} \<or> t = ''awaiting_review'' \<and> ok))
     \<or> (\<exists>c t ok. w = Some (wc_work_item_id c)
          \<and> M = begun c @ [Transition c t, Replied False, Transition c ''failed'', Replied ok]
          \<and> \<not> completed \<and> t \<in> {''awaiting_review'', ''cancelled''})"

text \<open>Where a panic may leave it.\<close>

definition unsettled :: "act list \<Rightarrow> bool" where
  "unsettled M \<longleftrightarrow> M = [] \<or> (\<exists>c. M = begun c)"

definition told :: "string option \<Rightarrow> bool \<Rightarrow> fixed \<Rightarrow> exec \<Rightarrow> bool" where
  "told w completed F x \<longleftrightarrow> (\<exists>M. pos M F x \<and> settled w completed M)"

definition bad_end :: "string option \<Rightarrow> fixed \<Rightarrow> fault \<Rightarrow> exec \<Rightarrow> bool" where
  "bad_end w F e x \<longleftrightarrow>
     (case e of Fail t \<Rightarrow> told w False F x | Unwind \<Rightarrow> \<exists>M. pos M F x \<and> unsettled M)"

lemma bad_end_simps [simp]:
  "bad_end w F (Fail t) x = told w False F x" "bad_end w F Unwind x = (\<exists>M. pos M F x \<and> unsettled M)"
  by (simp_all add: bad_end_def)

lemma hold: "keeps view m \<Longrightarrow> ends_in (pos M F) m (\<lambda>_. pos M F) (\<lambda>_. pos M F)"
  unfolding pos_def by (rule ends_in_keeps)

lemma hold_told: "keeps view m \<Longrightarrow> ends_in (told w b F) m (\<lambda>_. told w b F) (\<lambda>_. told w b F)"
  unfolding told_def pos_def by (rule ends_in_keeps)

lemma hold_bind: "keeps view m \<Longrightarrow> (\<And>x s. pos M F s \<Longrightarrow> E x s) \<Longrightarrow> (\<And>v. ends_in (pos M F) (f v) Q E) \<Longrightarrow>
    ends_in (pos M F) (io_bind m f) Q E"
  by (rule ends_in_bind [OF ends_in_conseq [OF hold]])

lemma told_empty: "pos [] F x \<Longrightarrow> told w False F x"
  by (auto simp: told_def settled_def)

lemma bad_end_empty: "pos [] F x \<Longrightarrow> bad_end w F e x"
  by (cases e) (auto simp: told_empty unsettled_def)

lemma pos_record: "pos M F x \<Longrightarrow> milestone a \<Longrightarrow> pos (M @ [a]) F (record_act a x)"
  by (simp add: pos_def view_defs)

text \<open>Steps that have no error.\<close>

lemma pos_preempt: "ends_in (pos M F) (preempt si) (\<lambda>_. pos M F) E"
  using keeps_preempt [of si] by (auto simp: ends_in_def preempt_def io_do_def keeps_def pos_def)

lemma pos_await: "ends_in (pos M F) (await si) (\<lambda>_. pos M F) E"
  using keeps_await [of si] by (auto simp: ends_in_def await_def io_do_def keeps_def pos_def)

lemma pos_get: "ends_in (pos M F) (io_get f) (\<lambda>_. pos M F) E"
  by (rule ends_in_get)

lemma pos_emit: "get_str ev ''kind'' \<noteq> Some ''done'' \<Longrightarrow> ends_in (pos M F) (emit_m si ev) (\<lambda>_. pos M F) E"
  using keeps_emit [of ev si] by (auto simp: ends_in_def emit_m_def io_do_def keeps_def pos_def)

lemma transition_pos:
  "ends_in (pos M F) (transition_m si c s) (\<lambda>_. pos (M @ [Transition c s, Replied True]) F)
     (\<lambda>e x. (\<exists>t. e = Fail t) \<and> pos (M @ [Transition c s, Replied False]) F x)"
proof -
  have start: "ends_in (pos M F) (io_do (record_act (Transition c s))) (\<lambda>_. pos (M @ [Transition c s]) F) E" for E
    by (rule ends_in_do) (simp add: pos_record)
  have call: "ends_in (pos M' F) next_call (\<lambda>_. pos M' F) E" for M' E
    by (simp add: ends_in_def next_call_def pos_def)
  have reply: "ends_in (pos (M @ [Transition c s]) F) (io_bind (io_do (record_act (Replied (is_ok r)))) (\<lambda>_. io_lift r))
      (\<lambda>_. pos (M @ [Transition c s, Replied True]) F)
      (\<lambda>e x. (\<exists>t. e = Fail t) \<and> pos (M @ [Transition c s, Replied False]) F x)" for r :: "string + unit"
    using pos_record [of "M @ [Transition c s]" F]
    by (cases r) (auto simp: ends_in_def io_bind_def io_do_def io_lift_def io_fail_def io_return_def)
  show ?thesis
    unfolding transition_m_def Let_def
    by (intro ends_in_bind [OF start] ends_in_bind [OF pos_await] ends_in_bind [OF call] reply)
qed

lemma attempt_transition:
  "ends_in (pos M F) (attempt (transition_m si c s))
     (\<lambda>r. pos (M @ [Transition c s, Replied (is_ok r)]) F) (\<lambda>_ _. False)"
  by (rule ends_in_catch, rule ends_in_conseq [OF transition_pos]) auto

lemma settled_terminal:
  "w = Some (wc_work_item_id c) \<Longrightarrow>
   (if completed then ok \<and> t \<in> {''awaiting_review'', ''cancelled''}
    else t \<in> {''cancelled'', ''failed''} \<or> t = ''awaiting_review'' \<and> ok) \<Longrightarrow>
   settled w completed (begun c @ [Transition c t, Replied ok])"
  unfolding settled_def by (rule disjI2, rule disjI2, rule disjI1) blast

lemma settled_rejected:
  "w = Some (wc_work_item_id c) \<Longrightarrow> t \<in> {''awaiting_review'', ''cancelled''} \<Longrightarrow>
   settled w False (begun c @ [Transition c t, Replied False, Transition c ''failed'', Replied ok])"
  unfolding settled_def by (rule disjI2, rule disjI2, rule disjI2) blast

lemma settled_short:
  "w = Some (wc_work_item_id c) \<Longrightarrow> settled w False [Claimed c, Transition c ''cancelled'', Replied ok]"
  "w = Some (wc_work_item_id c) \<Longrightarrow> settled w False [Claimed c, Transition c ''running'', Replied False]"
  unfolding settled_def by (rule disjI2, rule disjI1, blast)+

lemma toldI: "pos M F x \<Longrightarrow> settled w b M \<Longrightarrow> told w b F x"
  by (auto simp: told_def)

lemma settled_weaken:
  assumes "settled w True M" shows "settled w False M"
proof -
  from assms obtain c t ok where "w = Some (wc_work_item_id c)" "M = begun c @ [Transition c t, Replied ok]"
      "ok" "t \<in> {''awaiting_review'', ''cancelled''}"
    unfolding settled_def if_True simp_thms by blast
  then show ?thesis by (auto intro!: settled_terminal)
qed

lemma told_weaken: "told w True F x \<Longrightarrow> told w False F x"
  unfolding told_def using settled_weaken by blast

lemma unsettled_begun: "pos (begun c) F x \<Longrightarrow> \<exists>M. pos M F x \<and> unsettled M"
  unfolding unsettled_def by blast

lemma recover_told:
  assumes w: "w = Some (wc_work_item_id c)" and t: "t \<in> {''awaiting_review'', ''cancelled''}"
  shows "ends_in (pos (begun c @ [Transition c t, Replied False]) F) (recover_rejected si c e) Q (bad_end w F)"
  unfolding recover_rejected_def
proof (rule ends_in_bind [OF ends_in_conseq [OF attempt_transition]], assumption, assumption, simp)
  fix r :: "string + unit"
  have "told w False F x" if "pos ((begun c @ [Transition c t, Replied False]) @ [Transition c ''failed'', Replied (is_ok r)]) F x" for x
    by (rule toldI [OF that]) (use settled_rejected [OF w t] in simp)
  then show "ends_in (pos ((begun c @ [Transition c t, Replied False]) @ [Transition c ''failed'', Replied (is_ok r)]) F)
      (case r of
         Inl failed_error \<Rightarrow> io_fail (Fail (''could not persist awaiting_review state: '' @ e
             @ ''; additionally could not persist failed state: '' @ failed_error))
       | Inr _ \<Rightarrow> io_fail (Fail (''could not persist awaiting_review state; marked work failed: '' @ e))) Q (bad_end w F)"
    by (cases r) (auto intro!: ends_in_fail)
qed

lemma report_end_told:
  fixes execution :: "string + unit"
  assumes w: "w = Some (wc_work_item_id c)"
  shows "ends_in (pos (begun c) F) (report_end si c execution (claimed_terminal_status cancelled (is_ok execution)))
    (\<lambda>_. told w True F) (bad_end w F)"
  unfolding report_end_def
proof (rule ends_in_bind [OF ends_in_conseq [OF attempt_transition]], assumption, assumption, simp)
  fix transition :: "string + unit"
  let ?t = "claimed_terminal_status cancelled (is_ok execution)"
  let ?P = "pos (begun c @ [Transition c ?t, Replied (is_ok transition)]) F"
  have failed: "?t \<in> {''cancelled'', ''failed''}" if "\<not> is_ok execution"
    using that by (simp add: claimed_terminal_status_def)
  have rejected: "?t \<in> {''awaiting_review'', ''cancelled''}" if "is_ok execution"
    using that by (simp add: claimed_terminal_status_def)
  have bad: "told w False F x" if "?P x" "\<not> is_ok execution" for x
    by (rule toldI [OF that(1) settled_terminal [OF w]]) (use failed [OF that(2)] in simp)
  have good: "told w True F x" if "?P x" "is_ok execution" "is_ok transition" for x
    by (rule toldI [OF that(1) settled_terminal [OF w]]) (use rejected [OF that(2)] that(3) in simp)
  consider e where "execution = Inl e" | "is_ok execution" "is_ok transition" | te where "is_ok execution" "transition = Inl te"
    by (cases execution; cases transition) auto
  then show "ends_in ?P (case (execution, transition) of
      (Inl e, Inl te) \<Rightarrow> io_fail (Fail (e @ ''; additionally could not persist '' @ ?t @ '' state: '' @ te))
    | (Inl e, Inr _) \<Rightarrow> io_fail (Fail e)
    | (Inr _, Inl review_error) \<Rightarrow> recover_rejected si c review_error
    | (Inr _, Inr _) \<Rightarrow> io_return ()) (\<lambda>_. told w True F) (bad_end w F)"
  proof cases
    case 1
    then show ?thesis using bad by (cases transition) (auto intro!: ends_in_fail)
  next
    case 2
    then show ?thesis using good by (cases execution; cases transition) (auto intro!: ends_in_return)
  next
    case 3
    then obtain u where u: "execution = Inr u" by (cases execution) auto
    have no: "is_ok (transition) = False" using 3 by simp
    show ?thesis
      unfolding no unfolding 3(2) u prod.case sum.case
      by (rule recover_told [OF w]) (simp add: claimed_terminal_status_def)
  qed
qed

text \<open>The execution of a claimed task: told with its success, with its failure, or panicked.\<close>

lemma claimed_execution_told:
  assumes w: "w = Some (wc_work_item_id c)"
  shows "ends_in (pos (begun c) F) (claimed_execution si c) (\<lambda>_. told w True F) (bad_end w F)"
proof -
  have exec: "ends_in (pos (begun c) F) (attempt (run_task_lifecycle si (Some c))) (\<lambda>_. pos (begun c) F) (bad_end w F)"
    by (rule ends_in_catch, rule ends_in_conseq [OF hold [OF keeps_lifecycle]])
      (auto split: option.splits elim!: fault_error.elims intro: unsettled_begun)
  have finish: "ends_in (pos (begun c) F) (report_end si c execution (claimed_terminal_status cancelled (is_ok execution)))
      (\<lambda>_. told w True F) (bad_end w F)" for execution :: "string + unit" and cancelled
    by (rule report_end_told [OF w])
  show ?thesis
    unfolding claimed_execution_def
    by (rule ends_in_bind [OF exec], rule ends_in_bind [OF pos_preempt], rule ends_in_bind [OF pos_get], rule finish)
qed

lemma told_not_completed: "(if b then told w True F x else told w False F x) \<Longrightarrow> told w False F x"
  by (cases b) (simp_all add: told_weaken)

lemma claimed_lifecycle_told:
  assumes w: "w = Some (wc_work_item_id c)"
  shows "ends_in (pos (begun c) F) (run_claimed_lifecycle si c) (\<lambda>_. told w True F) (bad_end w F)"
proof -
  have keep: "ends_in (pos (begun c) F) (io_do (\<lambda>x. x\<lparr>x_keep := Some c, x_lost := None\<rparr>)) (\<lambda>_. pos (begun c) F) E" for E
    by (rule ends_in_do) (simp add: pos_def)
  have exec: "ends_in (pos (begun c) F) (attempt (claimed_execution si c))
      (\<lambda>r x. if is_ok r then told w True F x else told w False F x) (bad_end w F)"
    by (rule ends_in_catch, rule ends_in_conseq [OF claimed_execution_told [OF w]])
      (auto simp: bad_end_def split: option.splits fault.splits elim!: fault_error.elims)
  have told_any: "told w False F x" if "if is_ok r then told w True F x else told w False F x" for r :: "string + unit" and x
    using that by (rule told_not_completed)
  have rest: "ends_in (\<lambda>x. if is_ok r then told w True F x else told w False F x)
      (io_bind (io_get x_lost) (\<lambda>lost.
       io_bind (io_do (\<lambda>x. x\<lparr>x_keep := None\<rparr>)) (\<lambda>_.
         case lost of
           None \<Rightarrow> io_lift r
         | Some e \<Rightarrow>
             (case r of
                Inl cleanup_error \<Rightarrow>
                  io_fail (Fail (''lost work-item authority during task lifecycle: '' @ e
                    @ ''; cancellation cleanup: '' @ cleanup_error))
              | Inr _ \<Rightarrow> io_fail (Fail (''lost work-item authority during task lifecycle: '' @ e))))))
      (\<lambda>_. told w True F) (bad_end w F)" for r :: "string + unit"
    by (cases r) (auto simp: ends_in_def io_bind_def io_get_def io_do_def io_lift_def io_fail_def io_return_def
        told_def pos_def told_weaken [unfolded told_def pos_def] split: option.split)
  show ?thesis
    unfolding run_claimed_lifecycle_def
    by (rule ends_in_bind [OF keep], rule ends_in_bind [OF exec], rule rest)
qed

lemma claim_pos:
  "ends_in (pos [] F) (claim_m si work_item_id)
     (\<lambda>c x. wc_work_item_id c = work_item_id \<and> pos [Claimed c] F x) (bad_end w F)"
proof -
  have claim: "ends_in (pos [] F) (io_bind (io_lift (claim_work cw cp work_item_id claim_lease_ttl_ms)) (\<lambda>c.
      io_bind (io_do (record_act (Claimed c))) (\<lambda>_. io_return c)))
      (\<lambda>c x. wc_work_item_id c = work_item_id \<and> pos [Claimed c] F x) (bad_end w F)" for cw cp
    using pos_record [of "[]" F]
    by (cases "claim_work cw cp work_item_id claim_lease_ttl_ms")
      (auto simp: ends_in_def io_bind_def io_do_def io_lift_def io_fail_def io_return_def told_empty
        dest: claim_work_result)
  have call: "ends_in (pos [] F) next_call (\<lambda>_. pos [] F) E" for E
    by (simp add: ends_in_def next_call_def pos_def)
  show ?thesis
    unfolding claim_m_def by (rule ends_in_bind [OF pos_await], rule ends_in_bind [OF call], rule claim)
qed

section \<open>A whole run\<close>

definition ended :: "bool \<Rightarrow> string option \<Rightarrow> bool \<Rightarrow> fixed \<Rightarrow> exec \<Rightarrow> bool" where
  "ended g w completed F x \<longleftrightarrow> (if g then told w completed F x else pos [] F x)"

definition unwound :: "fixed \<Rightarrow> exec \<Rightarrow> bool" where
  "unwound F x \<longleftrightarrow> (\<exists>M. pos M F x \<and> unsettled M)"

definition failed_end :: "bool \<Rightarrow> string option \<Rightarrow> fixed \<Rightarrow> fault \<Rightarrow> exec \<Rightarrow> bool" where
  "failed_end g w F e x \<longleftrightarrow> (case e of Fail t \<Rightarrow> ended g w False F x | Unwind \<Rightarrow> unwound F x)"

lemma failed_end_bad: "bad_end w F e x \<Longrightarrow> failed_end True w F e x"
  by (cases e) (simp_all add: failed_end_def ended_def unwound_def)

lemma unwound_empty: "pos [] F x \<Longrightarrow> unwound F x"
  unfolding unwound_def unsettled_def by blast

lemma failed_end_empty: "pos [] F x \<Longrightarrow> failed_end g w F e x"
  by (cases e) (simp_all add: failed_end_def ended_def told_empty unwound_empty)

text \<open>Both hold of every state with the same view.\<close>

lemma ended_view: "view y = view x \<Longrightarrow> ended g w b F y = ended g w b F x"
  by (simp add: ended_def told_def pos_def)

lemma hold_ended: "(\<And>x. view (f x) = view x) \<Longrightarrow> ends_in (ended g w b F) (io_do f) (\<lambda>_. ended g w b F) E"
  by (rule ends_in_do) (use ended_view in blast)

lemma hold_empty: "keeps view m \<Longrightarrow> ends_in (pos [] F) m (\<lambda>_. pos [] F) (failed_end g w F)"
  by (rule ends_in_conseq [OF hold]) (auto intro: failed_end_empty)

lemma start_claimed_told:
  assumes w: "w = Some (wc_work_item_id c)"
  shows "ends_in (pos [Claimed c] F) (start_claimed si c) (\<lambda>_. told w True F) (bad_end w F)"
  unfolding start_claimed_def
proof (rule ends_in_bind)
  show "ends_in (pos [Claimed c] F) (transition_m si c ''running'') (\<lambda>_. pos (begun c) F) (bad_end w F)"
    by (rule ends_in_conseq [OF transition_pos])
      (auto simp: begun_def intro: toldI [OF _ settled_short(2) [OF w]])
  show "ends_in (pos (begun c) F) (io_bind (emit_m si (claimed_event c)) (\<lambda>_. run_claimed_lifecycle si c))
      (\<lambda>_. told w True F) (bad_end w F)"
    by (rule ends_in_bind [OF pos_emit]) (simp, rule claimed_lifecycle_told [OF w])
qed

lemma abandon_told:
  assumes w: "w = Some (wc_work_item_id c)"
  shows "ends_in (pos [Claimed c] F) (abandon_claim si c e) (\<lambda>_. told w True F) (bad_end w F)"
  unfolding abandon_claim_def
proof (rule ends_in_bind [OF ends_in_conseq [OF attempt_transition]], assumption, assumption, simp)
  fix r :: "string + unit"
  have "told w False F x" if "pos ([Claimed c] @ [Transition c ''cancelled'', Replied (is_ok r)]) F x" for x
    by (rule toldI [OF that]) (simp add: settled_short(1) [OF w])
  then show "ends_in (pos ([Claimed c] @ [Transition c ''cancelled'', Replied (is_ok r)]) F)
      (case r of Inl te \<Rightarrow> io_fail (Fail (e @ ''; additionally could not persist cancelled state: '' @ te))
       | Inr _ \<Rightarrow> io_fail (Fail e)) (\<lambda>_. told w True F) (bad_end w F)"
    by (cases r) (auto intro!: ends_in_fail)
qed

lemma check_pos: "ends_in (pos M F) (attempt (ensure_task_active si)) (\<lambda>_. pos M F) E"
proof (rule ends_in_catch)
  have "\<exists>t. e = Fail t" if "ensure_task_active si x = (Inl e, y)" for x e y
    using that by (auto simp: ensure_task_active_def io_bind_def preempt_def io_do_def io_get_def io_fail_def
        io_return_def split: if_splits)
  then show "ends_in (pos M F) (ensure_task_active si) (\<lambda>_. pos M F)
      (\<lambda>e s. case fault_error e of None \<Rightarrow> E e s | Some _ \<Rightarrow> pos M F s)"
    using hold [OF keeps_ensure, of M F si]
    by (fastforce simp: ends_in_def split: prod.splits sum.splits)
qed

lemma with_claim_told:
  "ends_in (\<lambda>x. w = Some (wc_work_item_id c) \<and> pos [Claimed c] F x) (with_claim si c) (\<lambda>_. told w True F) (bad_end w F)"
proof (cases "w = Some (wc_work_item_id c)")
  case True
  have "ends_in (pos [Claimed c] F) (with_claim si c) (\<lambda>_. told w True F) (bad_end w F)"
    unfolding with_claim_def
    by (rule ends_in_bind [OF check_pos]) (auto intro: start_claimed_told abandon_told True split: sum.split)
  then show ?thesis by (rule ends_in_conseq) auto
qed (simp add: ends_in_def)

lemma run_claimed_told:
  assumes F: "F = (fin, i, br, pr, w, r)"
  shows "ends_in (pos [] F) (run_claimed si) (\<lambda>_. told w True F) (bad_end w F)"
  unfolding run_claimed_def
proof (rule ends_in_bind)
  show "ends_in (pos [] F) (io_get (\<lambda>x. tk_thread_id (x_task x))) (\<lambda>t x. pos [] F x \<and> t = w) (bad_end w F)"
    by (rule ends_in_get) (simp add: pos_def view_defs F)
  fix t :: "string option"
  have claim: "ends_in (\<lambda>x. pos [] F x \<and> Some v = w) (claim_m si v)
      (\<lambda>c x. w = Some (wc_work_item_id c) \<and> pos [Claimed c] F x) (bad_end w F)" for v
    using claim_pos [of F si v w] by (fastforce simp: ends_in_def split: prod.splits sum.splits)
  show "ends_in (\<lambda>x. pos [] F x \<and> t = w) (case t of
        None \<Rightarrow> io_fail (Fail ''control-plane governance requires a backing work-item id'')
      | Some work_item_id \<Rightarrow> io_bind (claim_m si work_item_id) (with_claim si)) (\<lambda>_. told w True F) (bad_end w F)"
    by (cases t) (auto intro!: ends_in_fail ends_in_bind [OF claim] with_claim_told simp: told_empty)
qed

lemma run_inner_ended:
  assumes F: "F = (fin, i, br, pr, w, r)" and g: "g = cp_enabled (si_control_plane si)"
  shows "ends_in (pos [] F) (run_task_inner si) (\<lambda>_. ended g w True F) (failed_end g w F)"
proof -
  have body: "ends_in (pos [] F) (if cp_enabled (si_control_plane si) then run_claimed si else run_task_lifecycle si None)
      (\<lambda>_. ended g w True F) (failed_end g w F)"
  proof (cases g)
    case True
    then show ?thesis
      unfolding g by (simp, intro ends_in_conseq [OF run_claimed_told [OF F]]) (auto simp: ended_def dest: failed_end_bad)
  next
    case False
    then show ?thesis
      unfolding g by (simp, intro ends_in_conseq [OF hold_empty [OF keeps_lifecycle]]) (auto simp: ended_def)
  qed
  show ?thesis
    unfolding run_task_inner_def
    by (rule ends_in_bind [OF hold_empty], intro keeps_rules)
      (rule ends_in_bind [OF hold_empty], intro keeps_rules, simp,
       rule ends_in_bind [OF hold_empty], rule keeps_prepare,
       rule ends_in_bind [OF hold_empty], intro keeps_rules, rule body)
qed

definition reasons :: "string set" where
  "reasons = {''completed'', ''cancelled'', ''failed''}"

lemma ended_emit: "get_str ev ''kind'' \<noteq> Some ''done'' \<Longrightarrow> ended g w b F (emit_now si ev x) = ended g w b F x"
  by (rule ended_view) (rule view_emit)

lemma exit_reason_ended:
  fixes r :: "string + unit"
  shows "ends_in (ended g w (is_ok r) F) (exit_reason si r)
    (\<lambda>reason x. reason \<in> reasons \<and> ended g w (reason = ''completed'') F x) E"
proof (cases r)
  case (Inr u)
  then show ?thesis by (simp add: exit_reason_def ends_in_return reasons_def)
next
  case (Inl e)
  have emit: "ends_in (ended g w False F) (emit_m si (error_event e)) (\<lambda>_. ended g w False F) E"
    unfolding emit_m_def by (rule hold_ended) (rule view_emit, simp)
  have pre: "ends_in (ended g w False F) (preempt si) (\<lambda>_. ended g w False F) E"
    unfolding preempt_def next_interrupts_def by (rule hold_ended) (simp add: view_interrupts)
  have last: "ends_in (ended g w False F) (io_map (\<lambda>t. if tk_cancelled t then ''cancelled'' else ''failed'') (io_get x_task))
      (\<lambda>reason x. reason \<in> reasons \<and> ended g w (reason = ''completed'') F x) E"
    unfolding io_map_def
    by (rule ends_in_bind [OF ends_in_get [where Q = "\<lambda>_. ended g w False F"]]) (auto intro!: ends_in_return simp: reasons_def)
  show ?thesis
    unfolding Inl exit_reason_def sum.case is_ok_simps
    using ends_in_bind [OF emit ends_in_bind [OF pre last]] by simp
qed

text \<open>The end: the final event, after the milestones so far.\<close>

definition finished_with :: "bool \<Rightarrow> string option \<Rightarrow> string \<Rightarrow> fixed \<Rightarrow> exec \<Rightarrow> bool" where
  "finished_with g w reason F x \<longleftrightarrow>
     (case F of (fin, i, br, pr, w', r) \<Rightarrow>
        \<exists>M. milestones x = M @ [Emitted (with_provider pr (done_event br reason))]
          \<and> fixed_part x = (True, i, br, pr, w', r) \<and> tk_finished_at (x_task x) \<noteq> None
          \<and> (if g then settled w (reason = ''completed'') M else M = []))"

lemma endedD:
  "ended g w b F x \<Longrightarrow> \<exists>M. milestones x = M \<and> fixed_part x = F \<and> (if g then settled w b M else M = [])"
  by (auto simp: ended_def told_def pos_def view_def split: if_splits)

lemma finish_ended:
  assumes F: "F = (False, i, br, pr, w', r)"
  shows "ends_in (ended g w (reason = ''completed'') F) (finish_task si reason) (\<lambda>_. finished_with g w reason F) E"
proof -
  let ?P = "ended g w (reason = ''completed'') F"
  have pre: "ends_in ?P (preempt si) (\<lambda>_. ?P) E"
    unfolding preempt_def next_interrupts_def by (rule hold_ended) (simp add: view_interrupts)
  have task: "ends_in ?P (io_get x_task) (\<lambda>t x. ?P x \<and> t = x_task x) E"
    by (rule ends_in_get) simp
  have fin: "finished_with g w reason F (emit_now si (done_event (tk_branch (x_task x)) reason)
      (x\<lparr>x_task := (x_task x)\<lparr>tk_finished := True, tk_finished_at := Some ts\<rparr>, x_clock := cl\<rparr>))"
    and live: "\<not> is_finished (x_task x)" if P: "?P x" for x ts cl
  proof -
    obtain M where "milestones x = M" and fx: "fixed_part x = F" and "if g then settled w (reason = ''completed'') M else M = []"
      using endedD [OF P] by blast
    then show "finished_with g w reason F (emit_now si (done_event (tk_branch (x_task x)) reason)
        (x\<lparr>x_task := (x_task x)\<lparr>tk_finished := True, tk_finished_at := Some ts\<rparr>, x_clock := cl\<rparr>))"
      by (auto simp: finished_with_def F milestones_def fixed_part_def)
    show "\<not> is_finished (x_task x)" using fx by (simp add: F fixed_part_def is_finished_def)
  qed
  have "ends_in (\<lambda>x. ?P x \<and> t = x_task x) (if is_finished t then io_return () else
      io_bind (io_do (\<lambda>x. x\<lparr>x_task := (x_task x)\<lparr>tk_finished := True, tk_finished_at := Some (fst (x_clock x 0))\<rparr>,
                              x_clock := (\<lambda>n. x_clock x (Suc n))\<rparr>)) (\<lambda>_. emit_m si (done_event (tk_branch t) reason)))
      (\<lambda>_. finished_with g w reason F) E" for t
    using fin live by (auto simp: ends_in_def io_bind_def io_do_def emit_m_def io_return_def)
  then show ?thesis
    unfolding finish_task_def by (rule ends_in_bind [OF pre ends_in_bind [OF task]])
qed

lemma release_finished:
  assumes F: "F = (False, i, br, pr, w', Some i)"
  shows "ends_in (finished_with g w reason F) release_session (\<lambda>_. finished_with g w reason (False, i, br, pr, w', None)) E"
  unfolding release_session_def
  by (rule ends_in_do) (auto simp: finished_with_def F fixed_part_def milestones_def set_running_def)

lemma run_task_ends:
  assumes g: "g = cp_enabled (si_control_plane si)" and F: "F = (False, i, br, pr, w, r)"
  shows "ends_in (pos [] F) (run_task si)
    (\<lambda>_ y. \<exists>reason \<in> reasons. finished_with g w reason (False, i, br, pr, w, None) y)
    (\<lambda>e y. e = Unwind \<and> unwound (False, i, br, pr, w, Some i) y)"
proof -
  let ?F = "(False, i, br, pr, w, Some i)"
  have run: "ends_in (pos [] F) (io_do (\<lambda>x. set_running (Some (tk_task_id (x_task x))) x)) (\<lambda>_. pos [] ?F) E" for E
    by (rule ends_in_do) (simp add: pos_def view_defs F set_running_def)
  have inner: "ends_in (pos [] ?F) (attempt (run_task_inner si)) (\<lambda>r. ended g w (is_ok r) ?F)
      (\<lambda>e y. e = Unwind \<and> unwound ?F y)"
    by (rule ends_in_catch, rule ends_in_conseq [OF run_inner_ended [OF refl g]])
      (auto simp: failed_end_def split: option.splits fault.splits elim!: fault_error.elims)
  have fin: "ends_in (\<lambda>x. reason \<in> reasons \<and> ended g w (reason = ''completed'') ?F x)
      (io_bind (finish_task si reason) (\<lambda>_. release_session))
      (\<lambda>_ y. \<exists>reason \<in> reasons. finished_with g w reason (False, i, br, pr, w, None) y) E" for reason E
  proof (cases "reason \<in> reasons")
    case True
    have "ends_in (ended g w (reason = ''completed'') ?F) (io_bind (finish_task si reason) (\<lambda>_. release_session))
        (\<lambda>_. finished_with g w reason (False, i, br, pr, w, None)) E"
      by (rule ends_in_bind [OF finish_ended [OF refl] release_finished [OF refl]])
    then show ?thesis by (rule ends_in_conseq) (use True in auto)
  qed (simp add: ends_in_def)
  show ?thesis
    unfolding run_task_def
    by (rule ends_in_bind [OF pos_await], rule ends_in_bind [OF run], rule ends_in_bind [OF inner],
        rule ends_in_bind [OF exit_reason_ended], rule fin)
qed

fun is_done :: "act \<Rightarrow> bool" where
  "is_done (Emitted j) = (get_str j ''kind'' = Some ''done'')"
| "is_done _ = False"

fun is_protocol :: "act \<Rightarrow> bool" where
  "is_protocol (Claimed c) = True"
| "is_protocol (Transition c s) = True"
| "is_protocol (Replied ok) = True"
| "is_protocol _ = False"

lemma milestone_split: "milestone a \<longleftrightarrow> is_done a \<or> is_protocol a" "is_done a \<Longrightarrow> \<not> is_protocol a"
  by (cases a; simp)+

lemma settled_protocol: "settled w b M \<or> unsettled M \<or> M = [] \<Longrightarrow> list_all is_protocol M"
  unfolding settled_def unsettled_def begun_def by (elim disjE exE conjE) simp_all

lemma protocol_filters:
  assumes "list_all is_protocol M"
  shows "filter is_done M = []" "filter is_protocol M = M"
  using assms milestone_split(2) by (auto simp: list_all_iff filter_empty_conv intro!: filter_True)

lemma filter_milestones:
  "filter is_done tr = filter is_done (filter milestone tr)"
  "filter is_protocol tr = filter is_protocol (filter milestone tr)"
  by (simp_all add: milestone_split(1) conj_commute cong: conj_cong)

lemma start_pos: "\<exists>r. pos [] (False, tk_task_id (x_task x), tk_branch (x_task x), tk_provider (x_task x),
    tk_thread_id (x_task x), r) (start_exec x)"
  by (simp add: pos_def view_defs start_exec_def)

lemma run_task_result:
  assumes "run_task si (start_exec x) = (r, y)"
  shows "case r of
      Inl f \<Rightarrow> f = Unwind \<and> \<not> tk_finished (x_task y)
        \<and> (\<exists>M. filter milestone (x_trace y) = M \<and> unsettled M)
    | Inr _ \<Rightarrow> tk_finished (x_task y) \<and> tk_finished_at (x_task y) \<noteq> None \<and> ts_running_task_id (x_session y) = None
        \<and> (\<exists>reason \<in> reasons. \<exists>M.
             filter milestone (x_trace y)
               = M @ [Emitted (with_provider (tk_provider (x_task x)) (done_event (tk_branch (x_task x)) reason))]
             \<and> (if cp_enabled (si_control_plane si) then settled (tk_thread_id (x_task x)) (reason = ''completed'') M
                else M = []))"
proof -
  obtain q where P: "pos [] (False, tk_task_id (x_task x), tk_branch (x_task x), tk_provider (x_task x),
      tk_thread_id (x_task x), q) (start_exec x)"
    using start_pos by blast
  note ends = run_task_ends [OF refl refl, of "tk_task_id (x_task x)" "tk_branch (x_task x)" "tk_provider (x_task x)"
      "tk_thread_id (x_task x)" q si, unfolded ends_in_def, rule_format, OF P, unfolded assms prod.case]
  show ?thesis
  proof (cases r)
    case (Inl f)
    with ends have "f = Unwind \<and> unwound (False, tk_task_id (x_task x), tk_branch (x_task x), tk_provider (x_task x),
        tk_thread_id (x_task x), Some (tk_task_id (x_task x))) y" by simp
    then show ?thesis unfolding Inl sum.case
      by (auto simp: unwound_def pos_def view_defs)
  next
    case (Inr u)
    with ends obtain reason where "reason \<in> reasons" and "finished_with (cp_enabled (si_control_plane si)) (tk_thread_id (x_task x)) reason
        (False, tk_task_id (x_task x), tk_branch (x_task x), tk_provider (x_task x), tk_thread_id (x_task x), None) y"
      by auto
    then obtain M where "filter milestone (x_trace y)
          = M @ [Emitted (with_provider (tk_provider (x_task x)) (done_event (tk_branch (x_task x)) reason))]"
        "tk_finished (x_task y)" "tk_finished_at (x_task y) \<noteq> None" "ts_running_task_id (x_session y) = None"
        "if cp_enabled (si_control_plane si) then settled (tk_thread_id (x_task x)) (reason = ''completed'') M else M = []"
      unfolding finished_with_def milestones_def fixed_part_def prod.case by blast
    with \<open>reason \<in> reasons\<close> show ?thesis unfolding Inr sum.case by blast
  qed
qed

lemma run_task_filters:
  assumes "run_task si (start_exec x) = (r, y)"
  shows "case r of
      Inl f \<Rightarrow> f = Unwind \<and> \<not> tk_finished (x_task y) \<and> filter is_done (x_trace y) = []
        \<and> unsettled (filter is_protocol (x_trace y))
    | Inr _ \<Rightarrow> tk_finished (x_task y) \<and> tk_finished_at (x_task y) \<noteq> None \<and> ts_running_task_id (x_session y) = None
        \<and> (\<exists>reason \<in> reasons. filter is_done (x_trace y) =
              [Emitted (with_provider (tk_provider (x_task x)) (done_event (tk_branch (x_task x)) reason))]
            \<and> (if cp_enabled (si_control_plane si)
               then settled (tk_thread_id (x_task x)) (reason = ''completed'') (filter is_protocol (x_trace y))
               else filter is_protocol (x_trace y) = []))"
proof -
  define L where "L = filter milestone (x_trace y)"
  have L: "filter is_done (x_trace y) = filter is_done L" "filter is_protocol (x_trace y) = filter is_protocol L"
    unfolding L_def by (rule filter_milestones)+
  have fil: "filter is_done M = []" "filter is_protocol M = M" if "settled w b M \<or> unsettled M \<or> M = []" for w b M
    using protocol_filters settled_protocol [OF that] by blast+
  note res = run_task_result [OF assms, folded L_def]
  show ?thesis
  proof (cases r)
    case (Inl f)
    then show ?thesis using res fil unfolding L by simp
  next
    case (Inr u)
    from res [unfolded Inr sum.case] obtain reason M where r: "reason \<in> reasons"
      and LM: "L = M @ [Emitted (with_provider (tk_provider (x_task x)) (done_event (tk_branch (x_task x)) reason))]"
      and M: "if cp_enabled (si_control_plane si) then settled (tk_thread_id (x_task x)) (reason = ''completed'') M else M = []"
      by blast
    have f: "filter is_done M = []" "filter is_protocol M = M"
      using fil [of "tk_thread_id (x_task x)" "reason = ''completed''" M] M by (auto split: if_splits)
    have "filter is_done (x_trace y) = [Emitted (with_provider (tk_provider (x_task x)) (done_event (tk_branch (x_task x)) reason))]"
      and "filter is_protocol (x_trace y) = M"
      unfolding L LM by (simp_all add: f)
    with res r M show ?thesis unfolding Inr sum.case by (metis (no_types, lifting))
  qed
qed

text \<open>C5: a run of a task always comes to its end, with exactly one done event, its last milestone:
  completed, cancelled or failed, on the task's branch, whatever fails on the way and whatever the
  agent prints; the task is then finished and its session free. The one exception is a panic inside
  a git call, which leaves the task unfinished and without a done event.\<close>

theorem run_ends_once:
  "case run_task si (start_exec x) of
     (Inl f, y) \<Rightarrow> f = Unwind \<and> \<not> tk_finished (x_task y) \<and> filter is_done (x_trace y) = []
   | (Inr _, y) \<Rightarrow>
       tk_finished (x_task y) \<and> tk_finished_at (x_task y) \<noteq> None \<and> ts_running_task_id (x_session y) = None
       \<and> (\<exists>reason \<in> {''completed'', ''cancelled'', ''failed''}. filter is_done (x_trace y) =
            [Emitted (with_provider (tk_provider (x_task x)) (done_event (tk_branch (x_task x)) reason))])"
proof (cases "run_task si (start_exec x)")
  case (Pair r y)
  note res = run_task_filters [OF Pair, unfolded reasons_def]
  show ?thesis
  proof (cases r)
    case (Inl f)
    show ?thesis using res unfolding Pair Inl prod.case sum.case by blast
  next
    case (Inr u)
    show ?thesis using res unfolding Pair Inr prod.case sum.case by blast
  qed
qed


end
