(* ===== verification/Orchestrator_Branch.thy ===== *)
theory Orchestrator_Branch
  imports Orchestrator_Outcome
begin

text \<open>
  The parent branch is off limits: a session whose branch is the base branch never becomes ready,
  and a task on it neither mutates anything nor claims its work item.
\<close>

section \<open>Git calls that only read\<close>

definition reads :: "string list \<Rightarrow> bool" where
  "reads args \<longleftrightarrow> args \<noteq> [] \<and> hd args \<notin> {''add'', ''commit'', ''push''}"

lemma keeps_lift_bind: "(\<And>y. r = Inr y \<Longrightarrow> keeps v (f y)) \<Longrightarrow> keeps v (io_bind (io_lift r) f)"
  by (cases r) (simp_all add: io_lift_def io_bind_def io_fail_def io_return_def keeps_def)

lemma reading_args:
  "fetch_args branch depth = Inr args \<Longrightarrow> reads args" "remote_branch_args branch = Inr args \<Longrightarrow> reads args"
  "reads current_branch_args" "reads workspace_status_args" "reads (switch_args branch source)"
  by (auto simp: reads_def current_branch_args_def workspace_status_args_def switch_args_def remote_branch_args_def
      res_bind_Inr_iff dest!: fetch_args_ok)

lemma git_reads_keep:
  assumes "\<And>args t. reads args \<Longrightarrow> keeps v (run ''git'' args t)"
  shows "keeps v (current_branch_with_cancel run)" "keeps v (current_branch run)" "keeps v (workspace_status run)"
    "keeps v (fetch_remote_branch run branch depth)" "keeps v (remote_branch_exists run branch)"
    "keeps v (io_map h (run ''git'' (switch_args branch source) t))"
  unfolding current_branch_with_cancel_def current_branch_def workspace_status_def fetch_remote_branch_def
    remote_branch_exists_def git_quick_def git_network_def
  by (intro keeps_lift_bind keeps_map keeps_catch assms reading_args; assumption?)+

section \<open>What a session on the base branch goes through\<close>

fun claims_success :: "act \<Rightarrow> bool" where
  "claims_success (Emitted j) = (get_str j ''exitReason'' = Some ''completed'')"
| "claims_success _ = False"

definition at_work :: "act \<Rightarrow> bool" where
  "at_work a \<longleftrightarrow> mutates a \<or> is_protocol a \<or> claims_success a"

lemma with_provider_reason [simp]: "get_str (with_provider p j) ''exitReason'' = get_str j ''exitReason''"
  by (cases j) (auto simp: with_provider_def get_str_def map_add_def split: option.splits)

lemma reasons_of_events [simp]:
  "get_str (status_event a b) ''exitReason'' = None" "get_str (stderr_event a) ''exitReason'' = None"
  "get_str (error_event a) ''exitReason'' = None" "get_str (agent_event e) ''exitReason'' = None"
  "get_str (done_event br r) ''exitReason'' = Some r"
  by (simp_all add: status_event_def stderr_event_def error_event_def done_event_def get_str_def)
    (cases e; simp add: stderr_event_def error_event_def)

definition stay :: "exec \<Rightarrow> string \<times> bool \<times> act list" where
  "stay x = (ts_branch (x_session x), ts_ready (x_session x), filter at_work (x_trace x))"

lemma stay_emit: "get_str ev ''exitReason'' \<noteq> Some ''completed'' \<Longrightarrow> stay (emit_now si ev x) = stay x"
  by (simp add: stay_def at_work_def)

lemma stay_emit_line: "stay (emit_line si line x) = stay x"
  unfolding emit_line_def by (cases line) (simp_all add: stay_emit del: agent_event.simps)

lemma stay_record: "\<not> at_work a \<Longrightarrow> stay (record_act a x) = stay x"
  by (simp add: stay_def)

lemma stay_update [simp]:
  "stay (x\<lparr>x_interrupts := i\<rparr>) = stay x" "stay (x\<lparr>x_task := t\<rparr>) = stay x" "stay (x\<lparr>x_lost := l\<rparr>) = stay x"
  "stay (x\<lparr>x_children := ch\<rparr>) = stay x" "stay (x\<lparr>x_clock := cl\<rparr>) = stay x"
  by (simp_all add: stay_def)

lemma stay_interrupt: "stay (handle_interrupt si x i) = stay x"
  by (cases i) (auto simp: cancel_request_def renew_tick_def late_line_def stay_emit stay_emit_line stay_record
      at_work_def split: option.splits sum.splits)

lemma stay_interrupts: "stay (foldl (handle_interrupt si) x is) = stay x"
  by (induction "is" arbitrary: x) (simp_all add: stay_interrupt)

lemma stay_await [keeps_rules]: "keeps stay (await si)"
  unfolding await_def next_interrupts_def by (rule keeps_do) (simp add: stay_interrupts)

lemma stay_preempt [keeps_rules]: "keeps stay (preempt si)"
  unfolding preempt_def next_interrupts_def by (rule keeps_do) (simp add: stay_interrupts)

lemma stay_emit_m [keeps_rules]: "get_str ev ''exitReason'' \<noteq> Some ''completed'' \<Longrightarrow> keeps stay (emit_m si ev)"
  unfolding emit_m_def by (rule keeps_do) (rule stay_emit)

lemma stay_ensure [keeps_rules]: "keeps stay (ensure_task_active si)"
  unfolding ensure_task_active_def by (intro keeps_rules)

lemma stay_cancel_check [keeps_rules]: "keeps stay (ensure_cancel_active si c)"
  unfolding ensure_cancel_active_def by (intro keeps_rules)

lemma stay_reading_child: "reads args \<Longrightarrow> keeps stay (run_child si c ''git'' args t)"
  unfolding run_child_def
  by (intro keeps_rules keeps_do) (auto simp: keeps_def Let_def stay_record at_work_def reads_def)

lemmas stay_git = git_reads_keep [where v = stay and run = "run_child si c" for si c, OF stay_reading_child]

lemma stay_source: "keeps stay (switch_source si c branch)"
  unfolding switch_source_def by (intro keeps_rules stay_git; assumption?)

lemma stay_current: "keeps stay (checked_out_branch si c)"
  unfolding checked_out_branch_def by (intro keeps_rules stay_git; assumption?)

lemma stay_switch: "keeps stay (switch_if_needed si c branch current source)"
  unfolding switch_if_needed_def by (intro keeps_rules stay_git; assumption?)

text \<open>Preparing such a session never succeeds.\<close>

definition parked :: "site \<Rightarrow> exec \<Rightarrow> bool" where
  "parked si x \<longleftrightarrow> stay x = (cfg_base_branch (si_config si), False, [])"

lemma parked_keeps: "keeps stay m \<Longrightarrow> ends_in (parked si) m (\<lambda>_. parked si) (\<lambda>_. parked si)"
  unfolding parked_def by (rule ends_in_keeps)

lemma parked_seq:
  "keeps stay m \<Longrightarrow> (\<And>v. ends_in (parked si) (f v) Q (\<lambda>_. parked si)) \<Longrightarrow>
     ends_in (parked si) (io_bind m f) Q (\<lambda>_. parked si)"
  by (rule ends_in_bind [OF parked_keeps])

lemma parked_prepare:
  assumes "\<not> cfg_skip_boot_git_sync (si_config si)"
  shows "ends_in (parked si) (prepare_session_workspace_inner si c) (\<lambda>_ _. False) (\<lambda>_. parked si)"
proof -
  have get: "ends_in (parked si) (io_bind (io_get x_session) k) (\<lambda>_ _. False) (\<lambda>_. parked si)"
    if "\<And>s. ts_branch s = cfg_base_branch (si_config si) \<Longrightarrow> \<not> ts_ready s \<Longrightarrow>
        ends_in (parked si) (k s) (\<lambda>_ _. False) (\<lambda>_. parked si)" for k :: "thread_session \<Rightarrow> unit act_m"
    using that by (auto simp: ends_in_def io_bind_def io_get_def parked_def stay_def)
  show ?thesis
    unfolding prepare_session_workspace_inner_def Let_def
    by (rule parked_seq [OF stay_await], rule get)
      (simp add: assms, intro parked_seq stay_cancel_check stay_git stay_source stay_current stay_switch, assumption?,
        simp_all add: ends_in_fail)
qed

lemma parked_inner:
  assumes "\<not> cfg_skip_boot_git_sync (si_config si)"
  shows "ends_in (parked si) (run_task_inner si) (\<lambda>_ _. False) (\<lambda>_. parked si)"
proof -
  have status: "keeps stay (emit_m si (status_event a b))" for a b by (rule stay_emit_m) simp
  show ?thesis
    unfolding run_task_inner_def
    by (rule parked_seq [OF stay_ensure], rule parked_seq [OF status], rule ends_in_bind [OF parked_prepare [OF assms]])
      (simp add: ends_in_def)
qed

lemma parked_finish: "reason \<noteq> ''completed'' \<Longrightarrow> keeps stay (finish_task si reason)"
  unfolding finish_task_def
  by (intro keeps_rules) (simp_all add: keeps_def io_do_def stay_def)

lemma parked_reason: "ends_in (parked si) (exit_reason si (Inl e)) (\<lambda>r x. parked si x \<and> r \<noteq> ''completed'') (\<lambda>_. parked si)"
proof -
  have err: "keeps stay (emit_m si (error_event e))" by (rule stay_emit_m) simp
  have "ends_in (parked si) (io_map (\<lambda>t. if tk_cancelled t then ''cancelled'' else ''failed'') (io_get x_task))
      (\<lambda>r x. parked si x \<and> r \<noteq> ''completed'') (\<lambda>_. parked si)"
    by (simp add: ends_in_def io_map_def io_bind_def io_get_def io_return_def)
  then show ?thesis
    unfolding exit_reason_def sum.case by (intro parked_seq [OF err] parked_seq [OF stay_preempt])
qed

lemma parked_run:
  assumes "\<not> cfg_skip_boot_git_sync (si_config si)"
  shows "ends_in (parked si) (run_task si) (\<lambda>_. parked si) (\<lambda>_. parked si)"
proof -
  have set: "keeps stay (io_do (\<lambda>x. set_running (r x) x))" for r
    by (rule keeps_do) (simp add: stay_def set_running_def)
  have rel: "keeps stay release_session"
    unfolding release_session_def by (rule keeps_do) (simp add: stay_def set_running_def)
  have failed: "ends_in (parked si) (attempt (run_task_inner si))
      (\<lambda>r x. parked si x \<and> (\<exists>e. r = Inl e)) (\<lambda>_. parked si)"
    by (rule ends_in_catch, rule ends_in_conseq [OF parked_inner [OF assms]]) (auto split: option.split)
  have reason: "ends_in (\<lambda>x. parked si x \<and> (\<exists>e. r = Inl e)) (exit_reason si r)
      (\<lambda>r x. parked si x \<and> r \<noteq> ''completed'') (\<lambda>_. parked si)" for r
    by (cases r) (use parked_reason in \<open>auto simp: ends_in_def\<close>)
  have finish: "ends_in (\<lambda>x. parked si x \<and> r \<noteq> ''completed'') (finish_task si r) (\<lambda>_. parked si) (\<lambda>_. parked si)" for r
    using parked_keeps [OF parked_finish] by (auto simp: ends_in_def)
  show ?thesis
    unfolding run_task_def
    by (rule parked_seq [OF stay_await], rule parked_seq [OF set], rule ends_in_bind [OF failed],
        rule ends_in_bind [OF reason], rule ends_in_bind [OF finish], rule parked_keeps [OF rel])
qed


section \<open>A ready session\<close>

text \<open>The checks are made once per session: a session that is ready starts without looking at the checkout,
  although sessions share it, and another one may have switched its branch since.\<close>

lemma ready_session_runs_unchecked:
  assumes "ts_ready (x_session x)"
  shows "prepare_session_workspace_inner si c x = (Inr (), snd (await si x))"
proof -
  obtain y where y: "await si x = (Inr (), y)" by (simp add: await_def io_do_def)
  then have "stay y = stay x" by (rule keepsD [OF stay_await])
  then have "ts_ready (x_session y)" using assms by (simp add: stay_def)
  then show ?thesis
    using y by (simp add: prepare_session_workspace_inner_def io_bind_def io_get_def io_return_def Let_def)
qed

end
