(* ===== verification/Orchestrator_Course.thy ===== *)
theory Orchestrator_Course
  imports Orchestrator_Outcome
begin

text \<open>
  The course of a governed run that nothing disturbs: the script of the commands it runs and the
  calls it makes, the states that are on that course, and how each primitive step stays on it.
\<close>

section \<open>The script of a run\<close>

text \<open>A git command of a run, and what its trimmed output has to satisfy for the run to take that course.\<close>

type_synonym expected = "string list \<times> (string \<Rightarrow> bool)"

definition done_by :: "string list \<Rightarrow> expected" where
  "done_by args = (args, \<lambda>_. True)"

definition fetch_line :: "string \<Rightarrow> string list" where
  "fetch_line branch =
     [''fetch'', ''--quiet'', ''--prune'', ''--depth='' @ digits 1, ''origin'',
      ''+refs/heads/'' @ branch @ '':refs/remotes/origin/'' @ branch]"

text \<open>Where the session branch comes from: is it on the remote already, and is another branch checked
  out in the shared workspace?\<close>

definition source_script :: "string \<Rightarrow> bool \<Rightarrow> expected list" where
  "source_script branch remote =
     ([''ls-remote'', ''--heads'', ''origin'', branch], \<lambda>out. (out \<noteq> []) = remote)
     # (if remote then [done_by (fetch_line branch)] else [])"

definition switch_script :: "string \<Rightarrow> string \<Rightarrow> bool \<Rightarrow> expected list" where
  "switch_script branch source elsewhere =
     (current_branch_args, \<lambda>out. (out \<noteq> branch) = elsewhere)
     # (if elsewhere then [(workspace_status_args, \<lambda>out. out = []), done_by (switch_args branch source)] else [])"

definition start_point :: "config \<Rightarrow> string \<Rightarrow> bool \<Rightarrow> string" where
  "start_point cfg branch remote = ''origin/'' @ (if remote then branch else cfg_base_branch cfg)"

definition identity_script :: "config \<Rightarrow> expected list" where
  "identity_script cfg = map done_by (identity_args (cfg_git_author_name cfg) (cfg_git_author_email cfg))"

definition prepare_script :: "config \<Rightarrow> thread_session \<Rightarrow> bool \<Rightarrow> bool \<Rightarrow> expected list" where
  "prepare_script cfg s remote elsewhere =
     (if ts_ready s then []
      else (if cfg_skip_boot_git_sync cfg then []
            else done_by (fetch_line (cfg_base_branch cfg)) # source_script (ts_branch s) remote
                 @ switch_script (ts_branch s) (start_point cfg (ts_branch s) remote) elsewhere)
           @ identity_script cfg)"

definition push_line :: "string \<Rightarrow> string list" where
  "push_line branch = [''push'', ''--no-verify'', ''--set-upstream'', ''origin'', branch]"

definition stage_script :: "bool \<Rightarrow> expected list" where
  "stage_script dirty = map done_by add_args @ [(workspace_status_args, \<lambda>out. (out \<noteq> []) = dirty)]"

definition push_script :: "string \<Rightarrow> string \<Rightarrow> bool \<Rightarrow> expected list" where
  "push_script prompt branch dirty =
     (if dirty then [done_by (commit_args (''agent: '' @ first_line prompt)), done_by (push_line branch)] else [])"

text \<open>What the control plane and the node are asked, and answer.\<close>

definition renewals :: "site \<Rightarrow> work_claim \<Rightarrow> bool \<Rightarrow> (cp_world \<Rightarrow> bool) list" where
  "renewals si c dirty = (if dirty then [\<lambda>w. renew_claim w (si_control_plane si) c = Inr ()] else [])"

definition call_script :: "site \<Rightarrow> string \<Rightarrow> work_claim \<Rightarrow> bool \<Rightarrow> (cp_world \<Rightarrow> bool) list" where
  "call_script si item c dirty =
     [\<lambda>w. claim_work w (si_control_plane si) item claim_lease_ttl_ms = Inr c,
      \<lambda>w. cp_transition w (si_control_plane si) c ''running'' = Inr ()]
     @ renewals si c dirty
     @ [\<lambda>w. cp_transition w (si_control_plane si) c ''awaiting_review'' = Inr ()]"

fun supplies :: "(nat \<Rightarrow> 'a) \<Rightarrow> ('a \<Rightarrow> bool) list \<Rightarrow> bool" where
  "supplies f [] = True"
| "supplies f (p # ps) = (p (f 0) \<and> supplies (\<lambda>n. f (Suc n)) ps)"

fun answers :: "site \<Rightarrow> expected \<Rightarrow> sh_end \<Rightarrow> bool" where
  "answers si (args, p) (Sh_Exited n (Read_To_End out) (Read_To_End err)) = (n = Some 0 \<and> p (trim (si_lossy si out)))"
| "answers si ex _ = False"

text \<open>Nothing cancels the task: no request does, and no renewal fails.\<close>

fun benign :: "site \<Rightarrow> work_claim \<Rightarrow> interrupt \<Rightarrow> bool" where
  "benign si c Cancel_Request = False"
| "benign si c (Renew_Tick w) = (renew_claim w (si_control_plane si) c = Inr ())"
| "benign si c (Late_Line line) = True"

fun performs :: "act \<Rightarrow> bool" where
  "performs (Command program args) = True"
| "performs (Agent_Started cmd) = True"
| "performs a = milestone a"

definition performed :: "expected list \<Rightarrow> act list" where
  "performed script = map (\<lambda>e. Command ''git'' (fst e)) script"

section \<open>On course\<close>

definition subject :: "exec \<Rightarrow> string \<times> string \<times> string \<times> agent_provider \<times> string option \<times> agent_script" where
  "subject x = (tk_task_id (x_task x), tk_prompt (x_task x), tk_branch (x_task x), tk_provider (x_task x),
     tk_thread_id (x_task x), x_agent x)"

definition on_course ::
  "site \<Rightarrow> work_claim \<Rightarrow> exec \<Rightarrow> expected list \<Rightarrow> (cp_world \<Rightarrow> bool) list \<Rightarrow> thread_session \<Rightarrow> act list \<Rightarrow> exec \<Rightarrow> bool" where
  "on_course si c z cs ws s L x \<longleftrightarrow>
     (\<forall>n. list_all (benign si c) (x_interrupts x n))
     \<and> \<not> tk_cancel (x_task x) \<and> \<not> tk_cancelled (x_task x) \<and> \<not> tk_finished (x_task x)
     \<and> subject x = subject z \<and> x_keep x \<in> {None, Some c} \<and> x_lost x = None \<and> x_session x = s
     \<and> supplies (x_children x) (map (answers si) cs) \<and> supplies (x_calls x) ws
     \<and> filter performs (x_trace x) = L"

lemmas course_defs = on_course_def subject_def

lemma emit_now_scripts [simp]:
  "x_interrupts (emit_now si ev x) = x_interrupts x" "x_children (emit_now si ev x) = x_children x"
  "x_calls (emit_now si ev x) = x_calls x"
  using emit_now_result [of si ev x] by (auto simp: record_act_def)

lemma record_simps [simp]:
  "x_interrupts (record_act a x) = x_interrupts x" "x_children (record_act a x) = x_children x"
  "x_calls (record_act a x) = x_calls x" "x_agent (record_act a x) = x_agent x"
  by (simp_all add: record_act_def)

lemma course_emit: "get_str ev ''kind'' \<noteq> Some ''done'' \<Longrightarrow>
    on_course si c z cs ws s L (emit_now si ev x) = on_course si c z cs ws s L x"
  by (simp add: course_defs)

lemma course_emit_line: "on_course si c z cs ws s L (emit_line si line x) = on_course si c z cs ws s L x"
  unfolding emit_line_def by (cases line) (simp_all add: course_emit del: agent_event.simps)

lemma course_silent: "\<not> performs a \<Longrightarrow> on_course si c z cs ws s L (record_act a x) = on_course si c z cs ws s L x"
  by (simp add: course_defs record_act_def)

lemma course_record: "on_course si c z cs ws s L x \<Longrightarrow> performs a \<Longrightarrow> on_course si c z cs ws s (L @ [a]) (record_act a x)"
  by (simp add: course_defs record_act_def)

lemma course_interrupt:
  assumes "on_course si c z cs ws s L x" "benign si c i"
  shows "on_course si c z cs ws s L (handle_interrupt si x i)"
proof (cases i)
  case (Renew_Tick w)
  then show ?thesis using assms
    by (auto simp: renew_tick_def course_defs record_act_def split: option.splits)
next
  case (Late_Line line)
  then show ?thesis using assms by (simp add: late_line_def course_emit_line)
qed (use assms in simp)

lemma course_interrupts:
  "on_course si c z cs ws s L x \<Longrightarrow> list_all (benign si c) is \<Longrightarrow>
     on_course si c z cs ws s L (foldl (handle_interrupt si) (x\<lparr>x_interrupts := (\<lambda>n. x_interrupts x (Suc n))\<rparr>) is)"
proof -
  have "on_course si c z cs ws s L y \<Longrightarrow> list_all (benign si c) is \<Longrightarrow> on_course si c z cs ws s L (foldl (handle_interrupt si) y is)" for y
    by (induction "is" arbitrary: y) (simp_all add: course_interrupt)
  moreover assume "on_course si c z cs ws s L x" "list_all (benign si c) is"
  ultimately show ?thesis by (simp add: course_defs)
qed

section \<open>Steps that stay on course\<close>

definition gentle :: "(fault \<Rightarrow> bool) \<Rightarrow> site \<Rightarrow> work_claim \<Rightarrow> exec \<Rightarrow> 'a act_m \<Rightarrow> bool" where
  "gentle F si c z m \<longleftrightarrow>
     (\<forall>cs ws s L. ends_in (on_course si c z cs ws s L) m (\<lambda>_. on_course si c z cs ws s L)
        (\<lambda>e x. F e \<and> on_course si c z cs ws s L x))"

named_theorems gentle_rules \<open>steps that keep a run on course\<close>

lemma gentle_return [gentle_rules]: "gentle F si c z (io_return v)"
  by (simp add: gentle_def ends_in_return)

lemma gentle_fail: "F e \<Longrightarrow> gentle F si c z (io_fail e)"
  by (simp add: gentle_def ends_in_fail)

lemma gentle_get [gentle_rules]: "gentle F si c z (io_get f)"
  by (simp add: gentle_def ends_in_get)

lemma gentle_do: "(\<And>cs ws s L x. on_course si c z cs ws s L x \<Longrightarrow> on_course si c z cs ws s L (f x)) \<Longrightarrow> gentle F si c z (io_do f)"
  by (simp add: gentle_def ends_in_do)

lemma gentle_bind [gentle_rules]: "gentle F si c z m \<Longrightarrow> (\<And>v. gentle F si c z (f v)) \<Longrightarrow> gentle F si c z (io_bind m f)"
  unfolding gentle_def by (blast intro: ends_in_bind)

lemma gentle_map [gentle_rules]: "gentle F si c z m \<Longrightarrow> gentle F si c z (io_map g m)"
  unfolding io_map_def by (intro gentle_rules)

lemma gentle_if [gentle_rules]: "gentle F si c z m \<Longrightarrow> gentle F si c z m' \<Longrightarrow> gentle F si c z (if b then m else m')"
  by simp

lemma gentle_option [gentle_rules]:
  "gentle F si c z m \<Longrightarrow> (\<And>v. gentle F si c z (f v)) \<Longrightarrow> gentle F si c z (case r of None \<Rightarrow> m | Some v \<Rightarrow> f v)"
  by (cases r) simp_all

lemma gentle_sum [gentle_rules]:
  "(\<And>e. gentle F si c z (m e)) \<Longrightarrow> (\<And>v. gentle F si c z (f v)) \<Longrightarrow> gentle F si c z (case r of Inl e \<Rightarrow> m e | Inr v \<Rightarrow> f v)"
  by (cases r) simp_all

lemma gentle_each [gentle_rules]: "(\<And>v. gentle F si c z (f v)) \<Longrightarrow> gentle F si c z (io_each f vs)"
  by (induction vs) (auto intro: gentle_rules)

lemma gentle_lift: "(\<And>e. F (Fail e)) \<Longrightarrow> gentle F si c z (io_lift r)"
  by (cases r) (simp_all add: io_lift_def gentle_fail gentle_return)

lemma gentle_attempt: "gentle (\<lambda>e. e \<noteq> Unwind) si c z m \<Longrightarrow> gentle F si c z (attempt m)"
  unfolding gentle_def
  by (intro allI ends_in_catch) (rule ends_in_conseq, blast, auto split: option.split elim: fault_error.elims)

lemma gentle_emit [gentle_rules]: "get_str ev ''kind'' \<noteq> Some ''done'' \<Longrightarrow> gentle F si c z (emit_m si ev)"
  unfolding emit_m_def by (rule gentle_do) (simp add: course_emit)

lemma gentle_record [gentle_rules]: "\<not> performs a \<Longrightarrow> gentle F si c z (io_do (record_act a))"
  by (rule gentle_do) (simp add: course_silent)

lemma gentle_await [gentle_rules]: "gentle F si c z (await si)"
  unfolding await_def next_interrupts_def prod.case
  by (rule gentle_do) (rule course_interrupts, auto simp: on_course_def)

lemma gentle_preempt [gentle_rules]: "gentle F si c z (preempt si)"
  unfolding preempt_def next_interrupts_def prod.case
  by (rule gentle_do) (rule course_interrupts, auto simp: on_course_def list_all_iff)

lemma course_not_cancelled: "on_course si c z cs ws s L x \<Longrightarrow> \<not> tk_cancel (x_task x)"
  by (simp add: on_course_def)

lemma gentle_check: "gentle F si c z (io_bind (io_get x_task) (\<lambda>t. if has \<and> tk_cancel t then io_fail e else io_return ()))"
  by (auto simp: gentle_def ends_in_def io_bind_def io_get_def io_return_def dest: course_not_cancelled)

lemma gentle_ensure [gentle_rules]: "gentle F si c z (ensure_task_active si)"
proof -
  have "gentle F si c z (io_bind (io_get x_task) (\<lambda>t. if tk_cancel t
      then io_fail (Fail (if tk_cancelled t then ''task cancelled by request''
                           else ''task cancelled after loss of work-item authority''))
       else io_return ()))"
    by (auto simp: gentle_def ends_in_def io_bind_def io_get_def io_return_def dest: course_not_cancelled)
  then show ?thesis unfolding ensure_task_active_def by (rule gentle_bind [OF gentle_preempt])
qed

lemma gentle_cancel_check [gentle_rules]: "gentle F si c z (ensure_cancel_active si has)"
  unfolding ensure_cancel_active_def by (rule gentle_bind [OF gentle_preempt gentle_check])

lemma gentle_file_call [gentle_rules]: "gentle F si c z (file_call si)"
proof -
  have "gentle F si c z (\<lambda>x. (Inr (x_files x 0), x\<lparr>x_files := (\<lambda>n. x_files x (Suc n))\<rparr>))"
    by (simp add: gentle_def ends_in_def course_defs)
  then show ?thesis unfolding file_call_def by (rule gentle_bind [OF gentle_await])
qed

lemma gentle_edit: "gentle F si c z (deterministic_edit si)"
proof -
  have append: "gentle (\<lambda>e. e \<noteq> Unwind) si c z (apply_deterministic_append si edit)" for edit
    unfolding apply_deterministic_append_def Let_def file_result_def
    by (intro gentle_rules gentle_lift) simp_all
  show ?thesis
    unfolding deterministic_edit_def by (intro gentle_rules gentle_attempt append) simp
qed

lemma gentle_publish: "gentle F si c z (publish_artifacts si)"
  unfolding publish_artifacts_def publish_output_def by (intro gentle_rules) simp_all

text \<open>A step that stays on course cannot fail, and is passed over.\<close>

abbreviation surely :: "(exec \<Rightarrow> bool) \<Rightarrow> 'a act_m \<Rightarrow> ('a \<Rightarrow> exec \<Rightarrow> bool) \<Rightarrow> bool" where
  "surely P m Q \<equiv> ends_in P m Q (\<lambda>_ _. False)"

lemma surely_gentle: "gentle (\<lambda>_. False) si c z m \<Longrightarrow> surely (on_course si c z cs ws s L) m (\<lambda>_. on_course si c z cs ws s L)"
  by (simp add: gentle_def)

lemma emit_course: "get_str ev ''kind'' \<noteq> Some ''done'' \<Longrightarrow>
    surely (on_course si c z cs ws s L) (emit_m si ev) (\<lambda>_. on_course si c z cs ws s L)"
  by (rule surely_gentle [OF gentle_emit])

lemma pass:
  "gentle (\<lambda>_. False) si c z m \<Longrightarrow> (\<And>v. surely (on_course si c z cs ws s L) (f v) Q) \<Longrightarrow>
     surely (on_course si c z cs ws s L) (io_bind m f) Q"
  by (rule ends_in_bind [OF surely_gentle])

lemma pass_attempt: "surely P m R \<Longrightarrow> (\<And>v. surely (R v) (f (Inr v)) Q) \<Longrightarrow> surely P (io_bind (attempt m) f) Q"
  by (fastforce simp: ends_in_def io_bind_def io_catch_def split: prod.splits sum.splits)

lemma surelyD: "surely P m Q \<Longrightarrow> P s \<Longrightarrow> case m s of (r, t) \<Rightarrow> \<exists>v. r = Inr v \<and> Q v t"
  by (cases "m s"; cases "fst (m s)") (auto simp: ends_in_def dest!: spec [of _ s])

lemma surely_value: "(b \<Longrightarrow> surely P m Q) \<Longrightarrow> surely (\<lambda>x. b \<and> P x) m Q"
  by (auto simp: ends_in_def)

lemma surely_map: "surely P m (\<lambda>v. Q (g v)) \<Longrightarrow> surely P (io_map g m) Q"
  unfolding io_map_def by (rule ends_in_bind, assumption) (rule ends_in_return)

section \<open>Commands and calls\<close>

lemma answers_iff: "answers si ex e \<longleftrightarrow>
    (\<exists>out err. e = Sh_Exited (Some 0) (Read_To_End out) (Read_To_End err) \<and> snd ex (trim (si_lossy si out)))"
  by (cases "(si, ex, e)" rule: answers.cases) auto

lemma child_course:
  "surely (on_course si c z ((args, p) # cs) ws s L) (run_child si b ''git'' args secs)
     (\<lambda>out x. p (trim out) \<and> on_course si c z cs ws s (L @ [Command ''git'' args]) x)"
proof -
  have start: "surely (on_course si c z ((args, p) # cs) ws s L) (io_do (record_act (Command ''git'' args)))
      (\<lambda>_. on_course si c z ((args, p) # cs) ws s (L @ [Command ''git'' args]))"
    by (rule ends_in_do) (simp add: course_record)
  have finish: "surely (on_course si c z ((args, p) # cs) ws s L')
      (\<lambda>x. let e = observed_end (b \<and> tk_cancel (x_task x)) (x_children x 0)
       in (lift_sh (sh_capture (si_lossy si) (si_show_secs si secs) ''git'' args e), x\<lparr>x_children := (\<lambda>n. x_children x (Suc n))\<rparr>))
      (\<lambda>out x. p (trim out) \<and> on_course si c z cs ws s L' x)" for L'
    by (auto simp: ends_in_def Let_def answers_iff course_defs sh_capture_def collect_output_def)
  show ?thesis
    unfolding run_child_def by (rule ends_in_bind [OF start], rule pass, rule gentle_rules, rule finish)
qed

lemma quick_course:
  "surely (on_course si c z ((args, p) # cs) ws s L) (git_quick (run_child si b) args)
     (\<lambda>out x. p (trim out) \<and> on_course si c z cs ws s (L @ [Command ''git'' args]) x)"
  unfolding git_quick_def by (rule child_course)

lemma network_course:
  "surely (on_course si c z ((args, p) # cs) ws s L) (git_network (run_child si b) args)
     (\<lambda>out x. p (trim out) \<and> on_course si c z cs ws s (L @ [Command ''git'' args]) x)"
  unfolding git_network_def by (rule child_course)

lemma done_course:
  "surely (on_course si c z (done_by args # cs) ws s L) (git_quick (run_child si b) args)
     (\<lambda>_. on_course si c z cs ws s (L @ performed [done_by args]))"
  "surely (on_course si c z (done_by args # cs) ws s L) (git_network (run_child si b) args)
     (\<lambda>_. on_course si c z cs ws s (L @ performed [done_by args]))"
  "surely (on_course si c z (done_by args # cs) ws s L) (run_child si b ''git'' args secs)
     (\<lambda>_. on_course si c z cs ws s (L @ performed [done_by args]))"
  unfolding done_by_def performed_def
  using quick_course [where p = "\<lambda>_. True"] network_course [where p = "\<lambda>_. True"] child_course [where p = "\<lambda>_. True"] by simp_all

lemma each_course:
  "surely (on_course si c z (map done_by argss @ cs) ws s L) (io_each (\<lambda>args. io_map (\<lambda>_. ()) (git_quick (run_child si b) args)) argss)
     (\<lambda>_. on_course si c z cs ws s (L @ performed (map done_by argss)))"
proof (induction argss arbitrary: L)
  case Nil
  show ?case by (simp add: ends_in_return performed_def)
next
  case (Cons args argss)
  have "surely (on_course si c z (done_by args # map done_by argss @ cs) ws s L)
      (io_map (\<lambda>_. ()) (git_quick (run_child si b) args)) (\<lambda>_. on_course si c z (map done_by argss @ cs) ws s (L @ performed [done_by args]))"
    by (rule surely_map) (rule done_course)
  then show ?case
    using ends_in_bind [OF _ Cons.IH [of "L @ performed [done_by args]"]] by (simp add: performed_def)
qed

lemma call_course:
  "surely (on_course si c z cs (q # ws) s L) next_call (\<lambda>w x. q w \<and> on_course si c z cs ws s L x)"
  by (auto simp: ends_in_def next_call_def course_defs)

lemma record_course: "performs a \<Longrightarrow>
    surely (on_course si c z cs ws s L) (io_do (record_act a)) (\<lambda>_. on_course si c z cs ws s (L @ [a]))"
  by (rule ends_in_do) (rule course_record)

lemma claim_course:
  "surely (on_course si c z cs ((\<lambda>w. claim_work w (si_control_plane si) item claim_lease_ttl_ms = Inr c) # ws) s L) (claim_m si item)
     (\<lambda>v x. v = c \<and> on_course si c z cs ws s (L @ [Claimed c]) x)"
proof -
  have answer: "surely (on_course si c z cs ws s L) (io_bind (io_lift (Inr c)) (\<lambda>claim.
      io_bind (io_do (record_act (Claimed claim))) (\<lambda>_. io_return claim))) (\<lambda>v x. v = c \<and> on_course si c z cs ws s (L @ [Claimed c]) x)"
    by (auto simp: ends_in_def io_lift_def io_bind_def io_return_def io_do_def course_record)
  show ?thesis
    unfolding claim_m_def
    by (rule pass, rule gentle_rules, rule ends_in_bind [OF call_course], rule surely_value) (simp add: answer)
qed

lemma transition_course:
  "surely (on_course si c z cs ((\<lambda>w. cp_transition w (si_control_plane si) c st = Inr ()) # ws) s L) (transition_m si c st)
     (\<lambda>_. on_course si c z cs ws s (L @ [Transition c st, Replied True]))"
proof -
  have answer: "surely (on_course si c z cs ws s (L @ [Transition c st]))
      (io_bind (io_do (record_act (Replied True))) (\<lambda>_. io_lift (Inr ()))) (\<lambda>_. on_course si c z cs ws s (L @ [Transition c st, Replied True]))"
    using course_record [of si c z cs ws s "L @ [Transition c st]" _ "Replied True"]
    by (auto simp: ends_in_def io_lift_def io_bind_def io_return_def io_do_def)
  show ?thesis
    unfolding transition_m_def Let_def
    by (rule ends_in_bind [OF record_course], simp, rule pass, rule gentle_rules, rule ends_in_bind [OF call_course], rule surely_value)
      (simp add: answer)
qed

lemma renew_course:
  "surely (on_course si c z cs ((\<lambda>w. renew_claim w (si_control_plane si) c = Inr ()) # ws) s L) (renew_m si c)
     (\<lambda>_. on_course si c z cs ws s L)"
proof -
  have answer: "gentle (\<lambda>_. False) si c z (io_bind (io_do (record_act (Renewed c True))) (\<lambda>_. io_lift (Inr ())))"
    unfolding io_lift_def by (simp, intro gentle_rules) simp
  show ?thesis
    unfolding renew_m_def Let_def
    by (rule pass, rule gentle_rules, rule ends_in_bind [OF call_course], rule surely_value) (simp add: surely_gentle [OF answer])
qed

end
