(* ===== verification/Orchestrator_Progress.thy ===== *)
theory Orchestrator_Progress
  imports Orchestrator_Course
begin

text \<open>
  Progress: a governed run that nobody cancels, whose lease is renewed each time and whose commands
  succeed comes to its end as completed, through exactly the commands and exchanges its checkout
  and its changes call for.
\<close>

section \<open>The stages\<close>

lemma ref_args:
  assumes "well_formed_ref branch"
  shows "fetch_args branch 1 = Inr (fetch_line branch)"
    "remote_branch_args branch = Inr [''ls-remote'', ''--heads'', ''origin'', branch]"
    "push_args branch = Inr (push_line branch)"
  using assms
  by (simp_all add: fetch_args_def remote_branch_args_def push_args_def fetch_line_def push_line_def assert_safe_branch_def
      invalid_branch_iff res_bind_simps)

lemma return_bind: "io_bind (io_return v) f = f v"
  by (rule ext) (simp add: io_bind_def io_return_def)

lemma lift_Inr [simp]: "io_bind (io_lift (Inr v)) f = f v"
  by (rule ext) (simp add: io_lift_def io_bind_def io_return_def)

lemma fetch_course:
  "well_formed_ref branch \<Longrightarrow> surely (on_course si c z (done_by (fetch_line branch) # cs) ws s L)
     (fetch_remote_branch (run_child si b) branch 1) (\<lambda>_. on_course si c z cs ws s (L @ performed [done_by (fetch_line branch)]))"
  unfolding fetch_remote_branch_def by (simp only: ref_args lift_Inr) (rule surely_map, rule done_course)

lemma push_course:
  "well_formed_ref branch \<Longrightarrow> surely (on_course si c z (done_by (push_line branch) # cs) ws s L)
     (push_branch (run_child si b) branch) (\<lambda>_. on_course si c z cs ws s (L @ performed [done_by (push_line branch)]))"
  unfolding push_branch_def by (simp only: ref_args lift_Inr) (rule surely_map, rule done_course)

lemma exists_course:
  "well_formed_ref branch \<Longrightarrow>
   surely (on_course si c z (([''ls-remote'', ''--heads'', ''origin'', branch], \<lambda>out. (out \<noteq> []) = remote) # cs) ws s L)
     (remote_branch_exists (run_child si b) branch)
     (\<lambda>r x. r = remote \<and> on_course si c z cs ws s (L @ [Command ''git'' [''ls-remote'', ''--heads'', ''origin'', branch]]) x)"
  unfolding remote_branch_exists_def by (simp only: ref_args lift_Inr) (rule surely_map, rule network_course)

lemma performed_simps [simp]:
  "performed [] = []" "performed (e # es) = Command ''git'' (fst e) # performed es" "performed (es @ es') = performed es @ performed es'"
  by (simp_all add: performed_def)

lemma source_course:
  assumes "well_formed_ref branch"
  shows "surely (on_course si c z (source_script branch remote @ cs) ws s L) (switch_source si b branch)
    (\<lambda>src x. src = start_point (si_config si) branch remote
       \<and> on_course si c z cs ws s (L @ performed (source_script branch remote)) x)"
proof -
  let ?ask = "([''ls-remote'', ''--heads'', ''origin'', branch], \<lambda>out. (out \<noteq> []) = remote)"
  have script: "source_script branch remote @ cs = ?ask # (if remote then [done_by (fetch_line branch)] else []) @ cs"
    by (simp add: source_script_def)
  show ?thesis
    unfolding switch_source_def script
  proof (rule pass_attempt [OF exists_course [OF assms]], rule surely_value, rule pass, rule gentle_rules)
    fix v :: bool and u :: unit assume v: "v = remote"
    let ?L = "L @ [Command ''git'' [''ls-remote'', ''--heads'', ''origin'', branch]]"
    show "surely (on_course si c z ((if remote then [done_by (fetch_line branch)] else []) @ cs) ws s ?L)
        (if (Inr v :: string + bool) = Inr True then
           io_bind (attempt (fetch_remote_branch (run_child si b) branch 1)) (\<lambda>_.
           io_bind (ensure_cancel_active si b) (\<lambda>_. io_return (''origin/'' @ branch)))
         else io_return (''origin/'' @ cfg_base_branch (si_config si)))
        (\<lambda>src x. src = start_point (si_config si) branch remote
         \<and> on_course si c z cs ws s (L @ performed (source_script branch remote)) x)"
    proof (cases remote)
      case True
      have "surely (on_course si c z (done_by (fetch_line branch) # cs) ws s ?L)
          (io_bind (attempt (fetch_remote_branch (run_child si b) branch 1)) (\<lambda>_.
           io_bind (ensure_cancel_active si b) (\<lambda>_. io_return (''origin/'' @ branch))))
          (\<lambda>src x. src = ''origin/'' @ branch \<and> on_course si c z cs ws s (?L @ performed [done_by (fetch_line branch)]) x)"
        by (rule pass_attempt [OF fetch_course [OF assms]], rule pass, rule gentle_rules, rule ends_in_return) simp
      with True show ?thesis by (simp add: v start_point_def source_script_def)
    qed (simp add: v start_point_def source_script_def ends_in_return)
  qed
qed

lemma set_ready_course:
  "surely (on_course si c z cs ws s L) set_ready (\<lambda>_. on_course si c z cs ws (s\<lparr>ts_ready := True\<rparr>) L)"
  unfolding set_ready_def by (rule ends_in_do) (simp add: course_defs)

lemma identity_course:
  "surely (on_course si c z (identity_script (si_config si) @ cs) ws s L) (identity_m si b)
     (\<lambda>_. on_course si c z cs ws s (L @ performed (identity_script (si_config si))))"
  unfolding identity_m_def configure_identity_def identity_script_def by (rule each_course)

definition switch_rest :: "string \<Rightarrow> string \<Rightarrow> bool \<Rightarrow> expected list" where
  "switch_rest branch src elsewhere =
     (if elsewhere then [(workspace_status_args, \<lambda>out. out = []), done_by (switch_args branch src)] else [])"

lemma switch_script_rest:
  "switch_script branch src elsewhere = (current_branch_args, \<lambda>out. (out \<noteq> branch) = elsewhere) # switch_rest branch src elsewhere"
  by (simp add: switch_script_def switch_rest_def)

lemma current_course:
  assumes "branch \<noteq> []"
  shows "surely (on_course si c z ((current_branch_args, \<lambda>out. (out \<noteq> branch) = elsewhere) # cs) ws s L) (checked_out_branch si True)
    (\<lambda>cur x. (cur \<noteq> Some branch) = elsewhere \<and> on_course si c z cs ws s (L @ [Command ''git'' current_branch_args]) x)"
  unfolding checked_out_branch_def current_branch_with_cancel_def if_True
  by (rule surely_map, rule ends_in_conseq [OF quick_course [where p = "\<lambda>out. (out \<noteq> branch) = elsewhere"]])
    (use assms in \<open>auto simp: nonempty_trimmed_def\<close>)

lemma move_course:
  assumes "(cur \<noteq> Some branch) = elsewhere"
  shows "surely (on_course si c z (switch_rest branch src elsewhere @ cs) ws s L) (switch_if_needed si True branch cur src)
    (\<lambda>_. on_course si c z cs ws s (L @ performed (switch_rest branch src elsewhere)))"
proof (cases elsewhere)
  case True
  have "surely (on_course si c z ((workspace_status_args, \<lambda>out. out = []) # done_by (switch_args branch src) # cs) ws s L)
    (switch_if_needed si True branch cur src)
    (\<lambda>_. on_course si c z cs ws s ((L @ [Command ''git'' workspace_status_args]) @ performed [done_by (switch_args branch src)]))"
    unfolding switch_if_needed_def workspace_status_def
    unfolding if_not_P [OF assms [unfolded eq_True [THEN iffD2, OF True], simplified]]
    by (rule ends_in_bind [OF quick_course], rule surely_value, simp only: simp_thms if_False, rule surely_map, rule done_course)
  with True show ?thesis by (simp add: switch_rest_def)
next
  case False
  with assms show ?thesis by (simp add: switch_if_needed_def switch_rest_def ends_in_return)
qed

lemma ready_course:
  assumes "L' = L @ performed (identity_script (si_config si))"
  shows "surely (on_course si c z (identity_script (si_config si) @ cs) ws s L)
     (io_bind (identity_m si True) (\<lambda>_. io_bind (ensure_cancel_active si True) (\<lambda>_. set_ready)))
     (\<lambda>_. on_course si c z cs ws (s\<lparr>ts_ready := True\<rparr>) L')"
  unfolding assms by (rule ends_in_bind [OF identity_course], rule pass, rule gentle_rules, rule set_ready_course)

lemma checkout_course:
  fixes base :: string and si :: site
  defines "base \<equiv> cfg_base_branch (si_config si)"
  assumes "well_formed_ref branch" "well_formed_ref base" and other: "branch \<noteq> base"
  shows "surely (on_course si c z (done_by (fetch_line base) # source_script branch remote
        @ switch_script branch (start_point (si_config si) branch remote) elsewhere @ identity_script (si_config si) @ cs) ws s L)
      (io_bind (fetch_remote_branch (run_child si True) base 1) (\<lambda>_.
       io_bind (ensure_cancel_active si True) (\<lambda>_.
       io_bind (switch_source si True branch) (\<lambda>source.
       io_bind (ensure_cancel_active si True) (\<lambda>_.
       io_bind (checked_out_branch si True) (\<lambda>current.
       io_bind (ensure_cancel_active si True) (\<lambda>_.
       io_bind (switch_if_needed si True branch current source) (\<lambda>_.
         if branch = base then io_fail e
         else
           io_bind (ensure_cancel_active si True) (\<lambda>_.
           io_bind (identity_m si True) (\<lambda>_.
           io_bind (ensure_cancel_active si True) (\<lambda>_. set_ready)))))))))))
      (\<lambda>_. on_course si c z cs ws (s\<lparr>ts_ready := True\<rparr>) (L @ performed (done_by (fetch_line base) # source_script branch remote
        @ switch_script branch (start_point (si_config si) branch remote) elsewhere @ identity_script (si_config si))))"
proof -
  have "branch \<noteq> []" using assms(2) by (auto simp: well_formed_ref_def branch_pattern_def)
  note seq = ends_in_bind [OF fetch_course [OF assms(3)]] ends_in_bind [OF source_course [OF assms(2)]]
    ends_in_bind [OF current_course [OF \<open>branch \<noteq> []\<close>]] ends_in_bind [OF move_course]
  show ?thesis
    unfolding if_not_P [OF other] switch_script_rest append_Cons
    by (rule seq(1), rule pass, rule gentle_rules, rule seq(2), rule surely_value, hypsubst, rule pass, rule gentle_rules,
        rule seq(3), rule surely_value, rule pass, rule gentle_rules, rule seq(4), assumption, rule pass, rule gentle_rules,
        rule ready_course) simp
qed

lemma prepare_course:
  assumes "well_formed_ref (ts_branch s)" "well_formed_ref (cfg_base_branch (si_config si))"
    "ts_branch s \<noteq> cfg_base_branch (si_config si)"
  shows "surely (on_course si c z (prepare_script (si_config si) s remote elsewhere @ cs) ws s L)
    (prepare_session_workspace_inner si True)
    (\<lambda>_. on_course si c z cs ws (s\<lparr>ts_ready := True\<rparr>) (L @ performed (prepare_script (si_config si) s remote elsewhere)))"
proof -
  have get: "surely (on_course si c z cs' ws s L) (io_bind (io_get x_session) k) Q"
    if "surely (on_course si c z cs' ws s L) (k s) Q" for cs' Q and k :: "thread_session \<Rightarrow> unit act_m"
    using that by (auto simp: ends_in_def io_bind_def io_get_def on_course_def)
  consider (ready) "ts_ready s" | (skipped) "\<not> ts_ready s" "cfg_skip_boot_git_sync (si_config si)"
    | (fresh) "\<not> ts_ready s" "\<not> cfg_skip_boot_git_sync (si_config si)" by blast
  then show ?thesis
  proof cases
    case ready
    then have same: "s\<lparr>ts_ready := True\<rparr> = s" by (cases s) simp
    show ?thesis
      unfolding prepare_session_workspace_inner_def Let_def prepare_script_def same
      by (intro pass [OF gentle_await] get) (simp add: ready ends_in_return)
  next
    case skipped
    then have script: "prepare_script (si_config si) s remote elsewhere = identity_script (si_config si)"
      by (simp add: prepare_script_def)
    show ?thesis
      unfolding prepare_session_workspace_inner_def Let_def script
      by (rule pass, rule gentle_rules, rule get, simp only: skipped if_True if_False, rule pass, rule gentle_rules, rule ready_course)
        simp
  next
    case fresh
    then have script: "prepare_script (si_config si) s remote elsewhere = done_by (fetch_line (cfg_base_branch (si_config si)))
        # source_script (ts_branch s) remote @ switch_script (ts_branch s) (start_point (si_config si) (ts_branch s) remote) elsewhere
        @ identity_script (si_config si)"
      by (simp add: prepare_script_def)
    have course: "surely (on_course si c z (prepare_script (si_config si) s remote elsewhere @ cs) ws s L) m Q"
      if "surely (on_course si c z (done_by (fetch_line (cfg_base_branch (si_config si)))
        # source_script (ts_branch s) remote @ switch_script (ts_branch s) (start_point (si_config si) (ts_branch s) remote) elsewhere
        @ identity_script (si_config si) @ cs) ws s L) m Q" for m :: "unit act_m" and Q
      using that by (simp add: script)
    show ?thesis
      unfolding prepare_session_workspace_inner_def Let_def
      by (rule pass, rule gentle_rules, rule get, simp only: fresh if_False, rule pass, rule gentle_rules, rule course)
        (simp only: script, rule checkout_course [OF assms])
  qed
qed

section \<open>The agent and its changes\<close>

definition agent_command :: "site \<Rightarrow> task_state \<Rightarrow> thread_session \<Rightarrow> command" where
  "agent_command si t s =
     cli_command (for_provider (si_environ si) (tk_provider t)) (tk_prompt t) (ts_workspace_path s)
       (build_agent_env (si_environ si) (tk_provider t))"

lemma get_course:
  "(\<And>x. on_course si c z cs ws s L x \<Longrightarrow> surely (on_course si c z cs ws s L) (k (f x)) Q) \<Longrightarrow>
     surely (on_course si c z cs ws s L) (io_bind (io_get f) k) Q"
  by (auto simp: ends_in_def io_bind_def io_get_def)

lemma agent_course:
  assumes "as_spawn_error (x_agent z) = None" "as_end (x_agent z) = Exited 0"
  shows "surely (on_course si c z cs ws s L) (run_agent si)
    (\<lambda>_. on_course si c z cs ws s (L @ [Agent_Started (agent_command si (x_task z) s)]))"
proof -
  let ?L = "L @ [Agent_Started (agent_command si (x_task z) s)]"
  have lines: "gentle (\<lambda>_. False) si c z (io_each (\<lambda>line. io_bind (await si) (\<lambda>_. io_do (emit_line si line))) ls)" for ls
    by (intro gentle_rules gentle_do) (simp add: course_emit_line)
  have readers: "gentle (\<lambda>_. False) si c z (io_do (\<lambda>x. x\<lparr>x_readers := r\<rparr>))" for r
    by (rule gentle_do) (simp add: course_defs)
  have rest: "surely (on_course si c z cs ws s ?L)
      (io_bind (io_each (\<lambda>line. io_bind (await si) (\<lambda>_. io_do (emit_line si line))) (as_lines (x_agent z))) (\<lambda>_.
       io_bind (await si) (\<lambda>_.
       io_bind (io_get (\<lambda>x. observed_child_end (tk_cancel (x_task x)) (as_end (x_agent z)))) (\<lambda>e.
       io_bind (io_do (\<lambda>x. x\<lparr>x_readers := readers_left e\<rparr>)) (\<lambda>_.
         io_lift (child_result program limit e))))))
      (\<lambda>_. on_course si c z cs ws s ?L)" for program limit
    by (rule pass [OF lines], rule pass [OF gentle_await], rule get_course, rule pass [OF readers])
      (simp add: assms io_lift_def ends_in_return)
  show ?thesis
    unfolding run_agent_def Let_def
  proof (rule get_course, simp only: prod.case)
    fix x assume on: "on_course si c z cs ws s L x"
    then have "agent_command si (x_task x) (x_session x) = agent_command si (x_task z) s" "x_agent x = x_agent z"
      by (simp_all add: course_defs agent_command_def)
    then show "surely (on_course si c z cs ws s L)
      (io_bind (io_do (record_act (Agent_Started (cli_command (for_provider (si_environ si) (tk_provider (x_task x)))
          (tk_prompt (x_task x)) (ts_workspace_path (x_session x)) (build_agent_env (si_environ si) (tk_provider (x_task x)))))))
        (\<lambda>_. case as_spawn_error (x_agent x) of
           Some e \<Rightarrow> io_fail (Fail (''failed to spawn '' @ cr_program (for_provider (si_environ si) (tk_provider (x_task x))) @ '': '' @ e))
         | None \<Rightarrow>
       io_bind (io_each (\<lambda>line. io_bind (await si) (\<lambda>_. io_do (emit_line si line))) (as_lines (x_agent x))) (\<lambda>_.
       io_bind (await si) (\<lambda>_.
       io_bind (io_get (\<lambda>xa. observed_child_end (tk_cancel (x_task xa)) (as_end (x_agent x)))) (\<lambda>e.
       io_bind (io_do (\<lambda>x. x\<lparr>x_readers := readers_left e\<rparr>)) (\<lambda>_.
         io_lift (child_result (cr_program (for_provider (si_environ si) (tk_provider (x_task x)))) (si_show_limit si) e)))))))
      (\<lambda>_. on_course si c z cs ws s ?L)"
      unfolding agent_command_def [symmetric]
      by (simp only: assms(1) option.case) (rule ends_in_bind [OF record_course rest], simp)
  qed
qed

lemma push_changes_course:
  assumes "well_formed_ref (tk_branch (x_task z))"
  shows "surely (on_course si c z (push_script (tk_prompt (x_task z)) (tk_branch (x_task z)) True @ cs)
      ((\<lambda>w. renew_claim w (si_control_plane si) c = Inr ()) # ws) s L) (commit_and_push si (Some c))
    (\<lambda>_. on_course si c z cs ws s (L @ performed (push_script (tk_prompt (x_task z)) (tk_branch (x_task z)) True)))"
  unfolding commit_and_push_def
proof (rule get_course)
  fix x assume on: "on_course si c z (push_script (tk_prompt (x_task z)) (tk_branch (x_task z)) True @ cs)
      ((\<lambda>w. renew_claim w (si_control_plane si) c = Inr ()) # ws) s L x"
  then have t: "tk_prompt (x_task x) = tk_prompt (x_task z)" "tk_branch (x_task x) = tk_branch (x_task z)"
    by (simp_all add: course_defs)
  let ?commit = "done_by (commit_args (''agent: '' @ first_line (tk_prompt (x_task z))))"
  let ?push = "done_by (push_line (tk_branch (x_task z)))"
  have commit: "surely (on_course si c z (?commit # cs') ws' s L) (git_commit (run_child si True) (''agent: '' @ first_line (tk_prompt (x_task z))))
      (\<lambda>_. on_course si c z cs' ws' s (L @ performed [?commit]))" for cs' ws'
    unfolding git_commit_def by (rule surely_map) (rule done_course)
  have script: "push_script (tk_prompt (x_task z)) (tk_branch (x_task z)) True @ cs = ?commit # ?push # cs"
      "L @ performed (push_script (tk_prompt (x_task z)) (tk_branch (x_task z)) True) = (L @ performed [?commit]) @ performed [?push]"
    by (simp_all add: push_script_def)
  show "surely (on_course si c z (push_script (tk_prompt (x_task z)) (tk_branch (x_task z)) True @ cs)
      ((\<lambda>w. renew_claim w (si_control_plane si) c = Inr ()) # ws) s L)
     (io_bind (ensure_task_active si) (\<lambda>_.
     io_bind (git_commit (run_child si True) (''agent: '' @ first_line (tk_prompt (x_task x)))) (\<lambda>_.
     io_bind (ensure_task_active si) (\<lambda>_.
     io_bind (case Some c of None \<Rightarrow> io_return () | Some c \<Rightarrow> renew_m si c) (\<lambda>_.
     io_bind (ensure_task_active si) (\<lambda>_.
     io_bind (push_branch (run_child si True) (tk_branch (x_task x))) (\<lambda>_.
       emit_m si (status_event ''pushed'' (''Pushed '' @ tk_branch (x_task x))))))))))
    (\<lambda>_. on_course si c z cs ws s (L @ performed (push_script (tk_prompt (x_task z)) (tk_branch (x_task z)) True)))"
    unfolding t script option.case
    by (rule pass [OF gentle_ensure], rule ends_in_bind [OF commit], rule pass [OF gentle_ensure],
        rule ends_in_bind [OF renew_course], rule pass [OF gentle_ensure], rule ends_in_bind [OF push_course [OF assms]],
        rule emit_course) simp
qed

lemma stage_course:
  assumes "well_formed_ref (tk_branch (x_task z))"
  shows "surely (on_course si c z (stage_script dirty @ push_script (tk_prompt (x_task z)) (tk_branch (x_task z)) dirty @ cs)
      (renewals si c dirty @ ws) s L) (stage_and_push si (Some c))
    (\<lambda>_. on_course si c z cs ws s
       (L @ performed (stage_script dirty @ push_script (tk_prompt (x_task z)) (tk_branch (x_task z)) dirty)))"
proof -
  let ?push = "push_script (tk_prompt (x_task z)) (tk_branch (x_task z)) dirty"
  have add: "surely (on_course si c z (map done_by add_args @ cs') ws' s L) (add_workspace_changes (run_child si True))
      (\<lambda>_. on_course si c z cs' ws' s (L @ performed (map done_by add_args)))" for cs' ws'
    unfolding add_workspace_changes_def by (rule each_course)
  have rest: "surely (on_course si c z (?push @ cs) (renewals si c dirty @ ws) s L')
      (if trim out \<noteq> [] then commit_and_push si (Some c) else emit_m si (status_event a b)) (\<lambda>_. on_course si c z cs ws s (L' @ performed ?push))"
    if "(trim out \<noteq> []) = dirty" for out a b L'
  proof (cases dirty)
    case True
    with that push_changes_course [OF assms] show ?thesis by (simp add: renewals_def del: performed_simps)
  next
    case False
    with that show ?thesis by (simp add: renewals_def push_script_def emit_course)
  qed
  have script: "stage_script dirty @ ?push @ cs = map done_by add_args @ (workspace_status_args, \<lambda>out. (out \<noteq> []) = dirty) # ?push @ cs"
    "L @ performed (stage_script dirty @ ?push) = ((L @ performed (map done_by add_args)) @ [Command ''git'' workspace_status_args]) @ performed ?push"
    by (simp_all add: stage_script_def)
  show ?thesis
    unfolding stage_and_push_def workspace_status_def script
    by (rule pass [OF gentle_ensure], rule ends_in_bind [OF add], rule pass [OF gentle_ensure], rule ends_in_bind [OF quick_course],
        rule surely_value) (rule rest)
qed

section \<open>The run\<close>

text \<open>What the run does once its work item runs: the agent, then the script of its changes.\<close>

definition work_script :: "task_state \<Rightarrow> bool \<Rightarrow> expected list" where
  "work_script t dirty = stage_script dirty @ push_script (tk_prompt t) (tk_branch t) dirty"

lemma lifecycle_course:
  assumes "well_formed_ref (tk_branch (x_task z))" "as_spawn_error (x_agent z) = None" "as_end (x_agent z) = Exited 0"
  shows "surely (on_course si c z (work_script (x_task z) dirty @ cs) (renewals si c dirty @ ws) s L)
    (run_task_lifecycle si (Some c))
    (\<lambda>_. on_course si c z cs ws s
       ((L @ [Agent_Started (agent_command si (x_task z) s)]) @ performed (work_script (x_task z) dirty)))"
  unfolding run_task_lifecycle_def work_script_def append_assoc [of "stage_script dirty" _ cs]
  by (rule pass [OF gentle_ensure], rule pass [OF gentle_edit], rule pass [OF gentle_ensure], rule pass [OF gentle_emit], simp,
      rule ends_in_bind [OF agent_course [OF assms(2,3)]], rule pass [OF gentle_ensure],
      rule ends_in_bind [OF stage_course [OF assms(1)]], rule pass [OF gentle_ensure])
    (rule surely_gentle [OF gentle_publish])

lemma claimed_course:
  assumes "well_formed_ref (tk_branch (x_task z))" "as_spawn_error (x_agent z) = None" "as_end (x_agent z) = Exited 0"
  shows "surely (on_course si c z (work_script (x_task z) dirty)
      (renewals si c dirty @ [\<lambda>w. cp_transition w (si_control_plane si) c ''awaiting_review'' = Inr ()]) s L)
    (run_claimed_lifecycle si c)
    (\<lambda>_. on_course si c z [] [] s (((L @ [Agent_Started (agent_command si (x_task z) s)])
       @ performed (work_script (x_task z) dirty)) @ [Transition c ''awaiting_review'', Replied True]))"
proof -
  let ?L = "(L @ [Agent_Started (agent_command si (x_task z) s)]) @ performed (work_script (x_task z) dirty)"
  let ?L' = "?L @ [Transition c ''awaiting_review'', Replied True]"
  let ?ws = "[\<lambda>w. cp_transition w (si_control_plane si) c ''awaiting_review'' = Inr ()]"
  have keep: "gentle (\<lambda>_. False) si c z (io_do (\<lambda>x. x\<lparr>x_keep := Some c, x_lost := None\<rparr>))"
    "gentle (\<lambda>_. False) si c z (io_do (\<lambda>x. x\<lparr>x_keep := None\<rparr>))"
    by (rule gentle_do; simp add: course_defs)+
  have report: "surely (on_course si c z [] ?ws s ?L) (report_end si c (Inr u) ''awaiting_review'') (\<lambda>_. on_course si c z [] [] s ?L')" for u
    unfolding report_end_def by (rule pass_attempt [OF transition_course]) (simp add: ends_in_return)
  have execution: "surely (on_course si c z (work_script (x_task z) dirty) (renewals si c dirty @ ?ws) s L) (claimed_execution si c)
      (\<lambda>_. on_course si c z [] [] s ?L')"
    unfolding claimed_execution_def
    by (rule pass_attempt [OF lifecycle_course [OF assms, where cs = "[]", unfolded append_Nil2]], rule pass [OF gentle_preempt], rule get_course)
      (auto simp: on_course_def claimed_terminal_status_def simp del: append_assoc intro!: report)
  have last: "surely (on_course si c z [] [] s ?L') (io_bind (io_get x_lost) (\<lambda>lost.
     io_bind (io_do (\<lambda>x. x\<lparr>x_keep := None\<rparr>)) (\<lambda>_.
       case lost of
         None \<Rightarrow> io_lift (Inr v)
       | Some e \<Rightarrow> f e))) (\<lambda>_. on_course si c z [] [] s ?L')" for v f
  proof (rule get_course, rule pass [OF keep(2)])
    fix x u assume "on_course si c z [] [] s ?L' x"
    then have "x_lost x = None" by (simp add: on_course_def)
    then show "surely (on_course si c z [] [] s ?L') (case x_lost x of None \<Rightarrow> io_lift (Inr v) | Some e \<Rightarrow> f e) (\<lambda>_. on_course si c z [] [] s ?L')"
      by (simp add: io_lift_def ends_in_return)
  qed
  show ?thesis
    unfolding run_claimed_lifecycle_def by (rule pass [OF keep(1)], rule pass_attempt [OF execution], rule last)
qed

definition governed_course :: "site \<Rightarrow> work_claim \<Rightarrow> task_state \<Rightarrow> thread_session \<Rightarrow> expected list \<Rightarrow> bool \<Rightarrow> act list" where
  "governed_course si c t s prepare dirty =
     performed prepare
     @ [Claimed c, Transition c ''running'', Replied True, Agent_Started (agent_command si t s)]
     @ performed (work_script t dirty)
     @ [Transition c ''awaiting_review'', Replied True]"

lemma inner_course:
  assumes task: "well_formed_ref (tk_branch (x_task z))" "as_spawn_error (x_agent z) = None" "as_end (x_agent z) = Exited 0"
    and session: "well_formed_ref (ts_branch s)" "well_formed_ref (cfg_base_branch (si_config si))"
      "ts_branch s \<noteq> cfg_base_branch (si_config si)"
    and governed: "cp_enabled (si_control_plane si)" "tk_thread_id (x_task z) = Some item"
  shows "surely (on_course si c z (prepare_script (si_config si) s remote elsewhere @ work_script (x_task z) dirty)
      (call_script si item c dirty) s []) (run_task_inner si)
    (\<lambda>_. on_course si c z [] [] (s\<lparr>ts_ready := True\<rparr>)
       (governed_course si c (x_task z) s (prepare_script (si_config si) s remote elsewhere) dirty))"
proof -
  let ?s = "s\<lparr>ts_ready := True\<rparr>" and ?prepare = "prepare_script (si_config si) s remote elsewhere"
  let ?goal = "on_course si c z [] [] ?s (governed_course si c (x_task z) s ?prepare dirty)"
  have trace: "governed_course si c (x_task z) s ?prepare dirty =
      (((((performed ?prepare @ [Claimed c]) @ [Transition c ''running'', Replied True])
        @ [Agent_Started (agent_command si (x_task z) ?s)]) @ performed (work_script (x_task z) dirty))
        @ [Transition c ''awaiting_review'', Replied True])"
    by (simp add: governed_course_def agent_command_def)
  have calls: "call_script si item c dirty
      = (\<lambda>w. claim_work w (si_control_plane si) item claim_lease_ttl_ms = Inr c) # tl (call_script si item c dirty)"
    "tl (call_script si item c dirty) = (\<lambda>w. cp_transition w (si_control_plane si) c ''running'' = Inr ())
       # renewals si c dirty @ [\<lambda>w. cp_transition w (si_control_plane si) c ''awaiting_review'' = Inr ()]"
    by (simp_all add: call_script_def)
  have start: "surely (on_course si c z (work_script (x_task z) dirty) (tl (call_script si item c dirty)) ?s (performed ?prepare @ [Claimed c]))
      (with_claim si c) (\<lambda>_. ?goal)"
    unfolding with_claim_def
  proof (rule pass_attempt [OF surely_gentle [OF gentle_ensure]])
    show "surely (on_course si c z (work_script (x_task z) dirty) (tl (call_script si item c dirty)) ?s (performed ?prepare @ [Claimed c]))
        (case Inr v of Inl e \<Rightarrow> abandon_claim si c e | Inr _ \<Rightarrow> start_claimed si c) (\<lambda>_. ?goal)" for v :: unit
      unfolding sum.case start_claimed_def calls(2) trace
      by (rule ends_in_bind [OF transition_course], rule pass [OF gentle_emit], simp, rule claimed_course [OF task])
  qed
  have claimed: "surely (on_course si c z (work_script (x_task z) dirty) (call_script si item c dirty) ?s (performed ?prepare))
      (run_claimed si) (\<lambda>_. ?goal)"
    unfolding run_claimed_def
  proof (rule get_course)
    fix x assume "on_course si c z (work_script (x_task z) dirty) (call_script si item c dirty) ?s (performed ?prepare) x"
    then have "tk_thread_id (x_task x) = Some item" using governed by (simp add: course_defs)
    then show "surely (on_course si c z (work_script (x_task z) dirty) (call_script si item c dirty) ?s (performed ?prepare))
       (case tk_thread_id (x_task x) of
         None \<Rightarrow> io_fail (Fail ''control-plane governance requires a backing work-item id'')
       | Some work_item_id \<Rightarrow> io_bind (claim_m si work_item_id) (with_claim si)) (\<lambda>_. ?goal)"
      by (simp only: option.case) (subst calls(1), rule ends_in_bind [OF claim_course], rule surely_value, simp only:, rule start)
  qed
  show ?thesis
    unfolding run_task_inner_def if_P [OF governed(1)]
    by (rule pass [OF gentle_ensure], rule pass [OF gentle_emit], simp, rule ends_in_bind [OF prepare_course [OF session]],
        unfold append_Nil, rule pass [OF gentle_ensure], rule claimed)
qed

text \<open>A run that nothing disturbs.\<close>

definition undisturbed :: "site \<Rightarrow> work_claim \<Rightarrow> exec \<Rightarrow> bool" where
  "undisturbed si c x \<longleftrightarrow>
     (\<forall>n. list_all (benign si c) (x_interrupts x n)) \<and> \<not> tk_cancel (x_task x) \<and> \<not> tk_cancelled (x_task x)
     \<and> as_spawn_error (x_agent x) = None \<and> as_end (x_agent x) = Exited 0"

definition branches_usable :: "config \<Rightarrow> exec \<Rightarrow> bool" where
  "branches_usable cfg x \<longleftrightarrow>
     well_formed_ref (tk_branch (x_task x)) \<and> well_formed_ref (ts_branch (x_session x))
     \<and> well_formed_ref (cfg_base_branch cfg) \<and> ts_branch (x_session x) \<noteq> cfg_base_branch cfg"

lemma finish_course:
  "surely (on_course si c z [] [] s L) (finish_task si reason)
     (\<lambda>_ y. filter performs (x_trace y) = L @ [Emitted (with_provider (tk_provider (x_task z)) (done_event (tk_branch (x_task z)) reason))]
        \<and> tk_finished (x_task y) \<and> x_session y = s)"
  unfolding finish_task_def
proof (rule pass [OF gentle_preempt], rule get_course)
  fix x assume on: "on_course si c z [] [] s L x"
  then have t: "\<not> is_finished (x_task x)" "tk_branch (x_task x) = tk_branch (x_task z)"
    by (simp_all add: course_defs is_finished_def)
  show "surely (on_course si c z [] [] s L) (if is_finished (x_task x) then io_return () else
       io_bind (io_do (\<lambda>x. x\<lparr>x_task := (x_task x)\<lparr>tk_finished := True, tk_finished_at := Some (fst (x_clock x 0))\<rparr>,
                              x_clock := (\<lambda>n. x_clock x (Suc n))\<rparr>)) (\<lambda>_. emit_m si (done_event (tk_branch (x_task x)) reason)))
     (\<lambda>_ y. filter performs (x_trace y) = L @ [Emitted (with_provider (tk_provider (x_task z)) (done_event (tk_branch (x_task z)) reason))]
        \<and> tk_finished (x_task y) \<and> x_session y = s)"
    unfolding if_not_P [OF t(1)] t(2)
    by (auto simp: ends_in_def io_bind_def io_do_def emit_m_def course_defs)
qed

text \<open>C6: a governed run that nothing disturbs gets its work done. If no cancellation arrives and each
  renewal is granted, whatever the agent prints, whether or not the prompt asks for an edit, and
  whatever becomes of its artifacts, then the run returns with its task finished and its session
  ready, and what it did is exactly this, in this order: the commands that prepare the checkout
  (none for a ready session, the identity only where the boot sync is skipped, else fetch, look up,
  switch if need be, identity), the claim, the running status, the agent, the staging, a commit and
  a push of the task's branch if there are changes, the accepted review status, and completion.\<close>

theorem undisturbed_run_completes:
  assumes "cp_enabled (si_control_plane si)" and "tk_thread_id (x_task x) = Some item"
    and "undisturbed si c x" and "branches_usable (si_config si) x"
    and "supplies (x_children x) (map (answers si) (prepare_script (si_config si) (x_session x) remote elsewhere
           @ work_script (x_task x) dirty))"
    and "supplies (x_calls x) (call_script si item c dirty)"
  shows "case run_task si (start_exec x) of (r, y) \<Rightarrow>
    r = Inr () \<and> tk_finished (x_task y) \<and> ts_ready (x_session y)
    \<and> filter performs (x_trace y) =
        governed_course si c (x_task x) (x_session x) (prepare_script (si_config si) (x_session x) remote elsewhere) dirty
        @ [Emitted (with_provider (tk_provider (x_task x)) (done_event (tk_branch (x_task x)) ''completed''))]"
proof -
  let ?s = "x_session x" and ?prepare = "prepare_script (si_config si) (x_session x) remote elsewhere"
  let ?r = "?s\<lparr>ts_running_task_id := Some (tk_task_id (x_task x))\<rparr>"
  let ?L = "governed_course si c (x_task x) ?s ?prepare dirty"
  have same: "prepare_script (si_config si) ?r remote elsewhere = ?prepare"
    "agent_command si (x_task x) ?r = agent_command si (x_task x) ?s"
    by (simp_all add: prepare_script_def agent_command_def)
  have on: "on_course si c x (?prepare @ work_script (x_task x) dirty) (call_script si item c dirty) ?s [] (start_exec x)"
    using assms by (simp add: course_defs start_exec_def undisturbed_def)
  have set: "surely (on_course si c x cs ws ?s []) (io_do (\<lambda>x. set_running (Some (tk_task_id (x_task x))) x))
      (\<lambda>_. on_course si c x cs ws ?r [])" for cs ws
    by (rule ends_in_do) (auto simp: course_defs set_running_def)
  have inner: "surely (on_course si c x (?prepare @ work_script (x_task x) dirty) (call_script si item c dirty) ?r [])
      (run_task_inner si) (\<lambda>_. on_course si c x [] [] (?r\<lparr>ts_ready := True\<rparr>) ?L)"
    using inner_course [of x ?r si item c remote elsewhere dirty] assms
    by (simp add: undisturbed_def branches_usable_def same governed_course_def)
  have release: "surely (\<lambda>y. T y \<and> tk_finished (x_task y) \<and> x_session y = ?r\<lparr>ts_ready := True\<rparr>) release_session
      (\<lambda>_ y. T y \<and> tk_finished (x_task y) \<and> ts_ready (x_session y))"
    if "\<And>y s. T (y\<lparr>x_session := s\<rparr>) = T y" for T
    unfolding release_session_def by (rule ends_in_do) (simp add: that set_running_def)
  have "surely (on_course si c x (?prepare @ work_script (x_task x) dirty) (call_script si item c dirty) ?s []) (run_task si)
      (\<lambda>_ y. filter performs (x_trace y) = ?L @ [Emitted (with_provider (tk_provider (x_task x)) (done_event (tk_branch (x_task x)) ''completed''))]
        \<and> tk_finished (x_task y) \<and> ts_ready (x_session y))"
    unfolding run_task_def
    by (rule pass [OF gentle_await], rule ends_in_bind [OF set], rule pass_attempt [OF inner],
        simp only: exit_reason_def sum.case return_bind)
      (rule ends_in_bind, rule finish_course, rule release, simp)
  from surelyD [OF this on] show ?thesis by (auto split: prod.splits)
qed

text \<open>A concrete run: a fresh session on a new branch, changes to commit, a lease renewed at every await.\<close>

definition calm_world :: cp_world where
  "calm_world =
     \<lparr>w_send = (\<lambda>_. Inr \<lparr>rs_status = 200, rs_body = Inr ''ok''\<rparr>),
      w_renew = (\<lambda>_ _ agent token _. Inr (JObject [(''result'', JObject [(''output'', JObject
        [(''renewed'', JBool True), (''leadership'', JObject [(''leader'', JString agent), (''fencing_token'', JInt (uint token))])])])])),
      w_from_slice = (\<lambda>_. Inr (JObject [(''fencing_token'', JInt 7)])),
      w_is_uuid = (\<lambda>_. True), w_show_status = (\<lambda>_. ''200'')\<rparr>"

definition calm_client :: control_plane where
  "calm_client =
     \<lparr>cp_governance_mode = Governed, cp_base = Some ''http://cp'', cp_http = bounded_http_client,
      cp_internal_secret = Some ''s'', cp_instance_id = ''i'', cp_agent_id = Some ''a'',
      cp_node = Some (internal_node_client ''http://n'' ''k'' ''o'')\<rparr>"

definition calm_claim :: work_claim where
  "calm_claim = \<lparr>wc_work_item_id = ''item'', wc_fencing_token = 7\<rparr>"

definition calm_site :: site where
  "calm_site =
     \<lparr>si_config = (from_env ''tasks'' (\<lambda>_. None))\<lparr>cfg_base_branch := ''dev'', cfg_skip_boot_git_sync := False\<rparr>,
      si_control_plane = calm_client, si_environ = (\<lambda>_. None), si_clean = id, si_lossy = id, si_show_secs = (\<lambda>_. ''60s''),
      si_show_limit = ''1h'', si_parse_line = (\<lambda>_. None),
      si_engine = \<lparr>rx_matches = (\<lambda>_ t. ([], t)), rx_captures = (\<lambda>_ _. None)\<rparr>\<rparr>"

definition calm_exec :: exec where
  "calm_exec =
     \<lparr>x_task = \<lparr>tk_task_id = ''t'', tk_prompt = ''fix it'', tk_user_id = None, tk_thread_id = Some ''item'',
        tk_provider = ClaudeCli, tk_branch = ''agent/x'', tk_worktree_path = ''/w'', tk_session = ''item'', tk_cancel = False,
        tk_seq = 0, tk_finished = False, tk_cancelled = False, tk_finished_at = None\<rparr>,
      x_session = \<lparr>ts_session_id = ''item'', ts_user_id = None, ts_workspace_path = ''/w'', ts_branch = ''agent/x'',
        ts_ready = False, ts_task_ids = [''t''], ts_queued_task_ids = [], ts_running_task_id = None\<rparr>,
      x_bus = event_bus_new None None ''/logs'' ''events'', x_trace = [], x_keep = None, x_lost = None, x_readers = False,
      x_interrupts = (\<lambda>_. [Renew_Tick calm_world]),
      x_children = (\<lambda>n. Sh_Exited (Some 0) (Read_To_End (if n = 9 then ''M'' else [])) (Read_To_End [])),
      x_calls = (\<lambda>_. calm_world), x_files = (\<lambda>_. Inl ''absent''), x_clock = (\<lambda>n. (int n, ''now'')),
      x_agent = \<lparr>as_spawn_error = None, as_lines = [], as_end = Exited 0\<rparr>, x_outputs = None\<rparr>"

lemma calm_calls:
  "claim_work calm_world calm_client ''item'' ttl = Inr calm_claim"
  "cp_transition calm_world calm_client calm_claim status = Inr ()"
  "renew_claim calm_world calm_client calm_claim = Inr ()"
  by (simp_all add: claim_work_def cp_transition_def renew_claim_def require_agent_def checked_json_def map_err_def
      claimed_fencing_token_def get_u64_def json_get_def as_u64_def is_success_def renewal_response_iff json_at_def
      calm_world_def calm_client_def calm_claim_def)

lemma calm_refs: "well_formed_ref ''agent/x''" "well_formed_ref ''dev''"
  by code_simp+

theorem undisturbed_run_completes_witness:
  "fst (run_task calm_site (start_exec calm_exec)) = Inr ()
   \<and> Command ''git'' [''push'', ''--no-verify'', ''--set-upstream'', ''origin'', ''agent/x'']
       \<in> set (x_trace (snd (run_task calm_site (start_exec calm_exec))))"
proof -
  have trim_M: "trim ''M'' = ''M''" by (rule trim_visible) (simp add: code_def is_ascii_def)
  have children: "supplies (x_children calm_exec) (map (answers calm_site)
      (prepare_script (si_config calm_site) (x_session calm_exec) False True @ work_script (x_task calm_exec) True))"
    by (simp add: calm_exec_def calm_site_def prepare_script_def source_script_def switch_script_def identity_script_def identity_args_def
        work_script_def stage_script_def push_script_def add_args_def done_by_def trim_M)
  have calls: "supplies (x_calls calm_exec) (call_script calm_site ''item'' calm_claim True)"
    by (simp add: calm_exec_def calm_site_def call_script_def renewals_def calm_calls)
  have "cp_enabled calm_client" by (simp add: cp_enabled_def calm_client_def)
  then have rest: "cp_enabled (si_control_plane calm_site)" "tk_thread_id (x_task calm_exec) = Some ''item''"
    "undisturbed calm_site calm_claim calm_exec" "branches_usable (si_config calm_site) calm_exec"
    by (simp_all add: calm_exec_def calm_site_def undisturbed_def branches_usable_def calm_refs calm_calls)
  have push: "Command ''git'' [''push'', ''--no-verify'', ''--set-upstream'', ''origin'', ''agent/x'']
      \<in> set (governed_course calm_site calm_claim (x_task calm_exec) (x_session calm_exec) p True)" for p
    by (simp add: governed_course_def work_script_def push_script_def push_line_def done_by_def calm_exec_def)
  have member: "filter performs tr = l @ m \<Longrightarrow> a \<in> set l \<Longrightarrow> a \<in> set tr" for tr l m a
    by (metis UnI1 filter_is_subset set_append subsetD)
  note run = undisturbed_run_completes [OF rest children calls, unfolded case_prod_beta]
  show ?thesis using run member [OF conjunct2 [OF conjunct2 [OF conjunct2 [OF run]]] push] by (simp only: simp_thms)
qed

end
