(* ===== verification/Renewal_Timing.thy ===== *)
theory Renewal_Timing
  imports ControlPlane
begin

text \<open>
  The renewal loop of \<open>run_claimed_lifecycle\<close> (src/src/orchestrator.rs) in time, in milliseconds: when it
  asks for a renewal, when it has its verdict, and that a lost lease is noticed before it expires.
  How long a request takes is an argument; the client's timeouts bound it.
\<close>

text \<open>\<open>interval\<close> with \<open>MissedTickBehavior::Delay\<close>: the next tick is one period after the last one, or at once
  when the renewal took longer than that. The first tick, immediate, is consumed before the loop.\<close>

definition next_renewal :: "nat \<Rightarrow> nat \<Rightarrow> nat" where
  "next_renewal tick duration = max (tick + unat claim_renew_interval_ms) (tick + duration)"

fun renewal_at :: "nat \<Rightarrow> (nat \<Rightarrow> nat) \<Rightarrow> nat \<Rightarrow> nat" where
  "renewal_at start duration 0 = start + unat claim_renew_interval_ms"
| "renewal_at start duration (Suc n) = next_renewal (renewal_at start duration n) (duration n)"

definition verdict_at :: "nat \<Rightarrow> (nat \<Rightarrow> nat) \<Rightarrow> nat \<Rightarrow> nat" where
  "verdict_at start duration n = renewal_at start duration n + duration n"

lemmas renewal_eval = claim_renew_interval_ms_def claim_lease_ttl_ms_def node_fencing_request_timeout_ms_def
  control_plane_request_timeout_ms_def

lemma renewals_on_time:
  "duration n \<le> unat claim_renew_interval_ms \<Longrightarrow>
     renewal_at start duration (Suc n) = renewal_at start duration n + unat claim_renew_interval_ms"
  by (simp add: next_renewal_def)

lemma client_timeouts:
  assumes "control_plane_new mode b s nu ns org inst = Inr cp"
  shows "hc_request_timeout_ms (cp_http cp) = control_plane_request_timeout_ms
    \<and> (case cp_node cp of None \<Rightarrow> True | Some node \<Rightarrow> nc_request_timeout_ms node = Some node_fencing_request_timeout_ms)"
proof -
  have "cp_http cp = bounded_http_client
    \<and> cp_node cp = (case (normalized nu, normalized ns, normalized (Some (trim org))) of
        (Some url, Some secret, Some org) \<Rightarrow> Some (internal_node_client url secret org) | _ \<Rightarrow> None)"
    using assms by (auto simp: control_plane_new_def Let_def res_bind_Inr_iff)
  then show ?thesis by (auto simp: bounded_http_client_def internal_node_client_def split: option.splits)
qed

text \<open>C16: a lost lease is noticed while it still holds. For a client as the worker builds it, whose requests
  end within their timeouts: the verdict of the first renewal is there no later than the lease of the
  accepted running transition expires, at worst granted one request timeout before its answer, and
  the verdict of each later renewal ten seconds before the lease of the renewal before it expires,
  which was granted no earlier than it was asked for.\<close>

theorem lost_lease_noticed_in_time:
  assumes "control_plane_new mode b s nu ns org inst = Inr cp" and "cp_node cp = Some node"
    and "\<forall>n. duration n \<le> the (nc_request_timeout_ms node)"
    and "start \<le> running_granted + hc_request_timeout_ms (cp_http cp)"
    and "\<forall>n. renewal_at start duration n \<le> granted n"
  shows "verdict_at start duration 0 \<le> running_granted + unat claim_lease_ttl_ms
    \<and> (\<forall>n. verdict_at start duration (Suc n) + 10000 \<le> granted n + unat claim_lease_ttl_ms)"
proof -
  have timeout: "nc_request_timeout_ms node = Some 10000" "hc_request_timeout_ms (cp_http cp) = 10000"
    using client_timeouts [OF assms(1)] assms(2) by (simp_all add: renewal_eval)
  have d: "duration n \<le> 10000" for n using assms(3) timeout by simp
  have "verdict_at start duration (Suc n) + 10000 \<le> granted n + 30000" for n
    using d [of n] d [of "Suc n"] spec [OF assms(5), of n]
    by (simp add: verdict_at_def renewals_on_time renewal_eval del: renewal_at.simps(2))
  moreover have "verdict_at start duration 0 \<le> running_granted + 30000"
    using d [of 0] assms(4) timeout(2) by (simp add: verdict_at_def renewal_eval)
  ultimately show ?thesis by (simp add: renewal_eval)
qed

theorem lost_lease_noticed_in_time_witness:
  "verdict_at 10000 (\<lambda>_. 10000) 0 \<le> 0 + unat claim_lease_ttl_ms"
proof -
  let ?new = "control_plane_new Governed (Some ''http://cp'') (Some ''s'') (Some ''http://n'') (Some ''k'') ''org'' ''i''"
  have "case ?new of Inl _ \<Rightarrow> False | Inr cp \<Rightarrow> (case cp_node cp of None \<Rightarrow> False | Some _ \<Rightarrow> True)"
    by code_simp
  then obtain cp node where new: "?new = Inr cp" and node: "cp_node cp = Some node"
    by (auto split: sum.splits option.splits)
  have "nc_request_timeout_ms node = Some 10000" "hc_request_timeout_ms (cp_http cp) = 10000"
    using client_timeouts [OF new] node by (simp_all add: renewal_eval)
  then show ?thesis
    using lost_lease_noticed_in_time [OF new node, of "\<lambda>_. 10000" 10000 0 "renewal_at 10000 (\<lambda>_. 10000)"] by simp
qed

end
