(* ===== verification/Append_Path.thy ===== *)
theory Append_Path
  imports Orchestrator
begin

text \<open>
  Where the deterministic edit may write: the path it was given is checked component by component, and
  what passes stays below the workspace and out of the generated directories.
\<close>

section \<open>The pieces of a cleaned path\<close>

definition idle_part :: "string \<Rightarrow> bool" where
  "idle_part q \<longleftrightarrow> q = [] \<or> q = ''.''"

definition kept_parts :: "string \<Rightarrow> string list" where
  "kept_parts p = rev (dropWhile idle_part (rev (dropWhile idle_part (split_on is_sep p))))"

lemma relative_text_parts: "relative_text p = join ''/'' (kept_parts p)"
  by (simp add: relative_text_def kept_parts_def idle_part_def [abs_def] Let_def)

lemma set_dropWhile: "x \<in> set (dropWhile P xs) \<Longrightarrow> x \<in> set xs"
  by (induction xs) (auto split: if_splits)

lemma kept_parts_subset: "set (kept_parts p) \<subseteq> set (split_on is_sep p)"
  by (auto simp: kept_parts_def dest!: set_dropWhile)

lemma hd_rev_dropWhile: "xs \<noteq> [] \<Longrightarrow> \<not> P (hd xs) \<Longrightarrow> hd (rev (dropWhile P (rev xs))) = hd xs"
  by (cases xs) (simp_all add: dropWhile_append)

lemma kept_parts_hd: "kept_parts p \<noteq> [] \<Longrightarrow> \<not> idle_part (hd (kept_parts p))"
proof -
  let ?xs = "dropWhile idle_part (split_on is_sep p)"
  assume "kept_parts p \<noteq> []"
  then have "?xs \<noteq> []" unfolding kept_parts_def by (rule contrapos_nn) (simp only: rev.simps dropWhile.simps)
  then have "\<not> idle_part (hd ?xs)" by (rule hd_dropWhile)
  then have "hd (kept_parts p) = hd ?xs" unfolding kept_parts_def by (rule hd_rev_dropWhile [OF \<open>?xs \<noteq> []\<close>])
  with \<open>\<not> idle_part (hd ?xs)\<close> show ?thesis by simp
qed

lemma relative_text_split:
  "split_on is_sep (relative_text p) = (if kept_parts p = [] then [[]] else kept_parts p)"
proof (cases "kept_parts p = []")
  case False
  have "\<forall>x \<in> set (kept_parts p). \<forall>c \<in> set x. \<not> is_sep c"
    using kept_parts_subset split_on_no_sep by blast
  with False show ?thesis
    unfolding relative_text_parts by (simp add: split_on_join is_sep_def)
qed (simp add: relative_text_parts)

lemma relative_text_relative: "\<not> is_absolute (relative_text p)"
proof
  assume "is_absolute (relative_text p)"
  then obtain r where "relative_text p = CHR ''/'' # r" by (cases "relative_text p") (auto simp: is_absolute_def is_sep_def)
  then have "hd (split_on is_sep (relative_text p)) = [] \<and> tl (split_on is_sep (relative_text p)) \<noteq> []"
    by (simp add: is_sep_def)
  with kept_parts_hd [of p] show False
    unfolding relative_text_split by (auto simp: idle_part_def split: if_splits)
qed

lemma split_on_set: "c \<in> set s \<Longrightarrow> P c \<or> (\<exists>q \<in> set (split_on P s). c \<in> set q)"
proof (induction s)
  case (Cons d s)
  obtain q qs where "split_on P s = q # qs" by (meson neq_Nil_conv split_on_ne)
  with Cons show ?case by auto
qed simp

lemma relative_text_chars: "c \<in> set (relative_text p) \<Longrightarrow> is_sep c \<or> c \<in> set p"
proof -
  assume "c \<in> set (relative_text p)"
  then have "is_sep c \<or> (\<exists>q \<in> set (split_on is_sep (relative_text p)). c \<in> set q)" by (rule split_on_set)
  then show ?thesis
    unfolding relative_text_split using kept_parts_subset split_on_pieces by (fastforce split: if_splits)
qed

section \<open>What passes the check\<close>

lemma replace_char_absent: "d \<notin> set s \<Longrightarrow> replace_char d r s = s"
  unfolding replace_char_def by (induction s) auto

lemma trim_set: "set (trim s) \<subseteq> set s"
proof -
  have part: "set (concat cs) \<subseteq> set t" if "set cs \<subseteq> set (utf8_chars t)" for cs t
    using that by (subst (2) concat_utf8_chars [symmetric], unfold set_concat) blast
  have "set (trim_start t) \<subseteq> set t" "set (trim_end t) \<subseteq> set t" for t
    unfolding trim_start_def trim_end_def by (rule part; auto dest!: set_dropWhile)+
  then show ?thesis unfolding trim_def by blast
qed

lemma trim_matches_suffix: "suffix (trim_start_matches pat s) s"
proof (induction pat s rule: trim_start_matches.induct)
  case (1 pat s)
  then show ?case
    by (subst trim_start_matches.simps) (auto split: option.splits simp: strip_prefix_Some suffix_append)
qed

lemma accepted:
  assumes "safe_repo_relative raw = Inr rel"
  obtains p where "rel = replace_char CHR 0x5C ''/'' (relative_text p)" and "set p \<subseteq> set raw"
    and "CHR 0x00 \<notin> set p" and "List.map_filter (refused_component raw) (components p) = []"
proof -
  define p where "p = trim_end_chars (set '').,;:'') (trim_start_matches ''./'' (trim raw))"
  have "set p \<subseteq> set (trim_start_matches ''./'' (trim raw))"
    unfolding p_def trim_end_chars_def by (auto dest!: set_dropWhile)
  also have "\<dots> \<subseteq> set (trim raw)" by (rule suffix_set [OF trim_matches_suffix])
  also have "\<dots> \<subseteq> set raw" by (rule trim_set)
  finally have "set p \<subseteq> set raw" .
  moreover have "CHR 0x00 \<notin> set p \<and> List.map_filter (refused_component raw) (components p) = []
      \<and> rel = replace_char CHR 0x5C ''/'' (relative_text p)"
    using assms unfolding safe_repo_relative_def p_def [symmetric] Let_def
    by (simp split: if_splits list.splits)
  ultimately show thesis using that by blast
qed

lemma no_refused: "List.map_filter f xs = [] \<longleftrightarrow> (\<forall>x \<in> set xs. f x = None)"
  by (induction xs) (auto simp: map_filter_simps split: option.splits)

lemma refused_none: "refused_component raw cmp = None \<longleftrightarrow>
    cmp \<noteq> ParentDir \<and> (\<forall>q. cmp = Normal q \<longrightarrow> q \<notin> set blocked_names)"
  by (cases cmp) auto

text \<open>C23: a path the deterministic edit accepts, written without backslashes, is relative, contains no NUL,
  and no component of it is the parent directory or one of the generated directories, .git among
  them; joined to the workspace it is the workspace's path followed by it.\<close>

theorem append_stays_in_repo:
  assumes "safe_repo_relative raw = Inr rel" and "CHR 0x5C \<notin> set raw"
  shows "\<not> is_absolute rel \<and> CHR 0x00 \<notin> set rel
    \<and> set (split_on is_sep rel) \<inter> set (''..'' # blocked_names) = {}
    \<and> (path_join ws rel = ws @ rel \<or> path_join ws rel = ws @ ''/'' @ rel)"
proof -
  obtain p where rel: "rel = replace_char CHR 0x5C ''/'' (relative_text p)" and p: "set p \<subseteq> set raw" "CHR 0x00 \<notin> set p"
    and ok: "\<forall>cmp \<in> set (components p). refused_component raw cmp = None"
    using accepted [OF assms(1)] unfolding no_refused by blast
  have "CHR 0x5C \<notin> set (relative_text p)"
    using relative_text_chars [of "CHR 0x5C" p] p(1) assms(2) by (auto simp: is_sep_def)
  then have r: "rel = relative_text p" using rel by (simp add: replace_char_absent)
  have "CHR 0x00 \<notin> set rel" unfolding r using relative_text_chars [of "CHR 0x00" p] p(2) by (auto simp: is_sep_def)
  moreover have "q \<notin> set (''..'' # blocked_names)" if "q \<in> set (split_on is_sep rel)" for q
  proof (cases "q = []")
    case True
    then show ?thesis by (simp add: blocked_names_def)
  next
    case False
    then have q: "q \<in> set (split_on is_sep p)"
      using that kept_parts_subset unfolding r relative_text_split by (auto split: if_splits)
    have up: "ParentDir \<notin> set (components p)" using ok by (auto simp: refused_none)
    then have "q \<noteq> ''..''" using q by (auto simp: parent_in_components)
    moreover have "q \<notin> set blocked_names"
    proof
      assume b: "q \<in> set blocked_names"
      then have "q \<noteq> ''.''" by (auto simp: blocked_names_def)
      then have "Normal q \<in> set (components p)" using q False \<open>q \<noteq> ''..''\<close> by (simp add: normal_in_components)
      with ok b show False by (auto simp: refused_none)
    qed
    ultimately show ?thesis by simp
  qed
  moreover have "\<not> is_absolute rel" unfolding r by (rule relative_text_relative)
  ultimately show ?thesis by (auto simp: path_join_def)
qed

theorem append_stays_in_repo_witness:
  "safe_repo_relative ''./docs/a.md'' = Inr ''docs/a.md''
   \<and> (path_join ''/w'' ''docs/a.md'' = ''/w/docs/a.md'') \<and> ''..'' \<notin> set (split_on is_sep ''docs/a.md'')"
proof -
  have a: "safe_repo_relative ''./docs/a.md'' = Inr ''docs/a.md''" by code_simp
  have "CHR 0x5C \<notin> set ''./docs/a.md''" by simp
  from append_stays_in_repo [OF a this, of "''/w''"] show ?thesis
    using a by (simp add: path_join_def is_absolute_def is_sep_def)
qed

text \<open>With a backslash the check is made on other components than those of the result: the replacement
  comes after it.\<close>

lemma backslash_escapes_check:
  "safe_repo_relative (''a'' @ [CHR 0x5C] @ ''..'' @ [CHR 0x5C] @ ''b'') = Inr ''a/../b''"
  by code_simp

text \<open>The edit is an append only where the file can be read as UTF-8: a file that exists and cannot be read
  is replaced by the appended text.\<close>

lemma unreadable_file_is_replaced:
  fixes x :: exec
  defines "target rel \<equiv> path_join (ts_workspace_path (x_session x)) rel"
  assumes "x_interrupts x = (\<lambda>_. [])" and "\<not> tk_cancel (x_task x)"
    and "safe_repo_relative (af_relative_path edit) = Inr rel" and "path_parent (target rel) = Some d"
    and "x_files x 0 = Inr []" and "x_files x 1 = Inl e"
  shows "Wrote (target rel) (appended_contents [] (af_text edit)) \<in> set (x_trace (snd (apply_deterministic_append si edit x)))"
proof -
  have calm: "await si y = (Inr (), y)" "preempt si y = (Inr (), y)" if "x_interrupts y = (\<lambda>_. [])" for y
    using that by (simp_all add: await_def preempt_def next_interrupts_def io_do_def)
  have active: "ensure_task_active si y = (Inr (), y)" if "x_interrupts y = (\<lambda>_. [])" "\<not> tk_cancel (x_task y)" for y
    using that by (simp add: ensure_task_active_def io_bind_def calm io_get_def io_return_def)
  have emits: "x_trace (emit_now si ev y) = x_trace y @ [Emitted (with_provider (tk_provider (x_task y)) ev)]" for ev y
    by (simp add: emit_now_def Let_def record_act_def split: prod.split)
  show ?thesis
    using assms
    by (simp add: emits io_fail_def apply_deterministic_append_def io_bind_def active io_get_def io_lift_def io_return_def io_do_def record_act_def
        file_call_def calm io_map_def file_result_def Let_def emit_m_def split: prod.split sum.split)
qed

end
