(* ===== verification/ThreadOps.thy ===== *)
theory ThreadOps
  imports State GitOps Json
begin

text \<open>
  The explicit thread actions of src/src/thread_ops.rs: merging the base branch, committing and pushing
  the workspace, opening a draft pull request. They run their commands through a runner without a
  cancellation token.
\<close>

definition assert_branch_m :: "string \<Rightarrow> ('s, fault, unit) action" where
  "assert_branch_m branch = io_lift (assert_safe_branch branch ''session branch'')"

definition merge_args :: "string \<Rightarrow> string list" where
  "merge_args base = [''merge'', ''--no-edit'', ''origin/'' @ base]"

definition merge_upstream :: "'s runner \<Rightarrow> config \<Rightarrow> string \<Rightarrow> ('s, fault, json) action" where
  "merge_upstream run cfg branch =
     (let base = cfg_base_branch cfg in
      io_bind (assert_branch_m branch) (\<lambda>_.
      io_bind (current_commit run) (\<lambda>before.
      io_bind (fetch_remote_branch run base 1) (\<lambda>_.
      io_bind (git_network run (merge_args base)) (\<lambda>_.
      io_bind (current_commit run) (\<lambda>after.
        io_return (JObject [(''ok'', JBool True), (''branch'', JString branch), (''baseBranch'', JString base),
          (''before'', JString before), (''after'', JString after), (''fastForward'', JBool (before \<noteq> after))])))))))"

definition make_commit :: "'s runner \<Rightarrow> string \<Rightarrow> string option \<Rightarrow> ('s, fault, json) action" where
  "make_commit run branch message =
     io_bind (assert_branch_m branch) (\<lambda>_.
     io_bind (current_commit run) (\<lambda>before.
     io_bind (add_workspace_changes run) (\<lambda>_.
     io_bind (workspace_status run) (\<lambda>status.
       let committed = (trim status \<noteq> []) in
       io_bind (if committed
                then git_commit run (case message of Some m \<Rightarrow> m | None \<Rightarrow> ''agent: manual commit'')
                else io_return ()) (\<lambda>_.
       io_bind (push_branch run branch) (\<lambda>_.
       io_bind (current_commit run) (\<lambda>after.
         io_return (JObject [(''ok'', JBool True), (''branch'', JString branch), (''before'', JString before),
           (''after'', JString after), (''committed'', JBool committed), (''pushed'', JBool True),
           (''status'', JString status)]))))))))"

definition pr_view_args :: "string \<Rightarrow> string list" where
  "pr_view_args branch = [''pr'', ''view'', branch, ''--json'', ''url'', ''--jq'', ''.url'']"

definition pr_create_args :: "string \<Rightarrow> string \<Rightarrow> string \<Rightarrow> string list" where
  "pr_create_args base branch title =
     [''pr'', ''create'', ''--draft'', ''--base'', base, ''--head'', branch, ''--title'', title,
      ''--body'', ''Draft PR opened by fiducia agent.'']"

text \<open>A pull request that exists for the branch is reused.\<close>

definition create_pr :: "'s runner \<Rightarrow> config \<Rightarrow> string \<Rightarrow> string \<Rightarrow> ('s, fault, json) action" where
  "create_pr run cfg branch title =
     (let base = cfg_base_branch cfg in
      io_bind (run ''gh'' (pr_create_args base branch title) git_timeout_network_s) (\<lambda>out.
        io_return (JObject [(''ok'', JBool True), (''branch'', JString branch), (''baseBranch'', JString base),
          (''prUrl'', JString (trim out)), (''title'', JString title), (''draft'', JBool True),
          (''reused'', JBool False)])))"

definition open_pr :: "'s runner \<Rightarrow> config \<Rightarrow> string \<Rightarrow> string option \<Rightarrow> ('s, fault, json) action" where
  "open_pr run cfg branch title_hint =
     (let title = (case title_hint of Some t \<Rightarrow> t | None \<Rightarrow> ''Agent draft'') in
      io_bind (assert_branch_m branch) (\<lambda>_.
      io_bind (attempt (run ''gh'' (pr_view_args branch) git_timeout_network_s)) (\<lambda>existing.
        case existing of
          Inr out \<Rightarrow>
            if trim out \<noteq> [] then
              io_return (JObject [(''ok'', JBool True), (''branch'', JString branch), (''prUrl'', JString (trim out)),
                (''title'', JString title), (''draft'', JBool True), (''reused'', JBool True)])
            else create_pr run cfg branch title
        | Inl _ \<Rightarrow> create_pr run cfg branch title)))"

section \<open>Facts\<close>

text \<open>An unsafe branch is refused before any command runs, by all three actions.\<close>

lemma unsafe_branch_refused:
  assumes "assert_safe_branch branch ''session branch'' = Inl e"
  shows "merge_upstream run cfg branch s = (Inl (Fail e), s)"
    and "make_commit run branch message s = (Inl (Fail e), s)"
    and "open_pr run cfg branch title s = (Inl (Fail e), s)"
  by (simp_all add: merge_upstream_def make_commit_def open_pr_def assert_branch_m_def assms io_lift_def
      io_bind_def io_fail_def Let_def)

text \<open>The three actions leave alone what their runner leaves alone.\<close>

lemma thread_ops_keep:
  assumes "\<And>p args t. keeps v (run p args t)"
  shows "keeps v (merge_upstream run cfg branch)" "keeps v (make_commit run branch message)"
    "keeps v (open_pr run cfg branch title)"
  unfolding merge_upstream_def make_commit_def open_pr_def create_pr_def assert_branch_m_def Let_def
  by (intro keeps_rules git_calls_keep assms | simp split: sum.split option.split
      | intro conjI impI allI keeps_rules git_calls_keep assms)+

end
