(* ===== verification/HttpApi.thy ===== *)
theory HttpApi
  imports State ThreadOps Orchestrator Outbox
begin

unbundle bit_operations_syntax

text \<open>
  The HTTP surface, src/src/http.rs, and the secret comparison of src/src/util.rs: every route as a
  function of the request and the worker's state. Routes that run commands thread the state of a
  runner through. Header values are the texts a header has when it is readable as text.
\<close>

section \<open>Authentication\<close>

definition to_bytes :: "string \<Rightarrow> u8 list" where
  "to_bytes s = map (\<lambda>c. of_nat (of_char c)) s"

definition constant_time_eq :: "u8 list \<Rightarrow> u8 list \<Rightarrow> bool" where
  "constant_time_eq a b =
     (if length a \<noteq> length b then False
      else foldl (\<lambda>diff (x, y). diff OR (x XOR y)) 0 (zip a b) = 0)"

type_synonym headers = "string \<Rightarrow> string option"

record reply =
  rp_status :: nat
  rp_body :: json

definition json_reply :: "nat \<Rightarrow> json \<Rightarrow> reply" where
  "json_reply status body = \<lparr>rp_status = status, rp_body = body\<rparr>"

definition error_reply :: "nat \<Rightarrow> string \<Rightarrow> (string \<times> json) list \<Rightarrow> reply" where
  "error_reply status message extra = json_reply status (JObject ((''error'', JString message) # extra))"

definition unauthorized :: reply where
  "unauthorized = error_reply 401 ''unauthorized'' []"

definition require_server_auth :: "config \<Rightarrow> headers \<Rightarrow> reply + unit" where
  "require_server_auth c h =
     (case (cfg_server_auth_secret c, h ''x-server-auth'') of
        (Some s, Some p) \<Rightarrow> if constant_time_eq (to_bytes p) (to_bytes s) then Inr () else Inl unauthorized
      | _ \<Rightarrow> Inl unauthorized)"

definition with_auth :: "app \<Rightarrow> headers \<Rightarrow> (unit \<Rightarrow> reply \<times> 's) \<Rightarrow> 's \<Rightarrow> reply \<times> 's" where
  "with_auth a h route s =
     (case require_server_auth (ap_config a) h of Inl r \<Rightarrow> (r, s) | Inr _ \<Rightarrow> route ())"

section \<open>Health, status and listing\<close>

definition healthz :: reply where
  "healthz = json_reply 200 (JObject [(''ok'', JBool True)])"

definition nats_json :: "nats_snapshot \<Rightarrow> json" where
  "nats_json s =
     (let n = (\<lambda>x :: u64. JInt (uint x)) in
      JObject [(''configured'', JBool (snap_configured s)), (''connectAttempts'', n (snap_connect_attempts s)),
        (''connectFailures'', n (snap_connect_failures s)), (''jetstreamPublished'', n (snap_jetstream_published s)),
        (''corePublished'', n (snap_core_published s)), (''publishFailures'', n (snap_publish_failures s)),
        (''serializationFailures'', n (snap_serialization_failures s)),
        (''outboxPersistFailures'', n (snap_outbox_persist_failures s)), (''outboxPending'', n (snap_outbox_pending s)),
        (''outboxDeferred'', n (snap_outbox_deferred s)), (''deadLettered'', n (snap_dead_lettered s)),
        (''unconfiguredSkips'', n (snap_unconfigured_skips s)), (''unavailableDrops'', n (snap_unavailable_drops s))])"

definition status :: "nats_snapshot \<Rightarrow> app \<Rightarrow> reply" where
  "status snap a =
     (let mode = cp_governance_mode (ap_control_plane a); c = ap_config a in
      json_reply 200 (JObject [(''ok'', JBool True), (''service'', JString ''fiducia-ai-agent-manager''),
        (''instanceId'', JString (ap_instance_id a)), (''startedAt'', JString (ap_started_at a)),
        (''threadId'', json_opt (cfg_thread_id c)), (''repo'', json_opt (cfg_repo_url c)),
        (''baseBranch'', JString (cfg_base_branch c)), (''controlPlane'', JBool (cp_enabled (ap_control_plane a))),
        (''governanceMode'', JString (governance_as_str mode)),
        (''governanceWarning'', json_opt (if mode = UngovernedLocalOnly
           then Some ''UNSAFE LOCAL/TEST MODE: control-plane claims and fencing are disabled'' else None)),
        (''natsConfigured'', JBool (cfg_nats_url c \<noteq> None)), (''nats'', nats_json snap),
        (''activeTasks'', JInt (int (hm_len (ap_tasks a))))]))"

definition agents :: "app \<Rightarrow> reply" where
  "agents a =
     json_reply 200 (JObject [(''ok'', JBool True),
       (''default'', JString (provider_as_str (cfg_default_provider (ap_config a)))),
       (''providers'', JArray (map JString [''claude-cli'', ''claude-sdk'', ''generic-ai-sdk'', ''gemini-sdk'',
          ''opencode-ai-sdk'', ''openai-codex-cli'', ''openai-sdk'']))])"

definition task_json :: "task_state \<Rightarrow> json" where
  "task_json t =
     JObject [(''taskId'', JString (tk_task_id t)), (''threadId'', json_opt (tk_thread_id t)),
       (''branch'', JString (tk_branch t)), (''provider'', JString (provider_as_str (tk_provider t))),
       (''finished'', JBool (is_finished t))]"

definition list_tasks :: "headers \<Rightarrow> app \<Rightarrow> reply \<times> app" where
  "list_tasks h a =
     with_auth a h (\<lambda>_. (json_reply 200 (JObject [(''ok'', JBool True),
       (''tasks'', JArray (map task_json (hm_values (ap_tasks a))))]), a)) a"

section \<open>Dispatch\<close>

definition max_active_tasks :: nat where
  "max_active_tasks = 256"

record dispatch_body =
  db_prompt :: string
  db_task_id :: "string option"
  db_thread_id :: "string option"
  db_user_id :: "string option"
  db_repo :: "string option"
  db_base_branch :: "string option"
  db_branch :: "string option"
  db_thread_title :: "string option"
  db_provider :: "string option"

text \<open>The checks before a task is looked up: the prompt, and what the container is bound to.\<close>

definition binding_error :: "(string \<Rightarrow> string) \<Rightarrow> config \<Rightarrow> string option \<Rightarrow> dispatch_body \<Rightarrow> reply option" where
  "binding_error lowercase c thread_id body =
     (if cfg_thread_id c \<noteq> None \<and> thread_id \<noteq> None \<and> cfg_thread_id c \<noteq> thread_id then
        Some (error_reply 409 ''container is bound to a different thread'' [(''boundThreadId'', json_opt (cfg_thread_id c))])
      else if cfg_worker_bind_mode c = Bind_Repo \<and> thread_id = None then
        Some (error_reply 400 ''threadId is required for repo-scoped warm workers'' [])
      else
        (case normalized (db_repo body) of
           Some req_repo \<Rightarrow>
             if \<not> repo_urls_match lowercase (Some req_repo) (cfg_repo_url c) then
               Some (error_reply 409 ''container is bound to a different repo'' [(''boundRepo'', json_opt (cfg_repo_url c))])
             else None
         | None \<Rightarrow> None))"

definition base_error :: "config \<Rightarrow> dispatch_body \<Rightarrow> reply option" where
  "base_error c body =
     (case normalized (db_base_branch body) of
        Some req_base \<Rightarrow>
          if req_base \<noteq> cfg_base_branch c then
            Some (error_reply 409 ''container is bound to a different baseBranch''
              [(''boundBaseBranch'', JString (cfg_base_branch c))])
          else None
      | None \<Rightarrow> None)"

definition prompt_error :: "dispatch_body \<Rightarrow> reply option" where
  "prompt_error body =
     (if db_prompt body = [] \<or> 64000 < length (db_prompt body)
      then Some (error_reply 400 ''prompt is required (1..64000 chars)'' []) else None)"

definition live_tasks :: "app \<Rightarrow> nat" where
  "live_tasks a = length (filter (\<lambda>t. \<not> is_finished t) (hm_values (ap_tasks a)))"

definition new_task :: "string \<Rightarrow> string option \<Rightarrow> string option \<Rightarrow> agent_provider \<Rightarrow> string \<Rightarrow> thread_session \<Rightarrow> task_state" where
  "new_task task_id thread_id user_id provider prompt s =
     \<lparr>tk_task_id = task_id, tk_prompt = prompt, tk_user_id = user_id, tk_thread_id = thread_id,
      tk_provider = provider, tk_branch = ts_branch s, tk_worktree_path = ts_workspace_path s,
      tk_session = ts_session_id s, tk_cancel = False, tk_seq = 0, tk_finished = False, tk_cancelled = False,
      tk_finished_at = None\<rparr>"

definition queued_event :: "string \<Rightarrow> json" where
  "queued_event sid =
     JObject [(''kind'', JString ''status''), (''status'', JString ''queued''), (''sessionId'', JString sid)]"

text \<open>A task that passed every check: registered with its session and the worker, announced, spawned.\<close>

definition register_task :: "emitter \<Rightarrow> task_state \<Rightarrow> app \<Rightarrow> app" where
  "register_task em t a =
     (let i = tk_task_id t;
          a = map_session (\<lambda>s. s\<lparr>ts_task_ids := ts_task_ids s @ [i]\<rparr>) (tk_session t) a;
          a = a\<lparr>ap_tasks := hm_insert i t (ap_tasks a)\<rparr>;
          a = map_session (\<lambda>s. s\<lparr>ts_queued_task_ids := ts_queued_task_ids s @ [i]\<rparr>) (tk_session t) a;
          a = app_emit em i (queued_event (tk_session t)) a
      in a\<lparr>ap_spawned := ap_spawned a @ [i]\<rparr>)"

definition accept_task ::
  "(string \<Rightarrow> string) \<Rightarrow> emitter \<Rightarrow> string \<Rightarrow> string option \<Rightarrow> string option \<Rightarrow> dispatch_body \<Rightarrow> app \<Rightarrow> reply \<times> app" where
  "accept_task lowercase em task_id thread_id user_id body a =
     (case get_or_create_session lowercase task_id thread_id user_id (db_branch body) (db_thread_title body)
             (Some (db_prompt body)) a of
        (Inl e, a) \<Rightarrow> (error_reply 400 e [], a)
      | (Inr s, a) \<Rightarrow>
          let p = resolve_agent_provider (db_provider body) (cfg_default_provider (ap_config a));
              t = new_task task_id thread_id user_id p (db_prompt body) s
          in (json_reply 200 (JObject [(''taskId'', JString task_id), (''branch'', JString (tk_branch t)),
                (''queuedBehind'', JBool False)]), register_task em t a))"

definition dispatch_task ::
  "(string \<Rightarrow> string) \<Rightarrow> emitter \<Rightarrow> string \<Rightarrow> headers \<Rightarrow> dispatch_body \<Rightarrow> app \<Rightarrow> reply \<times> app" where
  "dispatch_task lowercase em new_uuid h body a = with_auth a h (\<lambda>_.
     let c = ap_config a;
         task_id = (case db_task_id body of Some i \<Rightarrow> i | None \<Rightarrow> new_uuid);
         thread_id = or_else (db_thread_id body) (cfg_thread_id c);
         user_id = or_else (db_user_id body) (cfg_user_id c)
     in case or_else (prompt_error body) (or_else (binding_error lowercase c thread_id body) (base_error c body)) of
          Some r \<Rightarrow> (r, a)
        | None \<Rightarrow>
            (case hm_get (ap_tasks a) task_id of
               Some existing \<Rightarrow>
                 (json_reply 200 (JObject [(''taskId'', JString task_id), (''branch'', JString (tk_branch existing)),
                    (''duplicate'', JBool True),
                    (''status'', JString (if is_finished existing then ''finished'' else ''running''))]), a)
             | None \<Rightarrow>
                 if max_active_tasks \<le> live_tasks a then
                   (error_reply 429 ''worker at capacity; retry later'' [(''activeTasks'', JInt (int (live_tasks a)))], a)
                 else accept_task lowercase em task_id thread_id user_id body a)) a"

section \<open>The event stream\<close>

record sse_event =
  ev_id :: string
  ev_event :: string
  ev_data :: string

definition sse_event_of :: "(json \<Rightarrow> string) \<Rightarrow> stored_event \<Rightarrow> sse_event" where
  "sse_event_of render s =
     \<lparr>ev_id = show_int (st_seq s),
      ev_event = (case get_str (st_event s) ''kind'' of Some k \<Rightarrow> k | None \<Rightarrow> ''message''),
      ev_data = render (st_event s)\<rparr>"

definition is_done_event :: "stored_event \<Rightarrow> bool" where
  "is_done_event s \<longleftrightarrow> get_str (st_event s) ''kind'' = Some ''done''"

text \<open>The live part: what the receiver yields until it has yielded the done event; a receiver that
  lagged skips what it missed, so \<open>received\<close> is what it got.\<close>

fun live_part :: "stored_event list \<Rightarrow> stored_event list" where
  "live_part [] = []"
| "live_part (s # ss) = s # (if is_done_event s then [] else live_part ss)"

definition parse_i64 :: "string \<Rightarrow> int option" where
  "parse_i64 s =
     (case s of
        c # ds \<Rightarrow>
          if c = CHR ''-'' then
            (if ds \<noteq> [] \<and> list_all is_digit ds \<and> digits_value ds \<le> 2 ^ 63 then Some (- int (digits_value ds)) else None)
          else map_option int (parse_uint (2 ^ 63 - 1) s)
      | [] \<Rightarrow> None)"

definition resume_after :: "int option \<Rightarrow> headers \<Rightarrow> int" where
  "resume_after resume_from_id h =
     (case or_else resume_from_id (case h ''last-event-id'' of None \<Rightarrow> None | Some v \<Rightarrow> parse_i64 v) of
        Some n \<Rightarrow> n | None \<Rightarrow> - 1)"

definition stream ::
  "(json \<Rightarrow> string) \<Rightarrow> (nat \<Rightarrow> stored_event list) \<Rightarrow> headers \<Rightarrow> string \<Rightarrow> int option \<Rightarrow> app \<Rightarrow> reply + sse_event list" where
  "stream render received h task_id resume_from_id a =
     (case require_server_auth (ap_config a) h of
        Inl r \<Rightarrow> Inl r
      | Inr _ \<Rightarrow>
          (case subscribe task_id (resume_after resume_from_id h) (ap_bus a) of
             None \<Rightarrow> Inl (error_reply 404 ''not found'' [])
           | Some (history, position, done) \<Rightarrow>
               Inr (map (sse_event_of render) (history @ (if done then [] else live_part (received position))))))"

section \<open>Cancelling\<close>

definition cancel_task :: "emitter \<Rightarrow> headers \<Rightarrow> string \<Rightarrow> app \<Rightarrow> reply \<times> app" where
  "cancel_task em h task_id a = with_auth a h (\<lambda>_.
     case hm_get (ap_tasks a) task_id of
       None \<Rightarrow> (error_reply 404 ''not found'' [], a)
     | Some t \<Rightarrow>
         if is_finished t then (error_reply 409 ''task already finished'' [], a)
         else
           (json_reply 200 (JObject [(''ok'', JBool True), (''taskId'', JString task_id), (''cancelled'', JBool True)]),
            app_emit em task_id (status_event ''cancelling'' ''Cancellation requested'')
              (map_task (\<lambda>t. t\<lparr>tk_cancelled := True, tk_cancel := True\<rparr>) task_id a))) a"

section \<open>Thread control\<close>

record thread_control_body =
  tc_branch :: "string option"
  tc_title :: "string option"
  tc_thread_title :: "string option"
  tc_message :: "string option"

definition resolved_branch :: "app \<Rightarrow> thread_control_body \<Rightarrow> reply + string" where
  "resolved_branch a body =
     (case normalized (tc_branch body) of
        Some b \<Rightarrow> Inr b
      | None \<Rightarrow>
          (case hm_values (ap_sessions a) of
             s # _ \<Rightarrow> Inr (ts_branch s)
           | [] \<Rightarrow> Inl (error_reply 400 ''no active thread branch; pass branch'' [])))"

definition manual_external_mutation_allowed :: "governance_mode \<Rightarrow> bool" where
  "manual_external_mutation_allowed mode \<longleftrightarrow> mode = UngovernedLocalOnly"

definition reject_unclaimed_external_mutation :: "app \<Rightarrow> reply option" where
  "reject_unclaimed_external_mutation a =
     (if manual_external_mutation_allowed (cp_governance_mode (ap_control_plane a)) then None
      else Some (error_reply 409 ''control_plane_claim_required''
        [(''detail'', JString ''manual merge, push, and PR routes are disabled while control-plane governance is enabled; dispatch a claimed task instead'')]))"

text \<open>An action of \<open>ThreadOps\<close> as a route; a panic becomes a 500 reply in the outermost layer.\<close>

definition thread_route ::
  "(string \<Rightarrow> ('s, fault, json) action) \<Rightarrow> headers \<Rightarrow> thread_control_body \<Rightarrow> app \<Rightarrow> 's \<Rightarrow> reply \<times> 's" where
  "thread_route action h body a s = with_auth a h (\<lambda>_.
     case reject_unclaimed_external_mutation a of
       Some r \<Rightarrow> (r, s)
     | None \<Rightarrow>
         (case resolved_branch a body of
            Inl r \<Rightarrow> (r, s)
          | Inr branch \<Rightarrow>
              (case action branch s of
                 (Inr v, s) \<Rightarrow> (json_reply 200 v, s)
               | (Inl (Fail e), s) \<Rightarrow> (error_reply 502 e [], s)
               | (Inl Unwind, s) \<Rightarrow> (json_reply 500 JNull, s)))) s"

definition merge_upstream_route :: "'s runner \<Rightarrow> headers \<Rightarrow> thread_control_body \<Rightarrow> app \<Rightarrow> 's \<Rightarrow> reply \<times> 's" where
  "merge_upstream_route run h body a = thread_route (merge_upstream run (ap_config a)) h body a"

definition make_commit_route :: "'s runner \<Rightarrow> headers \<Rightarrow> thread_control_body \<Rightarrow> app \<Rightarrow> 's \<Rightarrow> reply \<times> 's" where
  "make_commit_route run h body a = thread_route (\<lambda>branch. make_commit run branch (tc_message body)) h body a"

definition open_pr_route :: "'s runner \<Rightarrow> headers \<Rightarrow> thread_control_body \<Rightarrow> app \<Rightarrow> 's \<Rightarrow> reply \<times> 's" where
  "open_pr_route run h body a =
     thread_route (\<lambda>branch. open_pr run (ap_config a) branch (or_else (tc_title body) (tc_thread_title body))) h body a"

section \<open>The router\<close>

datatype request_kind =
    Healthz | Metrics | Readyz | Status | Agents | Root
  | List_Tasks
  | Dispatch dispatch_body
  | Stream string "int option"
  | Cancel string
  | Merge_Upstream thread_control_body
  | Make_Commit thread_control_body
  | Open_Pr thread_control_body

text \<open>What the handlers read from outside: names, time, the outbox counters, and the runner's own state.\<close>

record 's outside =
  ou_lowercase :: "string \<Rightarrow> string"
  ou_emitter :: emitter
  ou_uuid :: string
  ou_nats :: nats_snapshot
  ou_nats_text :: string
  ou_render :: "json \<Rightarrow> string"
  ou_received :: "nat \<Rightarrow> stored_event list"
  ou_run :: "'s runner"

definition stream_reply :: "reply + sse_event list \<Rightarrow> reply" where
  "stream_reply r =
     (case r of
        Inl e \<Rightarrow> e
      | Inr evs \<Rightarrow> json_reply 200 (JArray (map (\<lambda>e. JArray [JString (ev_id e), JString (ev_event e), JString (ev_data e)]) evs)))"

fun router :: "'s outside \<Rightarrow> headers \<Rightarrow> request_kind \<Rightarrow> app \<times> 's \<Rightarrow> reply \<times> app \<times> 's" where
  "router o' h Healthz (a, s) = (healthz, a, s)"
| "router o' h Readyz (a, s) = (healthz, a, s)"
| "router o' h Metrics (a, s) = (json_reply 200 (JString (EventBus.metrics_text (ap_bus a) (ou_nats_text o'))), a, s)"
| "router o' h Status (a, s) = (status (ou_nats o') a, a, s)"
| "router o' h Agents (a, s) = (agents a, a, s)"
| "router o' h Root (a, s) = (json_reply 307 (JString ''/status''), a, s)"
| "router o' h List_Tasks (a, s) = (case list_tasks h a of (r, a) \<Rightarrow> (r, a, s))"
| "router o' h (Dispatch body) (a, s) =
     (case dispatch_task (ou_lowercase o') (ou_emitter o') (ou_uuid o') h body a of (r, a) \<Rightarrow> (r, a, s))"
| "router o' h (Stream task_id resume) (a, s) =
     (stream_reply (stream (ou_render o') (ou_received o') h task_id resume a), a, s)"
| "router o' h (Cancel task_id) (a, s) = (case cancel_task (ou_emitter o') h task_id a of (r, a) \<Rightarrow> (r, a, s))"
| "router o' h (Merge_Upstream body) (a, s) =
     (case merge_upstream_route (ou_run o') h body a s of (r, s) \<Rightarrow> (r, a, s))"
| "router o' h (Make_Commit body) (a, s) =
     (case make_commit_route (ou_run o') h body a s of (r, s) \<Rightarrow> (r, a, s))"
| "router o' h (Open_Pr body) (a, s) =
     (case open_pr_route (ou_run o') h body a s of (r, s) \<Rightarrow> (r, a, s))"

end
