(* ===== verification/HttpApi_Body.thy ===== *)
theory HttpApi_Body
  imports HttpApi "HOL-Library.Monad_Syntax"
begin

text \<open>
  The request bodies of src/src/http.rs as \<open>serde\<close> derives their parsers: the names a field answers to,
  a missing or null optional field, an error for a required field that is missing, for a value of
  another type and for a field given twice. Entries of other names are ignored; an array gives the
  fields in their order. The texts of the errors belong to the crate and are left out.
\<close>

definition field_values :: "string list \<Rightarrow> (string \<times> json) list \<Rightarrow> json list" where
  "field_values names kvs = map snd (filter (\<lambda>e. fst e \<in> set names) kvs)"

fun optional_string :: "json \<Rightarrow> string option option" where
  "optional_string JNull = Some None"
| "optional_string (JString s) = Some (Some s)"
| "optional_string _ = None"

definition required_field :: "string \<Rightarrow> (string \<times> json) list \<Rightarrow> string option" where
  "required_field name kvs = (case field_values [name] kvs of [v] \<Rightarrow> as_str v | _ \<Rightarrow> None)"

definition optional_field_of :: "string list \<Rightarrow> (string \<times> json) list \<Rightarrow> string option option" where
  "optional_field_of names kvs =
     (case field_values names kvs of [] \<Rightarrow> Some None | [v] \<Rightarrow> optional_string v | _ \<Rightarrow> None)"

text \<open>The entries of a body, from an object or by position.\<close>

definition body_entries :: "string list \<Rightarrow> json \<Rightarrow> (string \<times> json) list option" where
  "body_entries names v =
     (case v of
        JObject kvs \<Rightarrow> Some kvs
      | JArray vs \<Rightarrow> if length vs \<le> length names then Some (zip names vs) else None
      | _ \<Rightarrow> None)"

definition dispatch_fields :: "string list" where
  "dispatch_fields = [''prompt'', ''task_id'', ''thread_id'', ''user_id'', ''repo'', ''base_branch'', ''branch'',
     ''thread_title'', ''provider'']"

definition decode_dispatch :: "json \<Rightarrow> dispatch_body option" where
  "decode_dispatch v =
     do {
       kvs \<leftarrow> body_entries dispatch_fields v;
       prompt \<leftarrow> required_field ''prompt'' kvs;
       task_id \<leftarrow> optional_field_of [''task_id''] kvs;
       thread_id \<leftarrow> optional_field_of [''thread_id'', ''threadId''] kvs;
       user_id \<leftarrow> optional_field_of [''user_id'', ''userId''] kvs;
       repo \<leftarrow> optional_field_of [''repo''] kvs;
       base_branch \<leftarrow> optional_field_of [''base_branch'', ''baseBranch''] kvs;
       branch \<leftarrow> optional_field_of [''branch''] kvs;
       thread_title \<leftarrow> optional_field_of [''thread_title'', ''threadTitle''] kvs;
       provider \<leftarrow> optional_field_of [''provider''] kvs;
       Some \<lparr>db_prompt = prompt, db_task_id = task_id, db_thread_id = thread_id, db_user_id = user_id,
             db_repo = repo, db_base_branch = base_branch, db_branch = branch,
             db_thread_title = thread_title, db_provider = provider\<rparr>
     }"

definition decode_thread_control :: "json \<Rightarrow> thread_control_body option" where
  "decode_thread_control v =
     do {
       kvs \<leftarrow> body_entries [''branch'', ''title'', ''thread_title'', ''message''] v;
       branch \<leftarrow> optional_field_of [''branch''] kvs;
       title \<leftarrow> optional_field_of [''title''] kvs;
       thread_title \<leftarrow> optional_field_of [''thread_title'', ''threadTitle''] kvs;
       message \<leftarrow> optional_field_of [''message''] kvs;
       Some \<lparr>tc_branch = branch, tc_title = title, tc_thread_title = thread_title, tc_message = message\<rparr>
     }"

section \<open>Facts\<close>

lemma field_values_simps [simp]:
  "field_values names [] = []"
  "field_values names ((k, v) # kvs) = (if k \<in> set names then [v] else []) @ field_values names kvs"
  by (simp_all add: field_values_def)

text \<open>What a client writes for a body is read back, and the camel-case names mean the same.\<close>

definition entry :: "string \<Rightarrow> string option \<Rightarrow> (string \<times> json) list" where
  "entry name v = (case v of None \<Rightarrow> [] | Some s \<Rightarrow> [(name, JString s)])"

lemma field_values_append [simp]: "field_values names (xs @ ys) = field_values names xs @ field_values names ys"
  by (simp add: field_values_def)

lemma field_values_entry [simp]:
  "field_values names (entry k v) = (if k \<in> set names then (case v of None \<Rightarrow> [] | Some s \<Rightarrow> [JString s]) else [])"
  by (simp add: entry_def split: option.split)

lemma optional_string_cases [simp]:
  "(case (case v of None \<Rightarrow> [] | Some s \<Rightarrow> [JString s]) of [] \<Rightarrow> Some None | [j] \<Rightarrow> optional_string j | _ \<Rightarrow> None) = Some v"
  by (cases v) simp_all

lemma decode_encode:
  "decode_dispatch (JObject ((''prompt'', JString (db_prompt b)) # entry ''task_id'' (db_task_id b)
      @ entry ''thread_id'' (db_thread_id b) @ entry ''user_id'' (db_user_id b) @ entry ''repo'' (db_repo b)
      @ entry ''base_branch'' (db_base_branch b) @ entry ''branch'' (db_branch b)
      @ entry ''thread_title'' (db_thread_title b) @ entry ''provider'' (db_provider b))) = Some b"
  by (simp add: decode_dispatch_def body_entries_def required_field_def optional_field_of_def)

fun snake_case :: "string \<Rightarrow> string" where
  "snake_case k =
     (if k = ''threadId'' then ''thread_id'' else if k = ''userId'' then ''user_id''
      else if k = ''baseBranch'' then ''base_branch'' else if k = ''threadTitle'' then ''thread_title'' else k)"

lemma field_values_rename:
  assumes "\<And>k. snake_case k \<in> set names \<longleftrightarrow> k \<in> set names"
  shows "field_values names (map (\<lambda>(k, v). (snake_case k, v)) kvs) = field_values names kvs"
  using assms by (induction kvs) (auto simp del: snake_case.simps)

lemma camel_case_aliases:
  "decode_dispatch (JObject (map (\<lambda>(k, v). (snake_case k, v)) kvs)) = decode_dispatch (JObject kvs)"
proof -
  let ?r = "map (\<lambda>(k, v). (snake_case k, v)) kvs"
  have fields: "field_values [''prompt''] ?r = field_values [''prompt''] kvs"
    "field_values [''task_id''] ?r = field_values [''task_id''] kvs"
    "field_values [''thread_id'', ''threadId''] ?r = field_values [''thread_id'', ''threadId''] kvs"
    "field_values [''user_id'', ''userId''] ?r = field_values [''user_id'', ''userId''] kvs"
    "field_values [''repo''] ?r = field_values [''repo''] kvs"
    "field_values [''base_branch'', ''baseBranch''] ?r = field_values [''base_branch'', ''baseBranch''] kvs"
    "field_values [''branch''] ?r = field_values [''branch''] kvs"
    "field_values [''thread_title'', ''threadTitle''] ?r = field_values [''thread_title'', ''threadTitle''] kvs"
    "field_values [''provider''] ?r = field_values [''provider''] kvs"
    by (rule field_values_rename; simp)+
  show ?thesis
    unfolding decode_dispatch_def body_entries_def required_field_def optional_field_of_def json.case
      Option.bind_lunit fields ..
qed

text \<open>The task id has one name only: an entry \<open>taskId\<close>, which is how the API documentation writes it, is
  ignored, whatever its value, and the task gets a fresh id.\<close>

lemma camel_case_task_id_ignored:
  "decode_dispatch (JObject ((''taskId'', v) # kvs)) = decode_dispatch (JObject kvs)"
  by (simp add: decode_dispatch_def body_entries_def required_field_def optional_field_of_def)

end
