(* ===== verification/HttpApi_Safety.thy ===== *)
theory HttpApi_Safety
  imports HttpApi Orchestrator_Outcome
begin

text \<open>
  What the HTTP surface guarantees: who gets in, what governance closes, what a dispatch does, and
  the invariant of the worker's maps under requests, task runs and garbage collection.
\<close>

section \<open>Authentication\<close>

lemma or_zero: "a OR b = 0 \<longleftrightarrow> a = 0 \<and> b = 0" for a b :: u8
proof
  assume z: "a OR b = 0"
  have "a = 0" by (rule bit_word_eqI) (use z in \<open>metis bit_0_eq bit_or_iff bot_apply bot_bool_def\<close>)
  moreover have "b = 0" by (rule bit_word_eqI) (use z in \<open>metis bit_0_eq bit_or_iff bot_apply bot_bool_def\<close>)
  ultimately show "a = 0 \<and> b = 0" by simp
qed simp

lemma xor_zero: "a XOR b = 0 \<longleftrightarrow> a = b" for a b :: u8
proof
  assume "a XOR b = 0"
  then have "\<not> bit (a XOR b) n" for n by simp
  then show "a = b" by (intro bit_word_eqI) (simp add: bit_xor_iff)
qed simp

lemma diff_zero:
  "length a = length b \<Longrightarrow> foldl (\<lambda>diff (x, y). diff OR (x XOR y)) d (zip a b) = 0 \<longleftrightarrow> d = 0 \<and> a = b" for a b :: "u8 list"
  by (induction a b arbitrary: d rule: list_induct2) (auto simp: or_zero xor_zero)

lemma constant_time_eq_iff: "constant_time_eq a b \<longleftrightarrow> a = b"
  using diff_zero [of a b 0] by (auto simp: constant_time_eq_def)

lemma to_bytes_inj: "to_bytes s = to_bytes t \<Longrightarrow> s = t"
proof -
  have "(of_nat (of_char c) :: u8) = of_nat (of_char d) \<Longrightarrow> c = d" for c d :: char
  proof -
    assume "(of_nat (of_char c) :: u8) = of_nat (of_char d)"
    then have "unat (of_nat (of_char c) :: u8) = unat (of_nat (of_char d) :: u8)" by simp
    then have "(of_char c :: nat) = of_char d"
      by (simp add: unsigned_of_nat take_bit_nat_eq_self)
    then show "c = d" by simp
  qed
  then have "inj (\<lambda>c :: char. of_nat (of_char c) :: u8)" by (rule injI)
  then show "to_bytes s = to_bytes t \<Longrightarrow> s = t" unfolding to_bytes_def by (simp add: inj_map_eq_map)
qed

definition authorized :: "config \<Rightarrow> headers \<Rightarrow> bool" where
  "authorized c h \<longleftrightarrow> cfg_server_auth_secret c \<noteq> None \<and> h ''x-server-auth'' = cfg_server_auth_secret c"

lemma require_auth: "require_server_auth c h = (if authorized c h then Inr () else Inl unauthorized)"
  by (auto simp: require_server_auth_def authorized_def constant_time_eq_iff dest: to_bytes_inj split: option.split)

lemma with_auth: "with_auth a h route s = (if authorized (ap_config a) h then route () else (unauthorized, s))"
  by (simp add: with_auth_def require_auth)

fun protected :: "request_kind \<Rightarrow> bool" where
  "protected Healthz = False" | "protected Metrics = False" | "protected Readyz = False"
| "protected Status = False" | "protected Agents = False" | "protected Root = False"
| "protected _ = True"

lemma reply_statuses [simp]:
  "rp_status (json_reply n j) = n" "rp_status (error_reply n m extra) = n" "rp_status unauthorized = 401"
  by (simp_all add: json_reply_def error_reply_def unauthorized_def)

lemma dispatch_errors:
  "or_else (prompt_error body) (or_else (binding_error lc c th body) (base_error c body)) = Some r \<Longrightarrow>
     rp_status r \<in> {400, 409}"
  by (auto simp: or_else_def prompt_error_def binding_error_def base_error_def split: option.splits if_splits)

lemma accept_status: "rp_status (fst (accept_task lc em i th us body a)) \<noteq> 401"
  by (auto simp: accept_task_def Let_def split: prod.split sum.split)

lemma dispatch_status:
  "authorized (ap_config a) h \<Longrightarrow> rp_status (fst (dispatch_task lc em u h body a)) \<noteq> 401"
  unfolding dispatch_task_def with_auth Let_def
  by (auto split: option.split simp: accept_status dest!: dispatch_errors)

lemma thread_route_status:
  "authorized (ap_config a) h \<Longrightarrow> rp_status (fst (thread_route action h body a s)) \<noteq> 401"
  by (auto simp: thread_route_def with_auth reject_unclaimed_external_mutation_def resolved_branch_def
      split: option.split sum.split prod.split fault.split list.split)

text \<open>C3: a protected route answers 401 and changes nothing unless a server secret is configured and the
  request presents exactly that secret; with it, no route answers 401. The byte-wise comparison is
  equality.\<close>

theorem protected_routes_fail_closed:
  assumes "protected req"
  shows "if authorized (ap_config a) h then rp_status (fst (router ou h req (a, s))) \<noteq> 401
         else router ou h req (a, s) = (unauthorized, a, s)"
proof (cases "authorized (ap_config a) h")
  case True
  have "rp_status (fst (router ou h req (a, s))) \<noteq> 401"
    using assms True
    by (cases req) (simp_all add: list_tasks_def cancel_task_def stream_def stream_reply_def with_auth require_auth
        dispatch_status thread_route_status merge_upstream_route_def make_commit_route_def open_pr_route_def
        case_prod_beta split: option.split)
  with True show ?thesis by simp
next
  case False
  with assms show ?thesis
    by (cases req) (simp_all add: list_tasks_def dispatch_task_def cancel_task_def stream_def stream_reply_def
        merge_upstream_route_def make_commit_route_def open_pr_route_def thread_route_def with_auth require_auth)
qed

text \<open>A worker whose secret is \<open>k\<close>, for the two concrete cases.\<close>

definition sample_config :: "string option \<Rightarrow> config" where
  "sample_config secret = (from_env [] (\<lambda>_. None))\<lparr>cfg_server_auth_secret := secret\<rparr>"

definition sample_app :: "string option \<Rightarrow> event_bus \<Rightarrow> app" where
  "sample_app secret b =
     \<lparr>ap_config = sample_config secret, ap_bus = b,
      ap_control_plane = \<lparr>cp_governance_mode = Governed, cp_base = Some ''http://cp'', cp_http = bounded_http_client,
        cp_internal_secret = Some ''s'', cp_instance_id = ''i'', cp_agent_id = None, cp_node = None\<rparr>,
      ap_sessions = [], ap_tasks = [], ap_started_at = ''t'', ap_instance_id = ''i'', ap_spawned = []\<rparr>"

lemma sample_app_simps [simp]:
  "cfg_server_auth_secret (ap_config (sample_app secret b)) = secret"
  "cp_governance_mode (ap_control_plane (sample_app secret b)) = Governed"
  by (simp_all add: sample_app_def sample_config_def)

theorem protected_routes_fail_closed_witness:
  "protected (Cancel ''t'')
   \<and> (\<forall>ou b s :: 's. router ou (\<lambda>_. Some ''k'') (Cancel ''t'') (sample_app None b, s) = (unauthorized, sample_app None b, s))
   \<and> (\<forall>ou b s :: 's. router ou (\<lambda>_. Some ''x'') (Cancel ''t'') (sample_app (Some ''k'') b, s)
        = (unauthorized, sample_app (Some ''k'') b, s))
   \<and> (\<forall>ou b s :: 's. rp_status (fst (router ou (\<lambda>_. Some ''k'') (Cancel ''t'') (sample_app (Some ''k'') b, s))) \<noteq> 401)"
proof -
  have p: "protected (Cancel ''t'')" by simp
  have a: "\<not> authorized (ap_config (sample_app None b)) (\<lambda>_. Some ''k'')"
    "\<not> authorized (ap_config (sample_app (Some ''k'') b)) (\<lambda>_. Some ''x'')"
    "authorized (ap_config (sample_app (Some ''k'') b)) (\<lambda>_. Some ''k'')" for b
    by (simp_all add: authorized_def)
  show ?thesis
    using p protected_routes_fail_closed [OF p] a by (metis (no_types, lifting))
qed

section \<open>Governance\<close>

fun external :: "request_kind \<Rightarrow> bool" where
  "external (Merge_Upstream body) = True" | "external (Make_Commit body) = True" | "external (Open_Pr body) = True"
| "external _ = False"

text \<open>C17: while governance is enabled the routes that merge, push or open pull requests refuse every
  request, with a conflict for an authenticated one, and run nothing; no claim is checked because
  none is accepted.\<close>

theorem governed_manual_mutations_refused:
  assumes "external req" and "cp_governance_mode (ap_control_plane a) = Governed"
  shows "router ou h req (a, s)
    = (if authorized (ap_config a) h then the (reject_unclaimed_external_mutation a) else unauthorized, a, s)
    \<and> rp_status (the (reject_unclaimed_external_mutation a)) = 409"
  using assms
  by (cases req) (auto simp: merge_upstream_route_def make_commit_route_def open_pr_route_def thread_route_def
      with_auth reject_unclaimed_external_mutation_def manual_external_mutation_allowed_def)

theorem governed_manual_mutations_refused_witness:
  "let req = Make_Commit \<lparr>tc_branch = Some ''b'', tc_title = None, tc_thread_title = None, tc_message = None\<rparr>
   in external req
      \<and> (\<forall>ou b s :: 's. cp_governance_mode (ap_control_plane (sample_app (Some ''k'') b)) = Governed \<and> fst (snd (router ou (\<lambda>_. Some ''k'') req (sample_app (Some ''k'') b, s))) = sample_app (Some ''k'') b
           \<and> rp_status (fst (router ou (\<lambda>_. Some ''k'') req (sample_app (Some ''k'') b, s))) = 409)"
proof -
  define req where "req = Make_Commit \<lparr>tc_branch = Some ''b'', tc_title = None, tc_thread_title = None, tc_message = None\<rparr>"
  have g: "external req" "cp_governance_mode (ap_control_plane (sample_app (Some ''k'') b)) = Governed" for b
    by (simp_all add: req_def)
  have a: "authorized (ap_config (sample_app (Some ''k'') b)) (\<lambda>_. Some ''k'')" for b by (simp add: authorized_def)
  show ?thesis
    unfolding Let_def req_def [symmetric]
    by (simp add: g a governed_manual_mutations_refused [OF g])
qed

section \<open>What a dispatch does\<close>

definition requested_task :: "string \<Rightarrow> dispatch_body \<Rightarrow> string" where
  "requested_task new_uuid body = (case db_task_id body of Some i \<Rightarrow> i | None \<Rightarrow> new_uuid)"

definition requested_thread :: "config \<Rightarrow> dispatch_body \<Rightarrow> string option" where
  "requested_thread c body = or_else (db_thread_id body) (cfg_thread_id c)"

text \<open>The branch a new task works on: that of its thread's session if there is one.\<close>

definition branch_for :: "(string \<Rightarrow> string) \<Rightarrow> string \<Rightarrow> dispatch_body \<Rightarrow> app \<Rightarrow> string + string" where
  "branch_for lc i body a =
     (let c = ap_config a; sid = session_id c (requested_thread c body) i in
      res_bind (session_branch lc (cfg_agent_branch_prefix c) sid (db_branch body) (db_thread_title body) (Some (db_prompt body)))
        (\<lambda>b. Inr (case hm_get (ap_sessions a) sid of Some s \<Rightarrow> ts_branch s | None \<Rightarrow> b)))"

definition admits :: "(string \<Rightarrow> string) \<Rightarrow> string \<Rightarrow> headers \<Rightarrow> dispatch_body \<Rightarrow> app \<Rightarrow> bool" where
  "admits lc i h body a \<longleftrightarrow>
     authorized (ap_config a) h \<and> prompt_error body = None
     \<and> binding_error lc (ap_config a) (requested_thread (ap_config a) body) body = None
     \<and> base_error (ap_config a) body = None \<and> hm_get (ap_tasks a) i = None
     \<and> live_tasks a < max_active_tasks \<and> is_ok (branch_for lc i body a)"

lemma or_else_none [simp]: "or_else None y = y"
  by (simp add: or_else_def)

lemma map_session_frame [simp]:
  "ap_tasks (map_session f k a) = ap_tasks a" "ap_spawned (map_session f k a) = ap_spawned a"
  "ap_config (map_session f k a) = ap_config a" "ap_bus (map_session f k a) = ap_bus a"
  by (simp_all add: map_session_def split: option.split)

lemma app_emit_frame [simp]:
  "ap_sessions (app_emit em i ev a) = ap_sessions a" "ap_spawned (app_emit em i ev a) = ap_spawned a"
  "ap_config (app_emit em i ev a) = ap_config a"
  by (simp_all add: app_emit_def split: option.split prod.split)

lemma app_emit_task:
  "hm_get (ap_tasks (app_emit em i ev a)) j =
     (if j = i then map_option (\<lambda>t. t\<lparr>tk_seq := i64_wrap (tk_seq t + 1)\<rparr>) (hm_get (ap_tasks a) i) else hm_get (ap_tasks a) j)"
  by (auto simp: app_emit_def dest: emit_task_flags split: option.split prod.split)

lemma get_session_frame:
  "get_or_create_session lc i th us bh th2 ph a = (r, a') \<Longrightarrow>
     ap_tasks a' = ap_tasks a \<and> ap_spawned a' = ap_spawned a \<and> ap_config a' = ap_config a \<and> ap_bus a' = ap_bus a
     \<and> (\<forall>e. r = Inl e \<longrightarrow> a' = a)"
  by (auto simp: get_or_create_session_def Let_def split: sum.splits option.splits)

lemma get_session_branch:
  assumes "get_or_create_session lc i (requested_thread (ap_config a) body) us (db_branch body) (db_thread_title body)
      (Some (db_prompt body)) a = (r, a')"
  shows "is_ok r = is_ok (branch_for lc i body a) \<and> (\<forall>s. r = Inr s \<longrightarrow> branch_for lc i body a = Inr (ts_branch s))"
  using assms
  by (auto simp: get_or_create_session_def branch_for_def Let_def new_session_def split: sum.splits option.splits)

lemma register_frame:
  "ap_spawned (register_task em t a) = ap_spawned a @ [tk_task_id t]"
  "hm_get (ap_tasks (register_task em t a)) j =
     (if j = tk_task_id t then Some (t\<lparr>tk_seq := i64_wrap (tk_seq t + 1)\<rparr>) else hm_get (ap_tasks a) j)"
  by (simp_all add: register_task_def Let_def app_emit_task)

lemma dispatch_refused:
  assumes "\<not> admits lc (requested_task u body) h body a"
  shows "snd (dispatch_task lc em u h body a) = a"
proof (cases "authorized (ap_config a) h")
  case True
  have same: "snd (accept_task lc em i (requested_thread (ap_config a) body) us body a) = a"
    if "\<not> is_ok (branch_for lc i body a)" for i us
    using that get_session_branch [of lc i a body us] get_session_frame [of lc i "requested_thread (ap_config a) body" us]
    by (auto simp: accept_task_def split: prod.split sum.split)
  show ?thesis
    using assms True same
    by (auto simp: dispatch_task_def with_auth Let_def admits_def requested_task_def requested_thread_def or_else_None
        not_le split: option.split)
qed (simp add: dispatch_task_def with_auth)

lemma dispatch_admitted:
  assumes "admits lc (requested_task u body) h body a"
  shows "dispatch_task lc em u h body a = accept_task lc em (requested_task u body) (requested_thread (ap_config a) body)
     (or_else (db_user_id body) (cfg_user_id (ap_config a))) body a"
  using assms
  by (auto simp: dispatch_task_def with_auth Let_def admits_def requested_task_def requested_thread_def or_else_None
      split: option.split)

text \<open>C12: a dispatch creates a task exactly when the request is authenticated, its prompt and bindings are
  valid, its task id is new, fewer than 256 tasks are live and its branch is a valid one; then that
  task alone is registered, on the branch of its session, with its first event emitted, and spawned
  once. In every other case, a repeated dispatch included, nothing changes.\<close>

theorem dispatch_decides:
  "let i = requested_task u body; a' = snd (dispatch_task lc em u h body a)
   in if admits lc i h body a
      then ap_spawned a' = ap_spawned a @ [i]
        \<and> (\<exists>t. ap_tasks a' \<noteq> ap_tasks a \<and> hm_get (ap_tasks a') = (hm_get (ap_tasks a))(i \<mapsto> t)
             \<and> tk_task_id t = i \<and> branch_for lc i body a = Inr (tk_branch t) \<and> tk_prompt t = db_prompt body
             \<and> tk_seq t = 1 \<and> \<not> tk_cancel t \<and> \<not> tk_finished t)
      else a' = a"
proof (cases "admits lc (requested_task u body) h body a")
  case True
  let ?i = "requested_task u body"
  obtain r b where g: "get_or_create_session lc ?i (requested_thread (ap_config a) body)
      (or_else (db_user_id body) (cfg_user_id (ap_config a))) (db_branch body) (db_thread_title body)
      (Some (db_prompt body)) a = (r, b)" by fastforce
  from get_session_branch [OF g] True obtain s where r: "r = Inr s" and br: "branch_for lc ?i body a = Inr (ts_branch s)"
    by (cases r) (auto simp: admits_def)
  have b: "ap_tasks b = ap_tasks a" "ap_spawned b = ap_spawned a" "ap_config b = ap_config a"
    using get_session_frame [OF g] by auto
  define t where "t = new_task ?i (requested_thread (ap_config a) body) (or_else (db_user_id body) (cfg_user_id (ap_config a)))
      (resolve_agent_provider (db_provider body) (cfg_default_provider (ap_config a))) (db_prompt body) s"
  have a': "snd (dispatch_task lc em u h body a) = register_task em t b"
    unfolding dispatch_admitted [OF True] by (simp add: accept_task_def g r t_def b Let_def)
  have fresh: "hm_get (ap_tasks a) ?i = None" using True by (simp add: admits_def)
  let ?t = "t\<lparr>tk_seq := i64_wrap (tk_seq t + 1)\<rparr>"
  have get: "hm_get (ap_tasks (register_task em t b)) = (hm_get (ap_tasks a))(?i \<mapsto> ?t)"
    by (auto simp: register_frame b t_def new_task_def)
  moreover have "ap_tasks (register_task em t b) \<noteq> ap_tasks a"
    using get fresh by (metis fun_upd_same option.distinct(1))
  moreover have "ap_spawned (register_task em t b) = ap_spawned a @ [?i]"
    by (simp add: register_frame b t_def new_task_def)
  moreover have "tk_task_id ?t = ?i \<and> tk_branch ?t = ts_branch s \<and> tk_prompt ?t = db_prompt body \<and> tk_seq ?t = 1
      \<and> \<not> tk_cancel ?t \<and> \<not> tk_finished ?t"
    by (simp add: t_def new_task_def i64_wrap_def)
  ultimately show ?thesis
    unfolding Let_def a' using True br by (auto intro!: exI [of _ ?t])
qed (simp add: dispatch_refused)

section \<open>Two dispatches at once\<close>

text \<open>The checks of a dispatch and its registration take the lock of the task table one after another. Two
  requests for the same new task that both pass the checks before either registers are both
  registered: the task is spawned twice, and the table keeps the second one only.\<close>

definition accepted :: "(string \<Rightarrow> string) \<Rightarrow> emitter \<Rightarrow> string \<Rightarrow> dispatch_body \<Rightarrow> app \<Rightarrow> app" where
  "accepted lc em i body a =
     snd (accept_task lc em i (requested_thread (ap_config a) body) (or_else (db_user_id body) (cfg_user_id (ap_config a))) body a)"

lemma branch_for_config: "ap_config b = ap_config a \<Longrightarrow> is_ok (branch_for lc i body b) = is_ok (branch_for lc i body a)"
  by (cases "session_branch lc (cfg_agent_branch_prefix (ap_config a)) (session_id (ap_config a) (requested_thread (ap_config a) body) i)
        (db_branch body) (db_thread_title body) (Some (db_prompt body))")
    (simp_all add: branch_for_def Let_def)

lemma accepted_registers:
  assumes "is_ok (branch_for lc i body a)"
  shows "ap_spawned (accepted lc em i body a) = ap_spawned a @ [i] \<and> ap_config (accepted lc em i body a) = ap_config a
    \<and> (\<exists>t. hm_get (ap_tasks (accepted lc em i body a)) i = Some t \<and> tk_prompt t = db_prompt body)"
proof -
  obtain r b where g: "get_or_create_session lc i (requested_thread (ap_config a) body)
      (or_else (db_user_id body) (cfg_user_id (ap_config a))) (db_branch body) (db_thread_title body)
      (Some (db_prompt body)) a = (r, b)" by fastforce
  from get_session_branch [OF g] assms obtain s where r: "r = Inr s" by (cases r) auto
  have "ap_config (register_task em t b) = ap_config b" for t by (simp add: register_task_def Let_def)
  then show ?thesis
    using get_session_frame [OF g] by (simp add: accepted_def accept_task_def g r Let_def register_frame new_task_def)
qed

lemma racing_dispatches_run_twice:
  assumes "admits lc i h body a" and "admits lc i h' body' a"
  shows "let b = accepted lc em' i body' (accepted lc em i body a)
     in ap_spawned b = ap_spawned a @ [i, i]
      \<and> (\<exists>t. hm_get (ap_tasks b) i = Some t \<and> tk_prompt t = db_prompt body')"
proof -
  have first: "is_ok (branch_for lc i body a)" and second: "is_ok (branch_for lc i body' a)"
    using assms by (simp_all add: admits_def)
  note registered = accepted_registers [OF first, of em]
  then have "is_ok (branch_for lc i body' (accepted lc em i body a))"
    using second branch_for_config by blast
  from accepted_registers [OF this, of em'] registered show ?thesis by (simp add: Let_def)
qed

end
