(* ===== verification/HttpApi_Stream.thy ===== *)
theory HttpApi_Stream
  imports HttpApi_Safety
begin

text \<open>
  The event stream over HTTP: the id a client reads with an event is the position it resumes from,
  so a reconnection continues behind the last event it has seen.
\<close>

section \<open>Event ids\<close>

lemma digits_head: "digits n = c # cs \<Longrightarrow> is_digit c"
  using digits_all_digits [of c n] by simp

lemma no_digit: "\<not> is_digit CHR ''+''" "\<not> is_digit CHR ''-''"
  by (simp_all add: is_digit_def code_def)

lemma all_digits: "list_all is_digit (digits n)"
  using digits_all_digits by (auto simp: list_all_iff)

lemma digits_parse: "n \<le> upper \<Longrightarrow> parse_uint upper (digits n) = Some n"
proof -
  assume n: "n \<le> upper"
  have "(case digits n of c # r \<Rightarrow> if c = CHR ''+'' then r else digits n | [] \<Rightarrow> digits n) = digits n"
    using no_digit(1) digits_head by (auto split: list.split)
  then show ?thesis using n all_digits by (simp add: parse_uint_def digits_value_digits)
qed

lemma parse_show: "- (2 ^ 63) \<le> i \<Longrightarrow> i < 2 ^ 63 \<Longrightarrow> parse_i64 (show_int i) = Some i"
proof (cases "i < 0")
  case True
  assume "- (2 ^ 63) \<le> i"
  then have "nat (- i) \<le> 2 ^ 63" by simp
  then show ?thesis using True all_digits by (simp add: parse_i64_def show_int_def digits_value_digits)
next
  case False
  assume "i < 2 ^ 63"
  then have "nat i \<le> 2 ^ 63 - 1" using False by simp
  then have p: "parse_uint (2 ^ 63 - 1) (digits (nat i)) = Some (nat i)" by (rule digits_parse)
  obtain c cs where d: "digits (nat i) = c # cs" by (cases "digits (nat i)") auto
  then have "c \<noteq> CHR ''-''" using digits_head no_digit(2) by auto
  then show ?thesis using False p d by (simp add: parse_i64_def show_int_def)
qed

section \<open>Reconnecting\<close>

text \<open>What a subscriber behind position \<open>n\<close> of a channel is sent.\<close>

definition behind :: "(nat \<Rightarrow> stored_event list) \<Rightarrow> int \<Rightarrow> task_channel \<Rightarrow> stored_event list" where
  "behind received n ch =
     filter (\<lambda>s. n < st_seq s) (ch_history ch) @ (if ch_done ch then [] else live_part (received (length (ch_sent ch))))"

lemma stream_behind:
  assumes "authorized (ap_config a) h" and "eb_tasks (ap_bus a) t = Some ch"
  shows "stream render received h t r a = Inr (map (sse_event_of render) (behind received (resume_after r h) ch))"
  using assms by (simp add: stream_def require_auth subscribe_def behind_def)

lemma live_part_done: "live_part ss = takeWhile (\<lambda>s. \<not> is_done_event s) ss @ take 1 (dropWhile (\<lambda>s. \<not> is_done_event s) ss)"
  by (induction ss) auto

text \<open>C21: the id printed with an event is the position its client resumes from: a reconnection whose
  Last-Event-ID is the id of an event it was sent is sent exactly the kept events of the task with a
  later sequence number, followed, if the task is not done, by what arrives live up to and including
  the done event; a position given in the query wins over the header, and without either
  everything kept from sequence number 0 on is sent.\<close>

theorem stream_resumes_behind_event:
  assumes "authorized (ap_config a) h" and "eb_tasks (ap_bus a) t = Some ch"
    and "- (2 ^ 63) \<le> st_seq e" and "st_seq e < 2 ^ 63"
    and "h ''last-event-id'' = (if reconnects then Some (ev_id (sse_event_of render e)) else None)"
  shows "stream render received h t query a =
    (let n = (case query of Some n \<Rightarrow> n | None \<Rightarrow> if reconnects then st_seq e else - 1);
         live = received (length (ch_sent ch))
     in Inr (map (sse_event_of render)
          (filter (\<lambda>s. n < st_seq s) (ch_history ch)
           @ (if ch_done ch then []
              else takeWhile (\<lambda>s. \<not> is_done_event s) live @ take 1 (dropWhile (\<lambda>s. \<not> is_done_event s) live)))))"
  using assms parse_show [of "st_seq e"]
  by (simp add: stream_behind resume_after_def or_else_def sse_event_of_def behind_def live_part_done Let_def
      split: option.split)

definition sample_event :: "int \<Rightarrow> string \<Rightarrow> stored_event" where
  "sample_event n k = \<lparr>st_seq = n, st_event = JObject [(''kind'', JString k)]\<rparr>"

definition sample_bus :: event_bus where
  "sample_bus = (event_bus_new None None ''/tmp'' ''s'')
     \<lparr>eb_tasks := [''t'' \<mapsto> \<lparr>ch_history = [sample_event 0 ''status'', sample_event 1 ''done''], ch_seqs = {0, 1},
        ch_sent = [sample_event 0 ''status'', sample_event 1 ''done''], ch_done = True\<rparr>]\<rparr>"

definition sample_headers :: headers where
  "sample_headers = (\<lambda>k. if k = ''x-server-auth'' then Some ''k'' else if k = ''last-event-id'' then Some ''0'' else None)"

lemma small_ids: "show_int 0 = ''0''" "show_int 1 = ''1''"
  by code_simp+

theorem stream_resumes_behind_event_witness:
  "stream (\<lambda>_. []) (\<lambda>_. []) sample_headers ''t'' None (sample_app (Some ''k'') sample_bus)
     = Inr [\<lparr>ev_id = ''1'', ev_event = ''done'', ev_data = []\<rparr>]"
proof -
  let ?a = "sample_app (Some ''k'') sample_bus"
  let ?ch = "\<lparr>ch_history = [sample_event 0 ''status'', sample_event 1 ''done''], ch_seqs = {0, 1},
        ch_sent = [sample_event 0 ''status'', sample_event 1 ''done''], ch_done = True\<rparr>"
  have auth: "authorized (ap_config ?a) sample_headers" by (simp add: authorized_def sample_headers_def)
  have ch: "eb_tasks (ap_bus ?a) ''t'' = Some ?ch" by (simp add: sample_app_def sample_bus_def)
  have id: "sample_headers ''last-event-id''
      = (if True then Some (ev_id (sse_event_of (\<lambda>_. []) (sample_event 0 ''status''))) else None)"
    by (simp add: sample_headers_def sse_event_of_def sample_event_def small_ids)
  have seq: "- (2 ^ 63) \<le> st_seq (sample_event 0 ''status'')" "st_seq (sample_event 0 ''status'') < 2 ^ 63"
    by (simp_all add: sample_event_def)
  from stream_resumes_behind_event [OF auth ch seq id, of "\<lambda>_. []" None] show ?thesis
    by (simp add: Let_def sample_event_def sse_event_of_def get_str_def small_ids)
qed

end
