(* ===== verification/HttpApi_Worker.thy ===== *)
theory HttpApi_Worker
  imports HttpApi
begin

text \<open>
  The worker as a system: requests, runs of spawned tasks on the machine of \<open>Exec\<close>, and garbage
  collection, in any order.
\<close>

section \<open>A task run inside the worker\<close>

text \<open>\<open>x\<close> holds the scripts of the run. The run reads its task, its session and the bus from the worker
  and leaves behind what it changed in them.\<close>

definition run_spawned :: "site \<Rightarrow> exec \<Rightarrow> string \<Rightarrow> app \<Rightarrow> app" where
  "run_spawned si x i a =
     (case hm_get (ap_tasks a) i of
        None \<Rightarrow> a
      | Some t \<Rightarrow>
          (case hm_get (ap_sessions a) (tk_session t) of
             None \<Rightarrow> a
           | Some s \<Rightarrow>
               let y = snd (run_task si (x\<lparr>x_task := t, x_session := s, x_bus := ap_bus a\<rparr>)) in
               map_session (\<lambda>s. s\<lparr>ts_ready := ts_ready (x_session y), ts_running_task_id := ts_running_task_id (x_session y)\<rparr>)
                 (tk_session t)
                 (map_task (\<lambda>t. t\<lparr>tk_cancel := tk_cancel (x_task y), tk_seq := tk_seq (x_task y),
                     tk_finished := tk_finished (x_task y), tk_cancelled := tk_cancelled (x_task y),
                     tk_finished_at := tk_finished_at (x_task y)\<rparr>) i
                   (a\<lparr>ap_bus := x_bus y\<rparr>))))"

datatype app_op =
    Http "unit outside" headers request_kind
  | Run_Spawned site exec string
  | Collect int int

fun app_step :: "app \<Rightarrow> app_op \<Rightarrow> app" where
  "app_step a (Http ou h req) = fst (snd (router ou h req (a, ())))"
| "app_step a (Run_Spawned si x i) = run_spawned si x i a"
| "app_step a (Collect now retain_ms) = snd (gc_finished now retain_ms a)"

definition app_start :: "config \<Rightarrow> event_bus \<Rightarrow> control_plane \<Rightarrow> string \<Rightarrow> string \<Rightarrow> app" where
  "app_start c b cp started instance_id =
     \<lparr>ap_config = c, ap_bus = b, ap_control_plane = cp, ap_sessions = [], ap_tasks = [],
      ap_started_at = started, ap_instance_id = instance_id, ap_spawned = []\<rparr>"

end
