(* ===== verification/Task_Steps.thy ===== *)
theory Task_Steps
  imports Orchestrator_Outcome EventBus_Replay
begin

text \<open>
  A run of a task as a sequence of small steps: each step emits one event or leaves everything that
  events touch alone, and none reopens a finished task. What holds initially and survives such a step
  holds after the run.
\<close>

section \<open>Programs inside a preorder\<close>

definition moves :: "('s \<Rightarrow> 's \<Rightarrow> bool) \<Rightarrow> ('s, 'e, 'a) action \<Rightarrow> bool" where
  "moves R m \<longleftrightarrow> (\<forall>s. R s (snd (m s)))"

lemma movesD: "moves R m \<Longrightarrow> R s (snd (m s))"
  by (simp add: moves_def)

text \<open>The contract: a relation that may be taken any number of times.\<close>

locale step_preorder =
  fixes R :: "'s \<Rightarrow> 's \<Rightarrow> bool"
  assumes stay: "R s s"
    and chain: "R s t \<Longrightarrow> R t u \<Longrightarrow> R s u"
begin

lemma moves_return: "moves R (io_return x)"
  by (simp add: moves_def io_return_def stay)

lemma moves_fail: "moves R (io_fail e)"
  by (simp add: moves_def io_fail_def stay)

lemma moves_get: "moves R (io_get f)"
  by (simp add: moves_def io_get_def stay)

lemma moves_do: "(\<And>s. R s (f s)) \<Longrightarrow> moves R (io_do f)"
  by (simp add: moves_def io_do_def)

lemma moves_bind:
  assumes m: "moves R m" and f: "\<And>x. moves R (f x)"
  shows "moves R (io_bind m f)"
proof -
  have "R s (snd (io_bind m f s))" for s
  proof (cases "m s")
    case (Pair r t)
    have "R s t" using movesD [OF m, of s] Pair by simp
    then show ?thesis
      using Pair f [THEN movesD, of t] by (cases r) (auto simp: io_bind_def intro: chain)
  qed
  then show ?thesis by (simp add: moves_def)
qed

lemma moves_map: "moves R m \<Longrightarrow> moves R (io_map g m)"
  unfolding io_map_def by (intro moves_bind moves_return)

lemma moves_catch:
  assumes "moves R m"
  shows "moves R (io_catch f m)"
proof -
  have "snd (io_catch f m s) = snd (m s)" for s
    by (auto simp: io_catch_def split: prod.split sum.split option.split)
  with assms show ?thesis by (simp add: moves_def)
qed

lemma moves_if: "moves R m \<Longrightarrow> moves R m' \<Longrightarrow> moves R (if b then m else m')"
  by simp

lemma moves_option: "moves R n \<Longrightarrow> (\<And>y. moves R (h y)) \<Longrightarrow> moves R (case opt of None \<Rightarrow> n | Some y \<Rightarrow> h y)"
  by (cases opt) simp_all

lemma moves_sum: "(\<And>e. moves R (n e)) \<Longrightarrow> (\<And>y. moves R (h y)) \<Longrightarrow> moves R (case r of Inl e \<Rightarrow> n e | Inr y \<Rightarrow> h y)"
  by (cases r) simp_all

lemma moves_prod: "(\<And>p q. moves R (h p q)) \<Longrightarrow> moves R (case r of (p, q) \<Rightarrow> h p q)"
  by (cases r) simp

lemma moves_each: "(\<And>x. moves R (f x)) \<Longrightarrow> moves R (io_each f xs)"
  by (induction xs) (auto intro: moves_return moves_bind)

lemma moves_lift: "moves R (io_lift r)"
  by (cases r) (simp_all add: io_lift_def moves_fail moves_return)

lemmas moves_rules = moves_return moves_fail moves_get moves_bind moves_map moves_catch moves_if moves_option
  moves_sum moves_prod moves_each moves_lift

lemma moves_foldl: "(\<And>x y. R x (f x y)) \<Longrightarrow> R x (foldl f x ys)"
  by (induction ys arbitrary: x) (auto intro: stay chain)

lemma moves_git:
  assumes "\<And>p args t. moves R (run p args t)"
  shows "moves R (git_quick run args)" "moves R (git_network run args)"
    "moves R (current_branch_with_cancel run)" "moves R (current_branch run)"
    "moves R (workspace_status run)" "moves R (fetch_remote_branch run branch depth)"
    "moves R (remote_branch_exists run branch)" "moves R (configure_identity run name email)"
    "moves R (add_workspace_changes run)" "moves R (git_commit run message)" "moves R (push_branch run branch)"
  unfolding git_quick_def git_network_def current_branch_with_cancel_def current_branch_def
    workspace_status_def fetch_remote_branch_def remote_branch_exists_def configure_identity_def
    add_workspace_changes_def git_commit_def push_branch_def
  by (intro moves_rules assms)+

end

section \<open>The steps of a task\<close>

definition emitted :: "act list \<Rightarrow> json list" where
  "emitted tr = List.map_filter (\<lambda>a. case a of Emitted j \<Rightarrow> Some j | _ \<Rightarrow> None) tr"

lemma emitted_simps [simp]:
  "emitted [] = []" "emitted (tr @ [Emitted j]) = emitted tr @ [j]"
  by (simp_all add: emitted_def map_filter_def)

type_synonym event_side = "event_bus \<times> json list \<times> string \<times> int"

definition event_side :: "exec \<Rightarrow> event_side" where
  "event_side x = (x_bus x, emitted (x_trace x), tk_task_id (x_task x), tk_seq (x_task x))"

definition fin :: "exec \<Rightarrow> bool" where
  "fin x \<longleftrightarrow> tk_finished (x_task x)"

definition unheard :: "exec \<Rightarrow> exec \<Rightarrow> bool" where
  "unheard x y \<longleftrightarrow> event_side y = event_side x \<and> (fin x \<longrightarrow> fin y)"

lemmas unheard_defs = unheard_def event_side_def fin_def

inductive tick :: "site \<Rightarrow> exec \<Rightarrow> exec \<Rightarrow> bool" for si where
  Emits: "tick si x (emit_now si ev x)"
| Silent: "unheard x y \<Longrightarrow> tick si x y"

abbreviation ticks :: "site \<Rightarrow> exec \<Rightarrow> exec \<Rightarrow> bool" where
  "ticks si \<equiv> (tick si)\<^sup>*\<^sup>*"

interpretation ticking: step_preorder "ticks si" for si
  by unfold_locales auto

lemma silent: "unheard x y \<Longrightarrow> ticks si x y"
  by (blast intro: tick.Silent)

lemma emits: "ticks si x (emit_now si ev x)"
  by (blast intro: tick.Emits)

definition silent_act :: "act \<Rightarrow> bool" where
  "silent_act a \<longleftrightarrow> (case a of Emitted j \<Rightarrow> False | _ \<Rightarrow> True)"

lemma emitted_silent [simp]: "silent_act a \<Longrightarrow> emitted (tr @ [a]) = emitted tr"
  by (cases a) (simp_all add: emitted_def map_filter_def silent_act_def)

lemma record_silent: "silent_act a \<Longrightarrow> ticks si x (record_act a x)"
  by (rule silent) (simp add: unheard_defs record_act_def)

lemma silent_acts [simp]:
  "silent_act (Command p args)" "silent_act (Claimed c)" "silent_act (Transition c s)" "silent_act (Replied b)"
  "silent_act (Renewed c b)" "silent_act (Agent_Started cmd)" "silent_act (Made_Dir d)" "silent_act (Wrote f s)"
  "silent_act (Publishing f)" "silent_act Cancel_Requested"
  by (simp_all add: silent_act_def)

lemmas tick_rules = ticking.moves_rules

lemma moves_record: "silent_act a \<Longrightarrow> moves (ticks si) (io_do (record_act a))"
  by (rule ticking.moves_do) (rule record_silent)

lemma moves_emit: "moves (ticks si) (emit_m si ev)"
  unfolding emit_m_def by (rule ticking.moves_do) (rule emits)

lemma moves_silent: "(\<And>x. unheard x (f x)) \<Longrightarrow> moves (ticks si) (io_do f)"
  by (rule ticking.moves_do) (rule silent)

lemma ticks_emit_line: "ticks si x (emit_line si line x)"
  unfolding emit_line_def by (rule ticking.moves_foldl) (rule emits)

lemma ticks_interrupt: "ticks si x (handle_interrupt si x i)"
proof (cases i)
  case Cancel_Request
  let ?y = "record_act Cancel_Requested (x\<lparr>x_task := (x_task x)\<lparr>tk_cancelled := True, tk_cancel := True\<rparr>\<rparr>)"
  have "ticks si x ?y" by (rule silent) (simp add: unheard_defs record_act_def)
  then show ?thesis
    using Cancel_Request by (auto simp: cancel_request_def intro: ticking.stay ticking.chain [OF _ emits])
next
  case (Renew_Tick w)
  have "unheard x (renew_tick si w x)"
    by (auto simp: renew_tick_def unheard_defs record_act_def split: option.splits sum.splits)
  with Renew_Tick show ?thesis by (simp add: silent)
next
  case (Late_Line line)
  then show ?thesis by (simp add: late_line_def ticking.stay ticks_emit_line)
qed

lemma ticks_interrupts: "ticks si x (foldl (handle_interrupt si) (x\<lparr>x_interrupts := i\<rparr>) is)"
  by (rule ticking.chain [OF silent ticking.moves_foldl [OF ticks_interrupt]]) (simp add: unheard_defs)

lemma moves_await: "moves (ticks si) (await si)"
  unfolding await_def next_interrupts_def by (rule ticking.moves_do) (simp add: ticks_interrupts)

lemma moves_preempt: "moves (ticks si) (preempt si)"
  unfolding preempt_def next_interrupts_def by (rule ticking.moves_do) (simp add: ticks_interrupts)

lemma moves_ensure: "moves (ticks si) (ensure_task_active si)"
  unfolding ensure_task_active_def by (intro tick_rules moves_preempt)

lemma moves_cancel_check: "moves (ticks si) (ensure_cancel_active si c)"
  unfolding ensure_cancel_active_def by (intro tick_rules moves_preempt)

lemma moves_answer:
  "(\<And>x. unheard x (snd (m x))) \<Longrightarrow> moves (ticks si) m"
  by (simp add: moves_def silent)

lemma moves_next_call: "moves (ticks si) next_call"
  by (rule moves_answer) (simp add: next_call_def unheard_defs)

lemma moves_file_call: "moves (ticks si) (file_call si)"
  unfolding file_call_def by (intro tick_rules moves_await moves_answer) (simp add: unheard_defs)

lemma moves_child: "moves (ticks si) (run_child si c program args t)"
  unfolding run_child_def
  by (intro tick_rules moves_await moves_record moves_answer) (simp_all add: unheard_defs Let_def)

lemmas moves_calls = ticking.moves_git [where run = "run_child si c" and si = si for si c, OF moves_child]

lemma moves_renew: "moves (ticks si) (renew_m si c)"
  unfolding renew_m_def Let_def by (intro tick_rules moves_await moves_next_call moves_record) simp

lemma moves_transition: "moves (ticks si) (transition_m si c s)"
  unfolding transition_m_def Let_def by (intro tick_rules moves_await moves_next_call moves_record) simp_all

lemma moves_claim: "moves (ticks si) (claim_m si w)"
  unfolding claim_m_def by (intro tick_rules moves_await moves_next_call moves_record) simp

lemmas tick_steps = tick_rules moves_record moves_emit moves_await moves_preempt moves_ensure moves_cancel_check
  moves_file_call moves_child moves_calls moves_renew moves_transition moves_claim

section \<open>The run\<close>

lemma moves_set_ready: "moves (ticks si) set_ready"
  unfolding set_ready_def by (rule moves_silent) (simp add: unheard_defs)

lemma moves_prepare: "moves (ticks si) (prepare_session_workspace_inner si c)"
  unfolding prepare_session_workspace_inner_def Let_def identity_m_def switch_source_def checked_out_branch_def
    switch_if_needed_def
  by (intro tick_steps moves_set_ready)

lemma moves_agent: "moves (ticks si) (run_agent si)"
proof -
  have line: "moves (ticks si) (io_do (emit_line si l))" for l by (rule ticking.moves_do) (rule ticks_emit_line)
  have readers: "moves (ticks si) (io_do (\<lambda>x. x\<lparr>x_readers := r\<rparr>))" for r
    by (rule moves_silent) (simp add: unheard_defs)
  show ?thesis
    unfolding run_agent_def Let_def by (intro tick_steps line readers) simp
qed

lemma moves_edit: "moves (ticks si) (deterministic_edit si)"
  unfolding deterministic_edit_def apply_deterministic_append_def Let_def file_result_def
  by (intro tick_steps) simp_all

lemma moves_stage: "moves (ticks si) (stage_and_push si claim)"
  unfolding stage_and_push_def commit_and_push_def by (intro tick_steps)

lemma moves_publish: "moves (ticks si) (publish_artifacts si)"
  unfolding publish_artifacts_def publish_output_def by (intro tick_steps) simp

lemma moves_lifecycle: "moves (ticks si) (run_task_lifecycle si claim)"
  unfolding run_task_lifecycle_def by (intro tick_steps moves_edit moves_agent moves_stage moves_publish)

lemma moves_report: "moves (ticks si) (report_end si c execution terminal)"
proof -
  have "moves (ticks si) (recover_rejected si c e)" for e
    unfolding recover_rejected_def by (intro tick_steps)
  then show ?thesis
    unfolding report_end_def by (intro tick_steps)
qed

lemma moves_claimed: "moves (ticks si) (run_claimed_lifecycle si claim)"
proof -
  have keep: "moves (ticks si) (io_do (\<lambda>x. x\<lparr>x_keep := k, x_lost := l\<rparr>))" "moves (ticks si) (io_do (\<lambda>x. x\<lparr>x_keep := k\<rparr>))"
    for k l by (rule moves_silent; simp add: unheard_defs)+
  show ?thesis
    unfolding run_claimed_lifecycle_def claimed_execution_def
    by (intro tick_steps keep moves_lifecycle moves_report)
qed

lemma moves_inner: "moves (ticks si) (run_task_inner si)"
  unfolding run_task_inner_def run_claimed_def with_claim_def start_claimed_def abandon_claim_def
  by (intro tick_steps moves_prepare moves_lifecycle moves_claimed)

lemma moves_finish: "moves (ticks si) (finish_task si reason)"
proof -
  have "moves (ticks si) (io_do (\<lambda>x. x\<lparr>x_task := (x_task x)\<lparr>tk_finished := True, tk_finished_at := Some (fst (x_clock x 0))\<rparr>,
      x_clock := (\<lambda>n. x_clock x (Suc n))\<rparr>))" by (rule moves_silent) (simp add: unheard_defs)
  then show ?thesis unfolding finish_task_def by (intro tick_steps)
qed

lemma moves_run: "moves (ticks si) (run_task si)"
proof -
  have running: "moves (ticks si) (io_do (\<lambda>x. set_running (r x) x))" for r
    by (rule moves_silent) (simp add: unheard_defs set_running_def)
  have release: "moves (ticks si) release_session"
    unfolding release_session_def by (rule moves_silent) (simp add: unheard_defs set_running_def)
  show ?thesis
    unfolding run_task_def exit_reason_def by (intro tick_steps running release moves_inner moves_finish)
qed

lemma run_ticks: "ticks si x (snd (run_task si x))"
  by (rule movesD [OF moves_run])

text \<open>A finished task stays finished.\<close>

lemma tick_fin: "tick si x y \<Longrightarrow> fin x \<Longrightarrow> fin y"
  by (auto elim!: tick.cases simp: unheard_def fin_def)

lemma run_task_fin: "fin x \<Longrightarrow> fin (snd (run_task si x))"
  using run_ticks [of si x] by (induction rule: rtranclp_induct) (auto intro: tick_fin)

end
