(* ===== verification/Worker_Invariant.thy ===== *)
theory Worker_Invariant
  imports HttpApi_Safety HttpApi_Worker Task_Steps
begin

text \<open>
  The invariant of the worker over any sequence of requests, task runs and collections: the task map
  and the session map point at each other, and fewer than the limit of tasks are live. On top of it,
  what a collection removes.
\<close>

section \<open>Tasks and sessions linked to each other\<close>

definition linked :: "(string, task_state) hmap \<Rightarrow> (string, thread_session) hmap \<Rightarrow> bool" where
  "linked T S \<longleftrightarrow> hm_wf T \<and> hm_wf S
     \<and> (\<forall>i t. hm_get T i = Some t \<longrightarrow>
          tk_task_id t = i \<and> (\<exists>s. hm_get S (tk_session t) = Some s \<and> i \<in> set (ts_task_ids s)))
     \<and> (\<forall>k s. hm_get S k = Some s \<longrightarrow>
          ts_session_id s = k \<and> (\<forall>i \<in> set (ts_task_ids s). \<exists>t. hm_get T i = Some t \<and> tk_session t = k))"

lemma linked_empty: "linked [] []"
  by (simp add: linked_def)

lemma linked_wf: "linked T S \<Longrightarrow> hm_wf T" "linked T S \<Longrightarrow> hm_wf S"
  by (simp_all add: linked_def)

lemma linked_taskD: "linked T S \<Longrightarrow> hm_get T i = Some t \<Longrightarrow>
    tk_task_id t = i \<and> (\<exists>s. hm_get S (tk_session t) = Some s \<and> i \<in> set (ts_task_ids s))"
  by (simp add: linked_def)

lemma linked_sessionD: "linked T S \<Longrightarrow> hm_get S k = Some s \<Longrightarrow>
    ts_session_id s = k \<and> (\<forall>i \<in> set (ts_task_ids s). \<exists>t. hm_get T i = Some t \<and> tk_session t = k)"
  by (simp add: linked_def)

lemma linkedI:
  assumes "hm_wf T" and "hm_wf S"
    and "\<And>i t. hm_get T i = Some t \<Longrightarrow>
          tk_task_id t = i \<and> (\<exists>s. hm_get S (tk_session t) = Some s \<and> i \<in> set (ts_task_ids s))"
    and "\<And>k s i. hm_get S k = Some s \<Longrightarrow> ts_session_id s = k"
    and "\<And>k s i. hm_get S k = Some s \<Longrightarrow> i \<in> set (ts_task_ids s) \<Longrightarrow> \<exists>t. hm_get T i = Some t \<and> tk_session t = k"
  shows "linked T S"
  using assms by (simp add: linked_def)

lemma linked_task:
  assumes "linked T S" "hm_get T i = Some t" "tk_task_id u = tk_task_id t" "tk_session u = tk_session t"
  shows "linked (hm_insert i u T) S"
  by (rule linkedI) (use assms linked_wf [OF assms(1)] linked_taskD [OF assms(1)] linked_sessionD [OF assms(1)] in
      \<open>force split: if_splits\<close>)+

lemma linked_session:
  assumes "linked T S" "hm_get S k = Some s" "ts_session_id u = ts_session_id s" "ts_task_ids u = ts_task_ids s"
  shows "linked T (hm_insert k u S)"
  by (rule linkedI) (use assms linked_wf [OF assms(1)] linked_taskD [OF assms(1)] linked_sessionD [OF assms(1)] in
      \<open>force split: if_splits\<close>)+

lemma linked_new_session:
  assumes "linked T S" "hm_get S k = None" "ts_session_id u = k" "ts_task_ids u = []"
  shows "linked T (hm_insert k u S)"
  by (rule linkedI) (use assms linked_wf [OF assms(1)] linked_taskD [OF assms(1)] linked_sessionD [OF assms(1)] in
      \<open>force split: if_splits\<close>)+

lemma linked_register:
  assumes "linked T S" "hm_get T (tk_task_id t) = None" "hm_get S (tk_session t) = Some s"
    and "ts_session_id u = ts_session_id s" "ts_task_ids u = ts_task_ids s @ [tk_task_id t]"
  shows "linked (hm_insert (tk_task_id t) t T) (hm_insert (tk_session t) u S)"
proof (rule linkedI)
  fix i v
  assume "hm_get (hm_insert (tk_task_id t) t T) i = Some v"
  then show "tk_task_id v = i \<and> (\<exists>s. hm_get (hm_insert (tk_session t) u S) (tk_session v) = Some s \<and> i \<in> set (ts_task_ids s))"
    using assms linked_taskD [OF assms(1), of i v] by (auto split: if_splits)
next
  fix k v i
  assume "hm_get (hm_insert (tk_session t) u S) k = Some v" "i \<in> set (ts_task_ids v)"
  then show "\<exists>w. hm_get (hm_insert (tk_task_id t) t T) i = Some w \<and> tk_session w = k"
    using assms linked_sessionD [OF assms(1), of k] by (force split: if_splits)
qed (use assms linked_wf [OF assms(1)] linked_sessionD [OF assms(1)] in \<open>auto split: if_splits\<close>)

lemma linked_collect:
  assumes "linked T S" "hm_get T i = Some t" "hm_get S (tk_session t) = Some s"
    and "ts_session_id u = ts_session_id s" "ts_task_ids u = filter (\<lambda>x. x \<noteq> i) (ts_task_ids s)"
  shows "linked (hm_remove i T) (hm_insert (tk_session t) u S)"
proof (rule linkedI)
  fix j v
  assume "hm_get (hm_remove i T) j = Some v"
  then show "tk_task_id v = j \<and> (\<exists>s. hm_get (hm_insert (tk_session t) u S) (tk_session v) = Some s \<and> j \<in> set (ts_task_ids s))"
    using assms linked_taskD [OF assms(1), of j v] by (auto split: if_splits)
next
  fix k v j
  assume "hm_get (hm_insert (tk_session t) u S) k = Some v" "j \<in> set (ts_task_ids v)"
  then show "\<exists>w. hm_get (hm_remove i T) j = Some w \<and> tk_session w = k"
    using assms linked_sessionD [OF assms(1), of k] by (force split: if_splits)
qed (use assms linked_wf [OF assms(1)] linked_sessionD [OF assms(1)] in \<open>auto split: if_splits\<close>)

lemma linked_retain:
  assumes "linked T S" "\<And>k s. ts_task_ids s \<noteq> [] \<Longrightarrow> P k s"
  shows "linked T (hm_retain P S)"
proof (rule linkedI)
  note get = hm_get_retain [OF linked_wf(2) [OF assms(1)], of P]
  show "tk_task_id t = i \<and> (\<exists>s. hm_get (hm_retain P S) (tk_session t) = Some s \<and> i \<in> set (ts_task_ids s))"
    if task: "hm_get T i = Some t" for i t
  proof -
    obtain s where s: "hm_get S (tk_session t) = Some s" "i \<in> set (ts_task_ids s)" and "tk_task_id t = i"
      using linked_taskD [OF assms(1) task] by blast
    then have "P (tk_session t) s" by (intro assms(2)) auto
    with s \<open>tk_task_id t = i\<close> show ?thesis unfolding get by simp
  qed
  show "ts_session_id s = k" if "hm_get (hm_retain P S) k = Some s" for k s
    using that linked_sessionD [OF assms(1)] unfolding get by (auto split: option.splits if_splits)
  show "\<exists>t. hm_get T i = Some t \<and> tk_session t = k"
    if "hm_get (hm_retain P S) k = Some s" "i \<in> set (ts_task_ids s)" for k s i
    using that linked_sessionD [OF assms(1)] unfolding get by (auto split: option.splits if_splits)
qed (use linked_wf [OF assms(1)] in simp_all)

section \<open>Counting the live tasks\<close>

definition live :: "(string, task_state) hmap \<Rightarrow> nat" where
  "live T = length (filter (\<lambda>e. \<not> tk_finished (snd e)) T)"

lemma live_tasks_live: "live_tasks a = live (ap_tasks a)"
  by (simp add: live_tasks_def live_def hm_values_def is_finished_def filter_map comp_def)

lemma live_insert_new: "hm_get T i = None \<Longrightarrow> live (hm_insert i t T) \<le> Suc (live T)"
proof -
  assume "hm_get T i = None"
  then have "i \<notin> fst ` set T" by (simp add: hm_get_def map_of_eq_None_iff)
  then have "hm_insert i t T = T @ [(i, t)]"
    unfolding hm_insert_def by (induction T) auto
  then show ?thesis by (simp add: live_def)
qed

lemma live_insert: "hm_get T i = Some t \<Longrightarrow> (tk_finished t \<Longrightarrow> tk_finished u) \<Longrightarrow> live (hm_insert i u T) \<le> live T"
proof (induction T)
  case (Cons e T)
  show ?case
  proof (cases "fst e = i")
    case True
    with Cons.prems show ?thesis by (cases e) (auto simp: live_def hm_insert_def hm_get_def)
  next
    case False
    with Cons show ?thesis by (cases e) (auto simp: live_def hm_insert_def hm_get_def)
  qed
qed simp

lemma live_remove: "live (hm_remove i T) \<le> live T"
  unfolding live_def hm_remove_def by (induction T) auto

section \<open>Every step keeps them\<close>

definition app_ok :: "app \<Rightarrow> bool" where
  "app_ok a \<longleftrightarrow> linked (ap_tasks a) (ap_sessions a) \<and> live (ap_tasks a) \<le> max_active_tasks"

lemma app_okI: "linked (ap_tasks a) (ap_sessions a) \<Longrightarrow> live (ap_tasks a) \<le> max_active_tasks \<Longrightarrow> app_ok a"
  by (simp add: app_ok_def)

lemma map_task_frame [simp]:
  "ap_sessions (map_task f i a) = ap_sessions a" "ap_config (map_task f i a) = ap_config a"
  "ap_bus (map_task f i a) = ap_bus a"
  by (simp_all add: map_task_def split: option.split)

lemma ok_frame:
  "ap_tasks b = ap_tasks a \<Longrightarrow> ap_sessions b = ap_sessions a \<Longrightarrow> app_ok b = app_ok a"
  by (simp add: app_ok_def)

lemma map_task_ok [wf_intros]:
  assumes "app_ok a"
    and "\<And>t. tk_task_id (f t) = tk_task_id t \<and> tk_session (f t) = tk_session t"
    and "\<And>t. hm_get (ap_tasks a) i = Some t \<Longrightarrow> tk_finished t \<Longrightarrow> tk_finished (f t)"
  shows "app_ok (map_task f i a)"
proof (cases "hm_get (ap_tasks a) i")
  case (Some t)
  have "linked (hm_insert i (f t) (ap_tasks a)) (ap_sessions a)"
    using assms(1,2) Some by (intro linked_task) (auto simp: app_ok_def)
  moreover have "live (hm_insert i (f t) (ap_tasks a)) \<le> live (ap_tasks a)"
    by (rule live_insert [OF Some assms(3) [OF Some]])
  ultimately show ?thesis using assms(1) Some by (simp add: app_ok_def map_task_def)
qed (use assms(1) in \<open>simp add: map_task_def\<close>)

lemma map_session_ok [wf_intros]:
  assumes "app_ok a" and "\<And>s. ts_session_id (f s) = ts_session_id s \<and> ts_task_ids (f s) = ts_task_ids s"
  shows "app_ok (map_session f k a)"
proof (cases "hm_get (ap_sessions a) k")
  case (Some s)
  then have "linked (ap_tasks a) (hm_insert k (f s) (ap_sessions a))"
    using assms by (intro linked_session) (auto simp: app_ok_def)
  then show ?thesis using assms(1) Some by (simp add: app_ok_def map_session_def)
qed (use assms(1) in \<open>simp add: map_session_def\<close>)

lemma app_emit_ok [wf_intros]:
  assumes "app_ok a"
  shows "app_ok (app_emit em i ev a)"
proof (cases "hm_get (ap_tasks a) i")
  case (Some t)
  obtain t' b where e: "emit_task em ev (t, ap_bus a) = (t', b)" by fastforce
  then have t': "t' = t\<lparr>tk_seq := i64_wrap (tk_seq t + 1)\<rparr>" by (rule emit_task_flags)
  have "app_ok (map_task (\<lambda>t. t\<lparr>tk_seq := i64_wrap (tk_seq t + 1)\<rparr>) i a)"
    by (rule map_task_ok [OF assms]) simp_all
  then show ?thesis by (simp add: app_ok_def app_emit_def map_task_def Some e t')
qed (use assms in \<open>simp add: app_emit_def\<close>)

lemma get_session_ok:
  assumes "app_ok a" and "get_or_create_session lc i th us bh ti ph a = (r, b)"
  shows "app_ok b \<and> (\<forall>s. r = Inr s \<longrightarrow> hm_get (ap_sessions b) (ts_session_id s) = Some s)"
proof -
  have id: "hm_get (ap_sessions a) k = Some s \<Longrightarrow> ts_session_id s = k" for k s
    using assms(1) linked_sessionD by (auto simp: app_ok_def)
  have new: "linked (ap_tasks a) (hm_insert k (new_session c k u br) (ap_sessions a))"
    if "hm_get (ap_sessions a) k = None" for k c u br
    using assms(1) that by (intro linked_new_session) (simp_all add: app_ok_def new_session_def)
  show ?thesis
    using assms new id
    by (auto simp: get_or_create_session_def Let_def app_ok_def new_session_def split: sum.splits option.splits)
qed

lemma register_ok:
  assumes "app_ok a" and "hm_get (ap_tasks a) (tk_task_id t) = None" and "live (ap_tasks a) < max_active_tasks"
    and "hm_get (ap_sessions a) (tk_session t) = Some s"
  shows "app_ok (register_task em t a)"
proof -
  let ?i = "tk_task_id t"
  let ?u = "s\<lparr>ts_task_ids := ts_task_ids s @ [?i]\<rparr>"
  let ?b = "a\<lparr>ap_sessions := hm_insert (tk_session t) ?u (ap_sessions a), ap_tasks := hm_insert ?i t (ap_tasks a)\<rparr>"
  have "linked (hm_insert ?i t (ap_tasks a)) (hm_insert (tk_session t) ?u (ap_sessions a))"
    using assms by (intro linked_register) (simp_all add: app_ok_def)
  moreover have "live (hm_insert ?i t (ap_tasks a)) \<le> max_active_tasks"
    using live_insert_new [OF assms(2), of t] assms(3) by linarith
  ultimately have "app_ok ?b" by (simp add: app_ok_def)
  then have "app_ok (app_emit em ?i (queued_event (tk_session t))
      (map_session (\<lambda>s. s\<lparr>ts_queued_task_ids := ts_queued_task_ids s @ [?i]\<rparr>) (tk_session t) ?b))"
    by (intro app_emit_ok map_session_ok) simp_all
  moreover have "map_session (\<lambda>s. s\<lparr>ts_task_ids := ts_task_ids s @ [?i]\<rparr>) (tk_session t) a
      \<lparr>ap_tasks := hm_insert ?i t (ap_tasks a)\<rparr> = ?b"
    using assms(4) by (simp add: map_session_def)
  ultimately show ?thesis
    unfolding register_task_def Let_def by (simp add: app_ok_def)
qed

lemma dispatch_ok [wf_intros]:
  assumes "app_ok a"
  shows "app_ok (snd (dispatch_task lc em u h body a))"
proof (cases "admits lc (requested_task u body) h body a")
  case True
  let ?i = "requested_task u body"
  obtain r b where g: "get_or_create_session lc ?i (requested_thread (ap_config a) body)
      (or_else (db_user_id body) (cfg_user_id (ap_config a))) (db_branch body) (db_thread_title body)
      (Some (db_prompt body)) a = (r, b)" by fastforce
  have b: "app_ok b" "\<And>s. r = Inr s \<Longrightarrow> hm_get (ap_sessions b) (ts_session_id s) = Some s" "ap_tasks b = ap_tasks a"
    using get_session_ok [OF assms g] get_session_frame [OF g] by auto
  show ?thesis
  proof (cases r)
    case (Inr s)
    have "app_ok (register_task em t b)" if "tk_task_id t = ?i" "tk_session t = ts_session_id s" for t
      using True b Inr that by (intro register_ok [of b t s]) (simp_all add: admits_def live_tasks_live)
    then show ?thesis
      unfolding dispatch_admitted [OF True] by (simp add: accept_task_def g Inr Let_def new_task_def)
  qed (use b in \<open>simp add: dispatch_admitted [OF True] accept_task_def g\<close>)
qed (use assms in \<open>simp add: dispatch_refused\<close>)

lemma cancel_ok [wf_intros]: "app_ok a \<Longrightarrow> app_ok (snd (cancel_task em h i a))"
  by (auto simp: cancel_task_def with_auth split: option.split intro!: app_emit_ok map_task_ok)

lemma list_ok: "snd (list_tasks h a) = a"
  by (simp add: list_tasks_def with_auth)

lemma router_ok: "app_ok a \<Longrightarrow> app_ok (fst (snd (router ou h req (a, s))))"
  by (cases req) (auto simp: case_prod_beta list_ok intro: cancel_ok dispatch_ok)

lemma run_spawned_ok: "app_ok a \<Longrightarrow> app_ok (run_spawned si x i a)"
proof -
  assume ok: "app_ok a"
  show ?thesis
  proof (cases "hm_get (ap_tasks a) i")
    case (Some t)
    then show ?thesis
    proof (cases "hm_get (ap_sessions a) (tk_session t)")
      case (Some s)
      define y where "y = snd (run_task si (x\<lparr>x_task := t, x_session := s, x_bus := ap_bus a\<rparr>))"
      have fin: "tk_finished t \<Longrightarrow> tk_finished (x_task y)"
        using run_task_fin [of "x\<lparr>x_task := t, x_session := s, x_bus := ap_bus a\<rparr>" si] by (simp add: fin_def y_def)
      have "app_ok (a\<lparr>ap_bus := x_bus y\<rparr>)" using ok by (simp add: app_ok_def)
      then show ?thesis
        unfolding run_spawned_def \<open>hm_get (ap_tasks a) i = Some t\<close> Some option.case y_def [symmetric] Let_def
        by (intro map_session_ok map_task_ok) (use fin \<open>hm_get (ap_tasks a) i = Some t\<close> in auto)
    qed (use ok in \<open>simp add: run_spawned_def\<close>)
  qed (use ok in \<open>simp add: run_spawned_def\<close>)
qed

section \<open>Collection\<close>

lemma gc_one_tasks: "ap_tasks (gc_one i a) = hm_remove i (ap_tasks a)"
  by (simp add: gc_one_def Let_def hm_remove_absent split: option.split)

lemma gc_one_ok: "app_ok a \<Longrightarrow> app_ok (gc_one i a)"
proof -
  assume ok: "app_ok a"
  show ?thesis
  proof (cases "hm_get (ap_tasks a) i")
    case (Some t)
    then obtain s where s: "hm_get (ap_sessions a) (tk_session t) = Some s"
      using ok linked_taskD by (fastforce simp: app_ok_def)
    have "linked (hm_remove i (ap_tasks a))
        (hm_insert (tk_session t) (s\<lparr>ts_task_ids := filter (\<lambda>x. x \<noteq> i) (ts_task_ids s)\<rparr>) (ap_sessions a))"
      using ok Some s by (intro linked_collect) (simp_all add: app_ok_def)
    moreover have "live (hm_remove i (ap_tasks a)) \<le> max_active_tasks"
      using ok live_remove [of i "ap_tasks a"] by (simp add: app_ok_def)
    ultimately show ?thesis by (simp add: app_ok_def gc_one_def Let_def Some map_session_def s)
  qed (use ok in \<open>simp add: app_ok_def gc_one_def\<close>)
qed

interpretation collecting: step_system "\<lambda>a i. gc_one i a" app_ok
  by unfold_locales (rule gc_one_ok)

lemma gc_all_tasks: "hm_get (ap_tasks (foldl (\<lambda>a i. gc_one i a) a ids)) j =
    (if j \<in> set ids then None else hm_get (ap_tasks a) j)"
  by (induction ids arbitrary: a) (auto simp: gc_one_tasks)

text \<open>A collected task leaves its session in place, and its running mark.\<close>

definition running :: "app \<Rightarrow> string \<Rightarrow> string option option" where
  "running a k = map_option ts_running_task_id (hm_get (ap_sessions a) k)"

lemma gc_one_running: "running (gc_one i a) k = running a k"
  by (auto simp: running_def gc_one_def Let_def map_session_def split: option.split)

lemma gc_all_running: "running (foldl (\<lambda>a i. gc_one i a) a ids) k = running a k"
  by (induction ids arbitrary: a) (simp_all add: gc_one_running)

definition keep_session :: "thread_session \<Rightarrow> bool" where
  "keep_session s \<longleftrightarrow> ts_task_ids s \<noteq> [] \<or> ts_running_task_id s \<noteq> None"

definition expired_ids :: "int \<Rightarrow> app \<Rightarrow> string list" where
  "expired_ids cutoff a = map tk_task_id (filter (expired cutoff) (hm_values (ap_tasks a)))"

definition cutoff :: "int \<Rightarrow> int \<Rightarrow> int" where
  "cutoff now retain_ms = i64_wrap (now - max retain_ms 0)"

definition collected :: "int \<Rightarrow> app \<Rightarrow> app" where
  "collected c a = foldl (\<lambda>a i. gc_one i a) a (expired_ids c a)"

lemma gc_finished_app:
  "snd (gc_finished now retain_ms a) =
     (let b = collected (cutoff now retain_ms) a
      in b\<lparr>ap_sessions := hm_retain (\<lambda>_. keep_session) (ap_sessions b)\<rparr>)"
  by (simp add: gc_finished_def Let_def collected_def expired_ids_def cutoff_def keep_session_def [abs_def])

lemma collected_ok: "app_ok a \<Longrightarrow> app_ok (collected c a)"
  unfolding collected_def by (rule collecting.run_inv)

lemma gc_finished_ok: "app_ok a \<Longrightarrow> app_ok (snd (gc_finished now retain_ms a))"
  using collected_ok [of a "cutoff now retain_ms"]
  by (auto simp: gc_finished_app Let_def app_ok_def keep_session_def intro: linked_retain)

lemma expired_ids_iff:
  assumes "app_ok a"
  shows "j \<in> set (expired_ids c a) \<longleftrightarrow> (\<exists>t. hm_get (ap_tasks a) j = Some t \<and> expired c t)"
proof -
  have wf: "hm_wf (ap_tasks a)" using assms unfolding app_ok_def by (auto intro: linked_wf)
  have id: "(k, t) \<in> set (ap_tasks a) \<Longrightarrow> tk_task_id t = k" for k t
    using assms linked_taskD [of "ap_tasks a" "ap_sessions a" k t] by (simp add: app_ok_def hm_get_in [OF wf])
  show ?thesis
    unfolding expired_ids_def hm_values_def hm_get_in [OF wf] using id by force
qed

lemma collected_tasks:
  assumes "app_ok a"
  shows "hm_get (ap_tasks (collected c a)) i =
    (case hm_get (ap_tasks a) i of None \<Rightarrow> None | Some t \<Rightarrow> if expired c t then None else Some t)"
  by (auto simp: collected_def gc_all_tasks expired_ids_iff [OF assms] split: option.split)

text \<open>A linked session has tasks exactly if some task names it.\<close>

lemma linked_tasks_of:
  assumes "linked T S" and "hm_get S k = Some s"
  shows "ts_task_ids s \<noteq> [] \<longleftrightarrow> (\<exists>i t. hm_get T i = Some t \<and> tk_session t = k)"
proof
  assume "ts_task_ids s \<noteq> []"
  then have "hd (ts_task_ids s) \<in> set (ts_task_ids s)" by simp
  then show "\<exists>i t. hm_get T i = Some t \<and> tk_session t = k" using linked_sessionD [OF assms] by blast
next
  assume "\<exists>i t. hm_get T i = Some t \<and> tk_session t = k"
  then show "ts_task_ids s \<noteq> []" using linked_taskD [OF assms(1)] assms(2) by fastforce
qed

section \<open>Whole histories\<close>

lemma app_start_ok: "app_ok (app_start c b cp st inst)"
  by (simp add: app_ok_def app_start_def linked_empty live_def)

interpretation serving: step_system app_step app_ok
proof
  show "app_ok (app_step a e)" if "app_ok a" for a e
    using that by (cases e) (simp_all add: router_ok run_spawned_ok gc_finished_ok)
qed

lemma served_ok: "app_ok (foldl app_step (app_start c b cp st inst) ops)"
  by (rule serving.run_inv) (rule app_start_ok)


text \<open>C24: a collection, at any time, removes exactly the tasks that finished before the retention cutoff, and
  of the sessions keeps exactly those that a remaining task names or a task is running in.\<close>

theorem gc_reclaims:
  "let a = foldl app_step (app_start c b cp st inst) ops;
       a' = snd (gc_finished now retain_ms a)
   in hm_get (ap_tasks a') =
        (\<lambda>i. case hm_get (ap_tasks a) i of
               None \<Rightarrow> None
             | Some t \<Rightarrow> if expired (i64_wrap (now - max retain_ms 0)) t then None else Some t)
      \<and> dom (hm_get (ap_sessions a')) =
        {k \<in> dom (hm_get (ap_sessions a)).
           (case running a k of Some (Some i) \<Rightarrow> True | _ \<Rightarrow> (\<exists>i t. hm_get (ap_tasks a') i = Some t \<and> tk_session t = k))}"
proof -
  define a where "a = foldl app_step (app_start c b cp st inst) ops"
  define d where "d = collected (cutoff now retain_ms) a"
  have ok: "app_ok a" unfolding a_def by (rule served_ok)
  have l: "linked (ap_tasks d) (ap_sessions d)" using collected_ok [OF ok] by (simp add: d_def app_ok_def)
  have a': "snd (gc_finished now retain_ms a) = d\<lparr>ap_sessions := hm_retain (\<lambda>_. keep_session) (ap_sessions d)\<rparr>"
    by (simp add: gc_finished_app Let_def d_def)
  have run: "running d k = running a k" for k unfolding d_def collected_def by (rule gc_all_running)
  have dom: "k \<in> dom (hm_get (ap_sessions a)) \<longleftrightarrow> running a k \<noteq> None" for k by (auto simp: running_def)
  have "k \<in> dom (hm_get (hm_retain (\<lambda>_. keep_session) (ap_sessions d))) \<longleftrightarrow> running a k \<noteq> None
      \<and> (case running a k of Some (Some i) \<Rightarrow> True | _ \<Rightarrow> (\<exists>i t. hm_get (ap_tasks d) i = Some t \<and> tk_session t = k))" for k
    unfolding run [symmetric] using linked_tasks_of [OF l, of k]
    by (auto simp: hm_get_retain [OF linked_wf(2) [OF l]] running_def keep_session_def dom_def
        split: option.splits if_splits)
  then have sessions: "dom (hm_get (hm_retain (\<lambda>_. keep_session) (ap_sessions d))) = {k \<in> dom (hm_get (ap_sessions a)).
      (case running a k of Some (Some i) \<Rightarrow> True | _ \<Rightarrow> (\<exists>i t. hm_get (ap_tasks d) i = Some t \<and> tk_session t = k))}"
    unfolding dom by blast
  have tasks: "hm_get (ap_tasks d) = (\<lambda>i. case hm_get (ap_tasks a) i of
        None \<Rightarrow> None
      | Some t \<Rightarrow> if expired (i64_wrap (now - max retain_ms 0)) t then None else Some t)"
    unfolding d_def by (rule ext) (simp add: collected_tasks [OF ok] cutoff_def)
  have parts: "ap_tasks (d\<lparr>ap_sessions := S\<rparr>) = ap_tasks d" "ap_sessions (d\<lparr>ap_sessions := S\<rparr>) = S" for S
    by simp_all
  from sessions tasks show ?thesis
    unfolding Let_def a_def [symmetric] a' parts by blast
qed

end
