(* ===== verification/Task_Stream.thy ===== *)
theory Task_Stream
  imports Task_Steps Worker_Invariant
begin

text \<open>
  What a task emits is what its subscribers are sent: the worker numbers the events of a task
  without a gap, so the bus never takes one of them for a duplicate, and a run extends the channel of
  its task, and no other, by what it emitted.
\<close>

section \<open>Numbered logs\<close>

definition numbered :: "stored_event list \<Rightarrow> bool" where
  "numbered log \<longleftrightarrow> map st_seq log = map (\<lambda>k. i64_wrap (int k)) [0..<length log]"

text \<open>The events \<open>js\<close>, redacted, with the numbers from \<open>n\<close> on.\<close>

definition stamped :: "(string \<Rightarrow> string) \<Rightarrow> nat \<Rightarrow> json list \<Rightarrow> stored_event list" where
  "stamped clean n js =
     map2 (\<lambda>k j. \<lparr>st_seq = i64_wrap (int k), st_event = sanitize_value clean j\<rparr>) [n..<n + length js] js"

lemma stamped_Nil [simp]: "stamped clean n [] = []"
  by (simp add: stamped_def)

lemma length_stamped [simp]: "length (stamped clean n js) = length js"
  by (simp add: stamped_def)

lemma stamped_snoc: "stamped clean n (js @ [j]) =
    stamped clean n js @ [\<lparr>st_seq = i64_wrap (int (n + length js)), st_event = sanitize_value clean j\<rparr>]"
  by (simp add: stamped_def)

lemma numbered_Nil [simp]: "numbered []"
  by (simp add: numbered_def)

lemma numbered_snoc: "numbered log \<Longrightarrow> st_seq e = i64_wrap (int (length log)) \<Longrightarrow> numbered (log @ [e])"
  by (simp add: numbered_def)

lemma numbered_stamped: "numbered log \<Longrightarrow> numbered (log @ stamped clean (length log) js)"
  by (induction js rule: rev_induct) (simp_all add: stamped_snoc numbered_snoc flip: append_assoc)

lemma i64_wrap_Suc: "i64_wrap (i64_wrap x + 1) = i64_wrap (x + 1)"
  unfolding i64_wrap_def by (simp add: mod_simps add.assoc [symmetric])

lemma i64_wrap_inj: "m < 2 ^ 64 \<Longrightarrow> n < 2 ^ 64 \<Longrightarrow> i64_wrap (int m) = i64_wrap (int n) \<Longrightarrow> m = n"
proof -
  assume less: "m < 2 ^ 64" "n < 2 ^ 64" and "i64_wrap (int m) = i64_wrap (int n)"
  then have "(int m + 2 ^ 63) mod 2 ^ 64 = (int n + 2 ^ 63) mod 2 ^ 64" by (simp add: i64_wrap_def)
  then have "int m mod 2 ^ 64 = int n mod 2 ^ 64"
    by (metis (no_types, opaque_lifting) add_diff_cancel_right' mod_diff_left_eq)
  with less show "m = n" by simp
qed

lemma i64_wrap_period: "i64_wrap (int (n + 2 ^ 64)) = i64_wrap (int n)"
proof -
  have "(int (n + 2 ^ 64) + 2 ^ 63) mod 2 ^ 64 = (int n + 2 ^ 63) mod (2 ^ 64 :: int)"
  proof -
    have "int (n + 2 ^ 64) + 2 ^ 63 = (int n + 2 ^ 63) + 2 ^ 64" by simp
    then show ?thesis by (simp only: mod_add_self2)
  qed
  then show ?thesis by (simp only: i64_wrap_def)
qed

text \<open>All \<open>2 ^ 64\<close> numbers of an \<open>i64\<close> are used before one is used again.\<close>

lemma numbered_nth: "numbered log \<Longrightarrow> k < length log \<Longrightarrow> st_seq (log ! k) = i64_wrap (int k)"
  unfolding numbered_def by (drule arg_cong [where f = "\<lambda>l. l ! k"]) simp

lemma numbered_first: "numbered log \<Longrightarrow> first_per_seq {} log = take (2 ^ 64) log"
proof (induction log rule: rev_induct)
  case (snoc e log)
  have log: "numbered log" and e: "st_seq e = i64_wrap (int (length log))"
    using snoc.prems by (simp_all add: numbered_def)
  show ?case
  proof (cases "length log < 2 ^ 64")
    case True
    have "st_seq e \<noteq> st_seq (log ! k)" if "k < length log" for k
      using that True e numbered_nth [OF log that] i64_wrap_inj [of "length log" k] by auto
    then have "st_seq e \<notin> st_seq ` set log" by (metis image_iff in_set_conv_nth)
    then show ?thesis using True snoc.IH [OF log] by (simp add: first_per_seq_snoc)
  next
    case False
    then obtain k where k: "length log = k + 2 ^ 64" by (metis add.commute le_Suc_ex not_less)
    then have "k < length log" by simp
    then have "st_seq (log ! k) \<in> st_seq ` set log" by simp
    moreover have "st_seq e = st_seq (log ! k)"
      using e numbered_nth [OF log \<open>k < length log\<close>] i64_wrap_period [of k] by (simp only: k)
    ultimately have "st_seq e \<in> st_seq ` set log" by simp
    then show ?thesis using False snoc.IH [OF log] by (simp add: first_per_seq_snoc)
  qed
qed simp

text \<open>The channel of a log in which nothing is a duplicate.\<close>

definition stream_of :: "stored_event list \<Rightarrow> task_channel option" where
  "stream_of log =
     (if log = [] then None
      else let sent = take (2 ^ 64) log in
        Some \<lparr>ch_history = drop (length sent - replay_cap) sent, ch_seqs = st_seq ` set sent,
              ch_sent = sent, ch_done = (\<exists>e \<in> set sent. event_kind (st_event e) = ''done'')\<rparr>)"

lemma numbered_channel: "numbered log \<Longrightarrow> channel_of log = stream_of log"
  by (simp only: channel_of_def stream_of_def numbered_first)

section \<open>A run\<close>

definition tracks :: "site \<Rightarrow> string \<Rightarrow> (string \<Rightarrow> task_channel option) \<Rightarrow> stored_event list \<Rightarrow> json list \<Rightarrow> exec \<Rightarrow> bool" where
  "tracks si i others log past x \<longleftrightarrow>
     (\<exists>js. emitted (x_trace x) = past @ js \<and> tk_task_id (x_task x) = i
        \<and> eb_tasks (x_bus x) = others(i := channel_of (log @ stamped (si_clean si) (length log) js))
        \<and> tk_seq (x_task x) = i64_wrap (int (length log + length js)))"

lemma emit_task_result: "emit_task em ev (t, b) =
    (t\<lparr>tk_seq := i64_wrap (tk_seq t + 1)\<rparr>,
     emit (em_clean em) (em_now em) (em_stamp em)
       \<lparr>be_task_id = tk_task_id t, be_thread_id = tk_thread_id t, be_user_id = tk_user_id t,
        be_seq = tk_seq t, be_event = with_provider (tk_provider t) ev\<rparr> b)"
  by (simp add: emit_task_def next_seq_def)

lemma emit_now_side:
  "\<exists>now stamp. x_bus (emit_now si ev x) = emit (si_clean si) now stamp
     \<lparr>be_task_id = tk_task_id (x_task x), be_thread_id = tk_thread_id (x_task x), be_user_id = tk_user_id (x_task x),
      be_seq = tk_seq (x_task x), be_event = with_provider (tk_provider (x_task x)) ev\<rparr> (x_bus x)"
  "emitted (x_trace (emit_now si ev x)) = emitted (x_trace x) @ [with_provider (tk_provider (x_task x)) ev]"
  "tk_task_id (x_task (emit_now si ev x)) = tk_task_id (x_task x)"
  "tk_seq (x_task (emit_now si ev x)) = i64_wrap (tk_seq (x_task x) + 1)"
  by (auto simp: emit_now_def Let_def emit_task_result record_act_def)

lemma emit_log:
  assumes "eb_tasks b = others(i := channel_of log)" and "be_task_id ev = i" and "be_seq ev = i64_wrap (int (length log))"
  shows "eb_tasks (emit clean now ts ev b) = others(i := channel_of (log @ stamped clean (length log) [be_event ev]))"
proof -
  have "eb_tasks b (be_task_id ev) = channel_of log" using assms by simp
  from emit_channel [OF this] have "eb_tasks (emit clean now ts ev b) i = channel_of (log @ [stored_of clean ev])"
    using assms(2) by simp
  moreover have "eb_tasks (emit clean now ts ev b) j = others j" if "j \<noteq> i" for j
    using that assms by (simp add: emit_tasks)
  ultimately show ?thesis
    using assms(3) by (auto simp: stamped_def stored_of_def)
qed

lemma tick_tracks:
  assumes "tick si x y" and "tracks si i others log past x"
  shows "tracks si i others log past y"
  using assms
proof cases
  case (Emits ev)
  obtain js where js: "emitted (x_trace x) = past @ js" "tk_task_id (x_task x) = i"
    and bus: "eb_tasks (x_bus x) = others(i := channel_of (log @ stamped (si_clean si) (length log) js))"
    and seq: "tk_seq (x_task x) = i64_wrap (int (length log + length js))"
    using assms(2) by (auto simp: tracks_def)
  let ?j = "with_provider (tk_provider (x_task x)) ev"
  obtain now stamp where "x_bus y = emit (si_clean si) now stamp
     \<lparr>be_task_id = tk_task_id (x_task x), be_thread_id = tk_thread_id (x_task x), be_user_id = tk_user_id (x_task x),
      be_seq = tk_seq (x_task x), be_event = ?j\<rparr> (x_bus x)"
    using emit_now_side(1) [of si ev x] unfolding Emits by blast
  then have "eb_tasks (x_bus y) = others(i := channel_of (log @ stamped (si_clean si) (length log) (js @ [?j])))"
    using emit_log [OF bus] js(2) seq by (simp add: stamped_def)
  moreover have "emitted (x_trace y) = past @ js @ [?j]" "tk_task_id (x_task y) = i"
    "tk_seq (x_task y) = i64_wrap (int (length log + length (js @ [?j])))"
    using i64_wrap_Suc [of "int (length log + length js)"] js seq
    by (simp_all add: Emits emit_now_side add.commute add.left_commute)
  ultimately show ?thesis unfolding tracks_def by blast
next
  case Silent
  with assms(2) show ?thesis by (simp add: tracks_def unheard_def event_side_def)
qed

lemma run_tracks: "tracks si i others log past x \<Longrightarrow> tracks si i others log past (snd (run_task si x))"
  using run_ticks [of si x] by (induction rule: rtranclp_induct) (auto intro: tick_tracks)

section \<open>The worker\<close>

text \<open>A task and the channel of its id: no task, no channel; and a task counts what its channel was sent.\<close>

definition counts :: "task_state \<Rightarrow> stored_event list \<Rightarrow> bool" where
  "counts t log \<longleftrightarrow> numbered log \<and> tk_seq t = i64_wrap (int (length log))"

definition matches :: "string \<Rightarrow> task_state option \<Rightarrow> task_channel option \<Rightarrow> bool" where
  "matches i task ch \<longleftrightarrow>
     (case task of
        None \<Rightarrow> ch = None
      | Some t \<Rightarrow> tk_task_id t = i \<and> (\<exists>log. log \<noteq> [] \<and> counts t log \<and> ch = channel_of log))"

definition streamed :: "app \<Rightarrow> bool" where
  "streamed a \<longleftrightarrow> (\<forall>i. matches i (hm_get (ap_tasks a) i) (eb_tasks (ap_bus a) i))"

lemma streamedD: "streamed a \<Longrightarrow> matches i (hm_get (ap_tasks a) i) (eb_tasks (ap_bus a) i)"
  by (simp add: streamed_def)

lemma streamed_frame: "ap_tasks b = ap_tasks a \<Longrightarrow> ap_bus b = ap_bus a \<Longrightarrow> streamed b = streamed a"
  by (simp add: streamed_def)

lemma matches_None [simp]: "matches i None ch \<longleftrightarrow> ch = None"
  by (simp add: matches_def)

lemma matches_logE:
  assumes "matches i (Some t) ch"
  obtains log where "tk_task_id t = i" "log \<noteq> []" "counts t log" "ch = channel_of log"
  using assms by (auto simp: matches_def)

lemma matches_flags: "matches i (Some t) ch \<Longrightarrow> tk_task_id u = tk_task_id t \<Longrightarrow> tk_seq u = tk_seq t \<Longrightarrow> matches i (Some u) ch"
  by (simp add: matches_def counts_def)

lemma map_session_streamed [simp]: "streamed (map_session f k a) = streamed a"
  by (rule streamed_frame) (simp_all add: map_session_def split: option.split)

lemma map_task_streamed:
  assumes "streamed a" and "\<And>t. tk_task_id (f t) = tk_task_id t \<and> tk_seq (f t) = tk_seq t"
  shows "streamed (map_task f i a)"
proof (cases "hm_get (ap_tasks a) i")
  case (Some t)
  then have "matches i (Some (f t)) (eb_tasks (ap_bus a) i)"
    using assms streamedD [OF assms(1), of i] matches_flags [of i t _ "f t"] by simp
  with assms(1) Some show ?thesis by (simp add: streamed_def map_task_def)
qed (use assms(1) in \<open>simp add: map_task_def\<close>)

text \<open>An event of a task whose log is \<open>log\<close>, which is empty for a task that was just registered.\<close>

lemma app_emit_from:
  assumes t: "hm_get (ap_tasks a) i = Some t" "tk_task_id t = i" and log: "counts t log"
    and ch: "eb_tasks (ap_bus a) i = channel_of log"
    and rest: "\<And>j. j \<noteq> i \<Longrightarrow> matches j (hm_get (ap_tasks a) j) (eb_tasks (ap_bus a) j)"
  shows "streamed (app_emit em i ev a)"
proof -
  let ?ev = "with_provider (tk_provider t) ev"
  let ?log = "log @ stamped (em_clean em) (length log) [?ev]"
  let ?t = "t\<lparr>tk_seq := i64_wrap (tk_seq t + 1)\<rparr>"
  define b where "b = app_emit em i ev a"
  have "eb_tasks (ap_bus a) = (eb_tasks (ap_bus a))(i := channel_of log)" using ch by auto
  from emit_log [OF this] have bus: "eb_tasks (ap_bus b) = (eb_tasks (ap_bus a))(i := channel_of ?log)"
    using t log by (simp add: b_def app_emit_def emit_task_result counts_def)
  have tasks: "hm_get (ap_tasks b) j = (if j = i then Some ?t else hm_get (ap_tasks a) j)" for j
    using t by (simp add: b_def app_emit_def emit_task_result)
  have "counts ?t ?log"
    using log numbered_stamped [of log "em_clean em" "[?ev]"] i64_wrap_Suc [of "int (length log)"]
    by (simp add: counts_def add.commute)
  moreover have "?log \<noteq> []" by (simp add: stamped_def)
  ultimately have "matches i (Some ?t) (channel_of ?log)"
    using t(2) unfolding matches_def option.case by (intro conjI exI [of _ ?log]) simp_all
  then show ?thesis
    unfolding b_def [symmetric] streamed_def using rest by (simp add: tasks bus)
qed

lemma app_emit_streamed: "streamed a \<Longrightarrow> streamed (app_emit em i ev a)"
proof (cases "hm_get (ap_tasks a) i")
  case (Some t)
  assume a: "streamed a"
  obtain log where "tk_task_id t = i" "counts t log" "eb_tasks (ap_bus a) i = channel_of log"
    using streamedD [OF a, of i] Some by (auto elim: matches_logE)
  then show ?thesis using Some streamedD [OF a] by (rule_tac app_emit_from)
qed (simp add: app_emit_def)

lemma register_streamed:
  assumes "streamed a" and "hm_get (ap_tasks a) (tk_task_id t) = None" and "tk_seq t = 0"
  shows "streamed (register_task em t a)"
proof -
  let ?i = "tk_task_id t"
  have frame: "ap_tasks (map_session f k b) = ap_tasks b" "ap_bus (map_session f k b) = ap_bus b" for f k b
    by (simp_all add: map_session_def split: option.split)
  have empty: "eb_tasks (ap_bus a) ?i = channel_of []"
    using streamedD [OF assms(1), of ?i] assms(2) by (simp add: channel_of_def)
  have zero: "counts t []" using assms(3) by (simp add: counts_def i64_wrap_def)
  have "streamed (app_emit em ?i ev b)"
    if "ap_bus b = ap_bus a" "ap_tasks b = hm_insert ?i t (ap_tasks a)" for ev b
    by (rule app_emit_from [of _ _ t "[]"]) (use that empty zero streamedD [OF assms(1)] in simp_all)
  then show ?thesis
    unfolding register_task_def Let_def by (simp add: frame streamed_frame [of "_\<lparr>ap_spawned := _\<rparr>"])
qed

lemma dispatch_streamed:
  assumes "streamed a"
  shows "streamed (snd (dispatch_task lc em u h body a))"
proof (cases "admits lc (requested_task u body) h body a")
  case True
  let ?i = "requested_task u body"
  obtain r b where g: "get_or_create_session lc ?i (requested_thread (ap_config a) body)
      (or_else (db_user_id body) (cfg_user_id (ap_config a))) (db_branch body) (db_thread_title body)
      (Some (db_prompt body)) a = (r, b)" by fastforce
  have b: "ap_tasks b = ap_tasks a" "ap_bus b = ap_bus a" using get_session_frame [OF g] by simp_all
  have s: "streamed b" using assms streamed_frame [OF b] by simp
  have "streamed (register_task em t b)" if "tk_task_id t = ?i" "tk_seq t = 0" for t
    using True that by (intro register_streamed [OF s]) (simp_all add: b admits_def)
  then show ?thesis
    using s unfolding dispatch_admitted [OF True]
    by (simp add: accept_task_def g Let_def new_task_def split: sum.split)
qed (use assms in \<open>simp add: dispatch_refused\<close>)

lemma cancel_streamed: "streamed a \<Longrightarrow> streamed (snd (cancel_task em h i a))"
  by (auto simp: cancel_task_def with_auth split: option.split intro!: app_emit_streamed map_task_streamed)

lemma router_streamed: "streamed a \<Longrightarrow> streamed (fst (snd (router ou h req (a, s))))"
  by (cases req) (auto simp: case_prod_beta list_ok intro: cancel_streamed dispatch_streamed)

lemma gc_one_streamed: "streamed a \<Longrightarrow> streamed (gc_one i a)"
proof -
  assume a: "streamed a"
  have "eb_tasks (ap_bus (gc_one i a)) = (eb_tasks (ap_bus a))(i := None)"
    by (simp add: gc_one_def Let_def gc_task_def map_session_def split: option.split)
  then show ?thesis
    using streamedD [OF a] by (simp add: streamed_def gc_one_tasks)
qed

interpretation reclaiming: step_system "\<lambda>a i. gc_one i a" streamed
  by unfold_locales (rule gc_one_streamed)

lemma gc_finished_streamed: "streamed a \<Longrightarrow> streamed (snd (gc_finished now retain_ms a))"
proof -
  assume "streamed a"
  then have "streamed (collected (cutoff now retain_ms) a)"
    unfolding collected_def by (rule reclaiming.run_inv)
  then show ?thesis by (simp add: gc_finished_app Let_def streamed_frame [of "_\<lparr>ap_sessions := _\<rparr>"])
qed

text \<open>A run, as the worker sees it.\<close>

definition run_end :: "site \<Rightarrow> exec \<Rightarrow> task_state \<Rightarrow> thread_session \<Rightarrow> app \<Rightarrow> exec" where
  "run_end si x t s a = snd (run_task si (x\<lparr>x_task := t, x_session := s, x_bus := ap_bus a\<rparr>))"

lemma run_spawned_end:
  fixes si x
  assumes "hm_get (ap_tasks a) i = Some t" and "hm_get (ap_sessions a) (tk_session t) = Some s"
  defines "y \<equiv> run_end si x t s a"
  shows "ap_bus (run_spawned si x i a) = x_bus y"
    and "hm_get (ap_tasks (run_spawned si x i a)) j =
      (if j = i then Some (t\<lparr>tk_cancel := tk_cancel (x_task y), tk_seq := tk_seq (x_task y),
         tk_finished := tk_finished (x_task y), tk_cancelled := tk_cancelled (x_task y),
         tk_finished_at := tk_finished_at (x_task y)\<rparr>) else hm_get (ap_tasks a) j)"
  using assms by (auto simp: run_spawned_def run_end_def Let_def map_session_def map_task_def split: option.split)

lemma run_end_tracks:
  assumes "tk_task_id t = i" and "counts t log" and "eb_tasks (ap_bus a) i = channel_of log"
  shows "tracks si i (eb_tasks (ap_bus a)) log (emitted (x_trace x)) (run_end si x t s a)"
  unfolding run_end_def
  by (rule run_tracks) (use assms in \<open>auto simp: tracks_def counts_def intro!: exI [of _ "[]"]\<close>)

lemma run_streamed: "streamed a \<Longrightarrow> streamed (run_spawned si x i a)"
proof (cases "hm_get (ap_tasks a) i")
  case (Some t)
  assume a: "streamed a"
  show ?thesis
  proof (cases "hm_get (ap_sessions a) (tk_session t)")
    case s: (Some s)
    obtain log where log: "tk_task_id t = i" "counts t log" "eb_tasks (ap_bus a) i = channel_of log" "log \<noteq> []"
      using streamedD [OF a, of i] Some by (auto elim: matches_logE)
    obtain js where js: "eb_tasks (x_bus (run_end si x t s a)) =
        (eb_tasks (ap_bus a))(i := channel_of (log @ stamped (si_clean si) (length log) js))"
        "tk_seq (x_task (run_end si x t s a)) = i64_wrap (int (length log + length js))"
      using run_end_tracks [OF log(1-3), of si x s] by (auto simp: tracks_def)
    have "counts (t\<lparr>tk_cancel := c, tk_seq := tk_seq (x_task (run_end si x t s a)), tk_finished := f,
        tk_cancelled := d, tk_finished_at := g\<rparr>) (log @ stamped (si_clean si) (length log) js)" for c f d g
      using log(2) js(2) numbered_stamped by (simp add: counts_def)
    then show ?thesis
      using streamedD [OF a] log unfolding streamed_def run_spawned_end [OF Some s] js(1)
      by (auto simp: matches_def intro!: exI [of _ "log @ stamped (si_clean si) (length log) js"])
  qed (use a Some in \<open>simp add: run_spawned_def\<close>)
qed (simp add: run_spawned_def)

interpretation streaming: step_system app_step streamed
proof
  show "streamed (app_step a e)" if "streamed a" for a e
    using that by (cases e) (simp_all add: router_streamed run_streamed gc_finished_streamed)
qed

lemma served_streamed: "streamed (foldl app_step (app_start c (event_bus_new ingest key dir subj) cp st inst) ops)"
  by (rule streaming.run_inv) (simp add: streamed_def app_start_def event_bus_new_def)

section \<open>Dense streams\<close>


text \<open>C7: a run of a task, in any state the worker can reach, extends the stream of that task by exactly
  what the run emitted, redacted, in order and with the next numbers, and touches no other stream; a
  run of an id that is not registered changes nothing, and a registered task has its session.\<close>

theorem run_is_streamed:
  "let a = foldl app_step (app_start c (event_bus_new ingest key dir subj) cp st inst) ops;
       b = run_spawned si x i a
   in case hm_get (ap_tasks a) i of
        None \<Rightarrow> b = a
      | Some t \<Rightarrow>
          (case hm_get (ap_sessions a) (tk_session t) of
             None \<Rightarrow> False
           | Some s \<Rightarrow>
               let y = snd (run_task si (x\<lparr>x_task := t, x_session := s, x_bus := ap_bus a\<rparr>))
               in \<exists>log js. emitted (x_trace y) = emitted (x_trace x) @ js \<and> log \<noteq> [] \<and> numbered log
                    \<and> eb_tasks (ap_bus a) i = stream_of log
                    \<and> eb_tasks (ap_bus b) =
                        (eb_tasks (ap_bus a))(i := stream_of (log @ stamped (si_clean si) (length log) js)))"
proof -
  define a where "a = foldl app_step (app_start c (event_bus_new ingest key dir subj) cp st inst) ops"
  have str: "streamed a" unfolding a_def by (rule served_streamed)
  have link: "linked (ap_tasks a) (ap_sessions a)"
    using served_ok [of c "event_bus_new ingest key dir subj" cp st inst ops] by (simp add: a_def app_ok_def)
  show ?thesis
  proof (cases "hm_get (ap_tasks a) i")
    case None
    then show ?thesis unfolding Let_def a_def [symmetric] by (simp add: run_spawned_def)
  next
    case (Some t)
    obtain s where s: "hm_get (ap_sessions a) (tk_session t) = Some s" using linked_taskD [OF link Some] by blast
    obtain log where log: "tk_task_id t = i" "counts t log" "eb_tasks (ap_bus a) i = channel_of log" "log \<noteq> []"
      using streamedD [OF str, of i] Some by (auto elim: matches_logE)
    then have num: "numbered log" by (simp add: counts_def)
    define y where "y = run_end si x t s a"
    obtain js where "emitted (x_trace y) = emitted (x_trace x) @ js"
      "eb_tasks (x_bus y) = (eb_tasks (ap_bus a))(i := channel_of (log @ stamped (si_clean si) (length log) js))"
      using run_end_tracks [OF log(1-3), of si x s] by (auto simp: tracks_def y_def)
    then have "\<exists>log js. emitted (x_trace y) = emitted (x_trace x) @ js \<and> log \<noteq> [] \<and> numbered log
        \<and> eb_tasks (ap_bus a) i = stream_of log
        \<and> eb_tasks (ap_bus (run_spawned si x i a)) =
            (eb_tasks (ap_bus a))(i := stream_of (log @ stamped (si_clean si) (length log) js))"
      using log num numbered_channel numbered_stamped [OF num] run_spawned_end(1) [OF Some s, of si x]
      unfolding y_def by (metis (no_types))
    then show ?thesis
      unfolding Let_def a_def [symmetric] Some s option.case y_def run_end_def .
  qed
qed

end
