(* ===== verification/Shared_Checkout.thy ===== *)
theory Shared_Checkout
  imports Worker_Invariant Orchestrator_Branch
begin

text \<open>
  The sessions of a worker and its one checkout: every session works in the configured repository, the
  queue that keeps two runs apart belongs to a session, and a session that is ready does not look at
  the checkout again.
\<close>

definition in_checkout :: "app \<Rightarrow> bool" where
  "in_checkout a \<longleftrightarrow> (\<forall>s \<in> set (hm_values (ap_sessions a)). ts_workspace_path s = cfg_workspace_repo (ap_config a))"

lemma values_insert: "set (hm_values (hm_insert k v m)) \<subseteq> insert v (set (hm_values m))"
  unfolding hm_values_def hm_insert_def by (induction m) auto

lemma values_retain: "set (hm_values (hm_retain P m)) \<subseteq> set (hm_values m)"
  by (auto simp: hm_values_def hm_retain_def)

lemma in_checkout_frame: "ap_sessions b = ap_sessions a \<Longrightarrow> ap_config b = ap_config a \<Longrightarrow> in_checkout b = in_checkout a"
  by (simp add: in_checkout_def)

lemma values_get: "hm_get m k = Some v \<Longrightarrow> v \<in> set (hm_values m)"
  by (force simp: hm_get_def hm_values_def dest: map_of_SomeD)

lemma in_checkout_insert:
  assumes "in_checkout a" and "ts_workspace_path s = cfg_workspace_repo (ap_config a)"
  shows "in_checkout (a\<lparr>ap_sessions := hm_insert k s (ap_sessions a)\<rparr>)"
  using assms values_insert [of k s "ap_sessions a"] by (auto simp: in_checkout_def)

lemma map_session_checkout:
  assumes "in_checkout a" and "\<And>s. ts_workspace_path (f s) = ts_workspace_path s"
  shows "in_checkout (map_session f k a)"
proof (cases "hm_get (ap_sessions a) k")
  case (Some s)
  have "ts_workspace_path s = cfg_workspace_repo (ap_config a)"
    using assms(1) values_get [OF Some] by (simp add: in_checkout_def)
  then show ?thesis using in_checkout_insert [OF assms(1), of "f s" k] assms(2) Some by (simp add: map_session_def)
qed (use assms(1) in \<open>simp add: map_session_def\<close>)

lemma map_task_checkout [simp]: "in_checkout (map_task f i a) = in_checkout a"
  by (rule in_checkout_frame) simp_all

lemma app_emit_checkout [simp]: "in_checkout (app_emit em i ev a) = in_checkout a"
  by (rule in_checkout_frame) (simp_all add: app_emit_def split: option.split prod.split)

lemma get_session_checkout:
  assumes "in_checkout a" and "get_or_create_session lc i th us bh ti ph a = (r, b)"
  shows "in_checkout b"
proof -
  have "in_checkout (a\<lparr>ap_sessions := hm_insert k (new_session (ap_config a) k u br) (ap_sessions a)\<rparr>)" for k u br
    by (rule in_checkout_insert [OF assms(1)]) (simp add: new_session_def)
  then show ?thesis
    using assms by (auto simp: get_or_create_session_def Let_def split: sum.splits option.splits)
qed

lemma register_checkout: "in_checkout a \<Longrightarrow> in_checkout (register_task em t a)"
proof -
  assume "in_checkout a"
  moreover have "in_checkout (b\<lparr>ap_spawned := sp\<rparr>) = in_checkout b" "in_checkout (b\<lparr>ap_tasks := ts\<rparr>) = in_checkout b" for b sp ts
    by (simp_all add: in_checkout_def)
  ultimately show ?thesis
    unfolding register_task_def Let_def by (simp add: map_session_checkout)
qed

lemma dispatch_checkout: "in_checkout a \<Longrightarrow> in_checkout (snd (dispatch_task lc em u h body a))"
proof (cases "admits lc (requested_task u body) h body a")
  case True
  assume a: "in_checkout a"
  obtain r b where g: "get_or_create_session lc (requested_task u body) (requested_thread (ap_config a) body)
      (or_else (db_user_id body) (cfg_user_id (ap_config a))) (db_branch body) (db_thread_title body)
      (Some (db_prompt body)) a = (r, b)" by fastforce
  then show ?thesis
    using get_session_checkout [OF a g] unfolding dispatch_admitted [OF True]
    by (simp add: accept_task_def Let_def register_checkout split: sum.split)
qed (simp add: dispatch_refused)

lemma cancel_checkout: "in_checkout a \<Longrightarrow> in_checkout (snd (cancel_task em h i a))"
  by (simp add: cancel_task_def with_auth split: option.split)

lemma collect_checkout: "in_checkout a \<Longrightarrow> in_checkout (gc_one i a)"
proof -
  assume "in_checkout a"
  moreover have "in_checkout (b\<lparr>ap_bus := c\<rparr>) = in_checkout b" "in_checkout (b\<lparr>ap_tasks := ts\<rparr>) = in_checkout b" for b c ts
    by (simp_all add: in_checkout_def)
  ultimately show ?thesis by (simp add: gc_one_def Let_def map_session_checkout split: option.split)
qed

interpretation emptying: step_system "\<lambda>a i. gc_one i a" in_checkout
  by unfold_locales (rule collect_checkout)

lemma gc_checkout: "in_checkout a \<Longrightarrow> in_checkout (snd (gc_finished now retain_ms a))"
proof -
  assume "in_checkout a"
  then have "in_checkout (collected (cutoff now retain_ms) a)"
    unfolding collected_def by (rule emptying.run_inv)
  moreover have "in_checkout b \<Longrightarrow> in_checkout (b\<lparr>ap_sessions := hm_retain P (ap_sessions b)\<rparr>)" for b P
    using values_retain [of P "ap_sessions b"] by (auto simp: in_checkout_def)
  ultimately show ?thesis by (simp add: gc_finished_app Let_def)
qed

lemma run_checkout: "in_checkout a \<Longrightarrow> in_checkout (run_spawned si x i a)"
proof -
  assume "in_checkout a"
  moreover have "in_checkout (b\<lparr>ap_bus := c\<rparr>) = in_checkout b" for b c by (simp add: in_checkout_def)
  ultimately show ?thesis by (simp add: run_spawned_def Let_def map_session_checkout split: option.split)
qed

interpretation sharing: step_system app_step in_checkout
proof
  have "in_checkout (fst (snd (router ou h req (a, s))))" if "in_checkout a" for ou h req a and s :: unit
    using that by (cases req) (auto simp: case_prod_beta list_ok intro: cancel_checkout dispatch_checkout)
  then show "in_checkout (app_step a e)" if "in_checkout a" for a e
    using that by (cases e) (simp_all add: run_checkout gc_checkout)
qed

text \<open>Any two sessions of a worker have the same working directory.\<close>

lemma sessions_share_checkout:
  assumes "hm_get (ap_sessions (foldl app_step (app_start c b cp st inst) ops)) k = Some s"
    and "hm_get (ap_sessions (foldl app_step (app_start c b cp st inst) ops)) k' = Some s'"
  shows "ts_workspace_path s = ts_workspace_path s'"
proof -
  have "in_checkout (foldl app_step (app_start c b cp st inst) ops)"
    by (rule sharing.run_inv) (simp add: in_checkout_def app_start_def hm_values_def)
  then show ?thesis using assms [THEN values_get] by (simp add: in_checkout_def)
qed

end
