(* ===== verification/Boot.thy ===== *)
theory Boot
  imports Worker_Invariant Outbox Config ControlPlane
begin

text \<open>
  The start of the worker, \<open>run\<close> of src/src/main.rs: configuration, authority mode, outbox, control
  plane, registration, the shared state, the listener. Each step may end the process; what serves
  afterwards is the worker of \<open>HttpApi_Worker\<close>.
\<close>

record boot_world =
  bw_environ :: "string \<Rightarrow> string option"
  bw_progress_subject :: string
  bw_instance_id :: string
  bw_started_at :: string
  bw_host :: host
  bw_control_plane :: cp_world
  bw_bind :: "string + unit"

definition gc_retain_ms :: int where
  "gc_retain_ms = 60 * 60 * 1000"

definition gc_interval_s :: nat where
  "gc_interval_s = 300"

definition main_capabilities :: "config \<Rightarrow> string list" where
  "main_capabilities c = [''code'', ''git'', provider_as_str (cfg_default_provider c)]"

definition connect_control_plane :: "boot_world \<Rightarrow> config \<Rightarrow> governance_mode \<Rightarrow> string + control_plane" where
  "connect_control_plane w c mode =
     res_bind (control_plane_new mode (cfg_control_plane_url c) (cfg_control_plane_secret c) (cfg_fiducia_node_url c)
                 (cfg_fiducia_node_internal_secret c) (cfg_fiducia_node_org_id c) (bw_instance_id w)) (\<lambda>cp.
       case register (bw_control_plane w) (provider_as_str (cfg_default_provider c)) (main_capabilities c) cp of
         (Inl e, _) \<Rightarrow> Inl e
       | (Inr _, cp) \<Rightarrow> Inr cp)"

definition initial_state :: "boot_world \<Rightarrow> config \<Rightarrow> control_plane \<Rightarrow> app" where
  "initial_state w c cp =
     app_start c
       (event_bus_new (cfg_event_ingest_url c) (cfg_event_ingest_secret c) (cfg_log_dir c) (cfg_nats_event_subject c))
       cp (bw_started_at w) (bw_instance_id w)"

text \<open>The process is up once it listens; an error ends it, over the files it leaves behind.\<close>

definition run_worker :: "boot_world \<Rightarrow> (string + app) \<times> host" where
  "run_worker w =
     (let c = from_env (bw_progress_subject w) (bw_environ w) in
      case governance_mode_of c of
        Inl e \<Rightarrow> (Inl e, (bw_host w)\<lparr>up := False\<rparr>)
      | Inr mode \<Rightarrow>
          (case start (with_outbox (cfg_nats_url c) (of_nat (cfg_nats_outbox_max_attempts c)) (bw_host w)) of
             (Inl e, h) \<Rightarrow> (Inl e, h\<lparr>up := False\<rparr>)
           | (Inr _, h) \<Rightarrow>
               (case res_bind (connect_control_plane w c mode) (\<lambda>cp. res_bind (bw_bind w) (\<lambda>_. Inr (initial_state w c cp))) of
                  Inl e \<Rightarrow> (Inl e, h\<lparr>up := False\<rparr>)
                | Inr a \<Rightarrow> (Inr a, h\<lparr>up := True\<rparr>))))"

section \<open>What never changes while the worker serves\<close>

definition terms :: "app \<Rightarrow> config \<times> control_plane" where
  "terms a = (ap_config a, ap_control_plane a)"

lemma terms_map_session [simp]: "terms (map_session f k a) = terms a"
  by (simp add: terms_def map_session_def split: option.split)

lemma terms_map_task [simp]: "terms (map_task f i a) = terms a"
  by (simp add: terms_def map_task_def split: option.split)

lemma terms_emit [simp]: "terms (app_emit em i ev a) = terms a"
  by (simp add: terms_def app_emit_def split: option.split prod.split)

lemma terms_update [simp]:
  "terms (a\<lparr>ap_tasks := t\<rparr>) = terms a" "terms (a\<lparr>ap_sessions := s\<rparr>) = terms a" "terms (a\<lparr>ap_bus := b\<rparr>) = terms a"
  "terms (a\<lparr>ap_spawned := sp\<rparr>) = terms a"
  by (simp_all add: terms_def)

lemma terms_get_session: "terms (snd (get_or_create_session lc i th us bh ti ph a)) = terms a"
  by (simp add: get_or_create_session_def Let_def split: sum.split option.split)

lemma terms_register: "terms (register_task em t a) = terms a"
  by (simp add: register_task_def Let_def)

lemma terms_dispatch: "terms (snd (dispatch_task lc em u h body a)) = terms a"
proof -
  have "terms (snd (accept_task lc em i th us body a)) = terms a" for i th us
    using terms_get_session [of lc i th us "db_branch body" "db_thread_title body" "Some (db_prompt body)" a]
    by (auto simp: accept_task_def Let_def terms_register split: prod.split sum.split)
  then show ?thesis by (simp add: dispatch_task_def with_auth Let_def split: option.split)
qed

lemma terms_cancel: "terms (snd (cancel_task em h i a)) = terms a"
  by (simp add: cancel_task_def with_auth split: option.split)

lemma terms_router: "terms (fst (snd (router ou h req (a, s)))) = terms a"
  by (cases req) (simp_all add: case_prod_beta terms_dispatch terms_cancel list_ok)

lemma terms_run: "terms (run_spawned si x i a) = terms a"
  by (simp add: run_spawned_def Let_def split: option.split)

lemma terms_collect: "terms (foldl (\<lambda>a i. gc_one i a) a ids) = terms a"
proof -
  have "terms (gc_one i a) = terms a" for i a by (simp add: gc_one_def Let_def split: option.split)
  then show ?thesis by (induction ids arbitrary: a) simp_all
qed

lemma terms_step: "terms (app_step a e) = terms a"
  by (cases e) (simp_all add: terms_router terms_run gc_finished_def Let_def terms_collect)

lemma terms_run_all: "terms (foldl app_step a es) = terms a"
  by (induction es arbitrary: a) (simp_all add: terms_step)

section \<open>What serving means\<close>

lemma control_plane_new_fields:
  assumes "control_plane_new mode b s nu ns org inst = Inr cp"
  shows "cp_governance_mode cp = mode \<and> cp_agent_id cp = None \<and> (cp_base cp \<noteq> None) = (mode = Governed)
    \<and> (mode = Governed \<longrightarrow> cp_internal_secret cp \<noteq> None \<and> cp_node cp \<noteq> None)"
proof (cases mode)
  case Governed
  then have check: "check_governed (normalized s) (normalized nu) (normalized ns) (trim org) = Inr ()"
    and base: "normalized b \<noteq> None"
    using assms by (auto simp: control_plane_new_def Let_def res_bind_Inr_iff split: option.splits)
  then have "org_ok (trim org)" by (simp add: check_governed_ok)
  then have "trim (trim org) = trim org" "trim org \<noteq> []"
    by (auto intro: trim_no_ws simp: org_ok_def list_ex_iff)
  then show ?thesis
    using Governed assms check base
    by (auto simp: control_plane_new_def Let_def check_governed_ok normalized_def [of "Some (trim org)"])
next
  case UngovernedLocalOnly
  then show ?thesis
    using assms by (auto simp: control_plane_new_def Let_def res_bind_Inr_iff split: option.splits)
qed

lemma register_result:
  assumes "register w model caps cp = (Inr u, cp')"
  shows "cp_governance_mode cp' = cp_governance_mode cp \<and> cp_base cp' = cp_base cp
    \<and> cp_internal_secret cp' = cp_internal_secret cp \<and> cp_node cp' = cp_node cp
    \<and> (case cp_base cp of None \<Rightarrow> cp' = cp | Some b \<Rightarrow> \<exists>i. cp_agent_id cp' = Some i \<and> w_is_uuid w i)"
proof -
  have run: "q = None \<and> cp' = cp \<or> (\<exists>rq i. q = Some rq \<and> X rq = Inr i \<and> cp' = cp\<lparr>cp_agent_id := Some i\<rparr>)"
    if "(case q of None \<Rightarrow> (Inr (), cp)
         | Some rq \<Rightarrow> (case X rq of Inl e \<Rightarrow> (Inl e, cp) | Inr i \<Rightarrow> (Inr (), cp\<lparr>cp_agent_id := Some i\<rparr>))) = (Inr u, cp')"
    for q and X :: "request \<Rightarrow> string + string"
    using that by (auto split: option.splits sum.splits)
  have agent: "registered_agent_id (w_is_uuid w) v = Inr i \<Longrightarrow> w_is_uuid w i" for v i
    by (auto simp: registered_agent_id_def split: option.splits if_splits)
  from run [OF assms [unfolded register_def Let_def]] show ?thesis
    by (elim disjE conjE exE) (auto simp: cp_req_def res_bind_Inr_iff dest: agent)
qed

text \<open>What the control plane of a serving worker looks like, by its mode.\<close>

definition authority_ready :: "(string \<Rightarrow> bool) \<Rightarrow> config \<Rightarrow> control_plane \<Rightarrow> bool" where
  "authority_ready is_uuid c cp \<longleftrightarrow>
     (case cp_governance_mode cp of
        Governed \<Rightarrow>
          cfg_control_plane_url c \<noteq> None \<and> cp_base cp \<noteq> None \<and> cp_internal_secret cp \<noteq> None \<and> cp_node cp \<noteq> None
          \<and> (\<exists>i. cp_agent_id cp = Some i \<and> is_uuid i)
      | UngovernedLocalOnly \<Rightarrow>
          cfg_control_plane_url c = None \<and> cfg_ungoverned_local_only c \<and> ip_is_loopback (cfg_host c)
          \<and> cp_base cp = None \<and> cp_agent_id cp = None)"

lemma connected_ready:
  assumes "governance_mode_of c = Inr mode" and "connect_control_plane w c mode = Inr cp"
  shows "authority_ready (w_is_uuid (bw_control_plane w)) c cp"
proof -
  from assms(2) obtain cp0
    where new: "control_plane_new mode (cfg_control_plane_url c) (cfg_control_plane_secret c) (cfg_fiducia_node_url c)
      (cfg_fiducia_node_internal_secret c) (cfg_fiducia_node_org_id c) (bw_instance_id w) = Inr cp0"
    and rest: "(case register (bw_control_plane w) (provider_as_str (cfg_default_provider c)) (main_capabilities c) cp0 of
         (Inl e, _) \<Rightarrow> Inl e | (Inr _, cp) \<Rightarrow> Inr cp) = Inr cp"
    unfolding connect_control_plane_def res_bind_Inr_iff by blast
  then have reg: "register (bw_control_plane w) (provider_as_str (cfg_default_provider c)) (main_capabilities c) cp0 = (Inr (), cp)"
    by (auto split: prod.splits sum.splits)
  note fields = control_plane_new_fields [OF new] register_result [OF reg]
  show ?thesis
    using fields assms(1)
    by (cases mode) (auto simp: authority_ready_def governance_mode_of_def resolve_governance_mode_def
        split: option.splits bool.splits if_splits)
qed

text \<open>C8: the worker serves only over an authority that is settled, and for as long as it serves: either
  governed, with an endpoint, both secrets' clients and a registered agent id, or ungoverned by
  explicit opt-in and then listening on a loopback address only, with no endpoint configured. In
  every other case, and when the outbox cannot be opened or the address not be bound, the process
  ends before it has accepted a request. No request, run or collection changes the authority later.\<close>

theorem boot_fails_closed:
  "case run_worker w of
     (Inl e, h) \<Rightarrow> \<not> up h
   | (Inr a, h) \<Rightarrow>
       up h \<and> bw_bind w = Inr () \<and> ap_tasks a = [] \<and> ap_sessions a = []
       \<and> ap_config a = from_env (bw_progress_subject w) (bw_environ w)
       \<and> (\<forall>ops. let b = foldl app_step a ops
               in ap_config b = ap_config a
                  \<and> authority_ready (w_is_uuid (bw_control_plane w)) (ap_config b) (ap_control_plane b))"
proof (cases "run_worker w")
  case (Pair r h)
  show ?thesis
  proof (cases r)
    case (Inl e)
    then show ?thesis
      using Pair by (auto simp: run_worker_def Let_def split: sum.splits prod.splits)
  next
    case (Inr a)
    define c where "c = from_env (bw_progress_subject w) (bw_environ w)"
    obtain mode cp where mode: "governance_mode_of c = Inr mode" and cp: "connect_control_plane w c mode = Inr cp"
      and a: "a = initial_state w c cp" "up h" "bw_bind w = Inr ()"
      using Pair Inr unfolding run_worker_def c_def [symmetric]
      by (auto simp: Let_def res_bind_Inr_iff split: sum.splits prod.splits)
    have "terms (foldl app_step a ops) = (c, cp)" for ops
      by (simp only: terms_run_all) (simp add: a terms_def initial_state_def app_start_def)
    then have "ap_config (foldl app_step a ops) = c \<and> ap_control_plane (foldl app_step a ops) = cp" for ops
      by (simp add: terms_def)
    moreover have "ap_config a = c" "ap_tasks a = []" "ap_sessions a = []"
      by (simp_all add: a initial_state_def app_start_def)
    ultimately show ?thesis
      unfolding Pair Inr prod.case sum.case c_def [symmetric]
      using a connected_ready [OF mode cp] by (simp add: Let_def)
  qed
qed

text \<open>The opt-in on a loopback address does start a worker.\<close>

lemma local_worker_starts:
  assumes "bw_environ w = (\<lambda>k. if k = ''HOST'' then Some ''127.0.0.1''
      else if k = ''FIDUCIA_UNGOVERNED_LOCAL_ONLY'' then Some ''true'' else None)"
    and "bw_bind w = Inr ()"
  shows "\<exists>a h. run_worker w = (Inr a, h)"
proof -
  define c where "c = from_env (bw_progress_subject w) (bw_environ w)"
  have t: "trim ''true'' = ''true''" "trim ''127.0.0.1'' = ''127.0.0.1''"
    by (rule trim_visible; simp add: code_def is_ascii_def)+
  have ip: "parse_ip ''127.0.0.1'' = Some (V4 127 0 0 1)" by (simp add: ip_eval)
  have "cfg_host c = V4 127 0 0 1" "cfg_control_plane_url c = None" "cfg_ungoverned_local_only c" "cfg_nats_url c = None"
    by (simp_all add: c_def from_env_def assms(1) Let_def env_or_def env_opt_def normalized_def or_else_def t ip)
  then have mode: "governance_mode_of c = Inr UngovernedLocalOnly" and "cfg_control_plane_url c = None" "cfg_nats_url c = None"
    by (simp_all add: governance_mode_of_def resolve_governance_mode_def ip_is_loopback.simps)
  then obtain cp where "connect_control_plane w c UngovernedLocalOnly = Inr cp"
    by (auto simp: connect_control_plane_def control_plane_new_def normalized_def register_def cp_req_def Let_def)
  then show ?thesis
    unfolding run_worker_def c_def [symmetric] using mode \<open>cfg_nats_url c = None\<close> assms(2)
    by (simp add: start_def with_outbox_def)
qed

end
