(* ===== verification/TraceContract.thy ===== *)
theory TraceContract
  imports Text Paths "HOL-Library.List_Lexorder" "HOL-Library.Char_ord"
begin

text \<open>
  The static checker of trace markers, src/.github/ores-trace-contract.rs: the identifier grammar, the
  scan of a line, and the scan of a source tree. A needle is ASCII, so finding it in a text is the
  same on bytes; Unicode lower-casing is a parameter. A tree is given by its directory listings.
\<close>

section \<open>Identifiers\<close>

definition min_id_width :: nat where
  "min_id_width = 12"

definition canonical_generator_width :: nat where
  "canonical_generator_width = 21"

definition max_id_width :: nat where
  "max_id_width = 64"

definition exts :: "string list" where
  "exts = [''rs'', ''js'', ''jsx'', ''ts'', ''tsx'', ''mjs'', ''cjs'', ''mts'', ''cts'', ''dart'', ''go'', ''java'',
     ''ex'', ''exs'']"

definition skip_dirs :: "string list" where
  "skip_dirs = [''.git'', ''node_modules'', ''target'', ''dist'', ''build'', ''coverage'', ''vendor'', ''generated'',
     ''tests'', ''test'', ''testdata'', ''fixtures'', ''__tests__'', ''__mocks__'', ''.r2g'']"

definition trace_methods :: "string list" where
  "trace_methods = [''addTraceId'', ''addTrace'', ''add_trace_id'', ''add_trace'', ''AddTraceID'', ''AddTrace'']"

definition routine_methods :: "string list" where
  "routine_methods = [''addRoutineId'', ''add_routine_id'', ''AddRoutineID'']"

record violation =
  vi_file :: string
  vi_line :: nat
  vi_msg :: string

definition is_id_char :: "char \<Rightarrow> bool" where
  "is_id_char c \<longleftrightarrow> is_alnum c \<or> c = CHR ''_'' \<or> c = CHR ''-''"

definition id_prefix :: "string \<Rightarrow> string" where
  "id_prefix kind = ''ores-'' @ kind @ ''-''"

definition id_ok :: "string \<Rightarrow> string \<Rightarrow> bool" where
  "id_ok i kind =
     (case strip_prefix (id_prefix kind) i of
        Some rest \<Rightarrow>
          let width = length (utf8_chars rest)
          in min_id_width \<le> width \<and> width \<le> max_id_width \<and> list_all is_id_char rest
      | None \<Rightarrow> False)"

definition canonical_generated_id :: "string \<Rightarrow> string \<Rightarrow> bool" where
  "canonical_generated_id i kind =
     (case strip_prefix (id_prefix kind) i of
        Some rest \<Rightarrow> length (utf8_chars rest) = canonical_generator_width \<and> list_all is_id_char rest
      | None \<Rightarrow> False)"

section \<open>Calls on a line\<close>

definition quote_chars :: "char set" where
  "quote_chars = {CHR 0x27, CHR 0x22, CHR 0x60}"

text \<open>The argument behind a method name: no call, a literal, or something else. \<open>after\<close> is the text behind
  the name.\<close>

definition literal_arg :: "string \<Rightarrow> string option option" where
  "literal_arg after =
     (case trim_start after of
        [] \<Rightarrow> None
      | c # cs \<Rightarrow>
          if c \<noteq> CHR ''('' then None
          else
            (case trim_start cs of
               [] \<Rightarrow> None
             | q # rest \<Rightarrow>
                 if q \<in> quote_chars then Some (Some (takeWhile (\<lambda>c. c \<noteq> q) rest)) else Some None))"

text \<open>Longer names first, equal lengths in their order.\<close>

definition by_length :: "string list \<Rightarrow> string list" where
  "by_length ms = sort_key (\<lambda>m. - int (length m)) ms"

definition continues_name :: "string \<Rightarrow> bool" where
  "continues_name next = (case next of [] \<Rightarrow> False | c # _ \<Rightarrow> is_alnum c \<or> c = CHR ''_'')"

fun method_at :: "string list \<Rightarrow> string \<Rightarrow> (string \<times> string option) list" where
  "method_at [] behind = []"
| "method_at (m # ms) behind =
     (case strip_prefix m behind of
        None \<Rightarrow> method_at ms behind
      | Some after \<Rightarrow>
          if continues_name after then method_at ms behind
          else (case literal_arg after of Some arg \<Rightarrow> [(m, arg)] | None \<Rightarrow> []))"

text \<open>\<open>before\<close> is the last character before the place the scan has come to.\<close>

fun scan_from :: "string list \<Rightarrow> char option \<Rightarrow> string \<Rightarrow> (string \<times> string option) list" where
  "scan_from ms before [] = []"
| "scan_from ms before (c # cs) =
     (if c = CHR ''.'' \<and> (case before of None \<Rightarrow> True | Some q \<Rightarrow> q \<notin> quote_chars) then method_at ms cs else [])
     @ scan_from ms (Some c) cs"

definition scan_calls :: "string \<Rightarrow> string list \<Rightarrow> (string \<times> string option) list" where
  "scan_calls line methods = scan_from (by_length methods) None line"

section \<open>Lines that are not call sites\<close>

definition is_comment :: "string \<Rightarrow> bool" where
  "is_comment line \<longleftrightarrow>
     (let t = trim_start line in
      list_ex (\<lambda>p. prefix p t) [''//'', ''/*'', ''*'', ''<!--'', ''--'', ''# ''] \<or> t = ''#'')"

definition is_pattern_decl :: "string \<Rightarrow> bool" where
  "is_pattern_decl line \<longleftrightarrow>
     list_ex (\<lambda>n. sublist n line)
       [''@pattern'', CHR 0x22 # ''pattern'' @ [CHR 0x22], ''^ores-'', ''[A-Za-z0-9_-]{12,64}'', ''[A-Za-z0-9_-]{21}'']"

definition matcher_needles :: "string list" where
  "matcher_needles =
     [''.contains('', ''.includes('', ''.matches('', ''.match('', ''.starts_with('', ''.startsWith('', ''.strip_prefix('',
      ''.test('', ''.replace('', ''assert!('', ''assert_eq!('', ''regex'', ''Regex'', ''RE ='', ''_RE'']"

definition is_matcher :: "string \<Rightarrow> bool" where
  "is_matcher line \<longleftrightarrow> list_ex (\<lambda>n. sublist n line) matcher_needles"

section \<open>Markers anywhere on a line\<close>

definition in_name :: "string \<Rightarrow> bool" where
  "in_name past \<longleftrightarrow> past \<noteq> [] \<and> is_id_char (last past)"

function markers_of :: "string \<Rightarrow> string \<Rightarrow> string \<Rightarrow> string \<Rightarrow> (string \<times> string) list" where
  "markers_of kind tag past rest =
     (if tag = [] then []
      else
        (case split_once tag rest of
           None \<Rightarrow> []
         | Some (a, b) \<Rightarrow>
             if in_name (past @ a) then markers_of kind tag (past @ a @ tag) b
             else
               let i = takeWhile is_id_char (tag @ b);
                   n = max (length i) (length tag)
               in (if length tag < length i then [(kind, i)] else [])
                  @ markers_of kind tag (past @ a @ take n (tag @ b)) (drop n (tag @ b))))"
  by pat_completeness auto
termination
proof (relation "measure (\<lambda>(kind, tag, past, rest). length rest)")
  fix kind tag past rest ab a b i n
  assume "tag \<noteq> []" and "split_once tag rest = Some ab" and "(a, b) = ab" and n: "n = max (length i) (length tag)"
  then have "length rest = length a + (length tag + length b)" and "0 < length tag"
    by (auto dest: split_once_Some)
  moreover have "length tag \<le> n" using n by simp
  ultimately have "length (drop n (tag @ b)) < length rest" unfolding length_drop length_append by arith
  then show "((kind, tag, past @ a @ take n (tag @ b), drop n (tag @ b)), kind, tag, past, rest)
      \<in> measure (\<lambda>(kind, tag, past, rest). length rest)" by simp
qed (auto dest!: split_once_Some)

declare markers_of.simps [simp del]

definition marker_literals :: "string \<Rightarrow> (string \<times> string) list" where
  "marker_literals line =
     markers_of ''trace'' ''ores-trace-'' [] line @ markers_of ''routine'' ''ores-routine-'' [] line"

text \<open>Visibility words are cut off one after the other. A word that the lower-cased text starts with is as
  long in the text itself, so the cut is in range.\<close>

definition visibility_words :: "string list" where
  "visibility_words =
     [''pub(crate) '', ''pub(super) '', ''pub '', ''export '', ''public '', ''private '', ''protected '', ''declare '']"

lemma length_concat_dropWhile: "length (concat (dropWhile P xs)) \<le> length (concat xs)"
  by (induction xs) auto

lemma length_trim_start: "length (trim_start s) \<le> length s"
  using length_concat_dropWhile [of is_ws "utf8_chars s"] by (simp add: trim_start_def)

lemma visibility_words_length: "k \<in> set visibility_words \<Longrightarrow> 0 < length k"
  by (auto simp: visibility_words_def)

function strip_visibility :: "(string \<Rightarrow> string) \<Rightarrow> string \<Rightarrow> string" where
  "strip_visibility lowercase l =
     (case List.find (\<lambda>k. prefix k (lowercase l)) visibility_words of
        Some k \<Rightarrow>
          if length k \<le> length l then strip_visibility lowercase (trim_start (drop (length k) l)) else l
      | None \<Rightarrow> l)"
  by pat_completeness auto

termination
proof (relation "measure (\<lambda>(lowercase, l). length l)")
  fix lowercase :: "string \<Rightarrow> string" and l k :: string
  assume k: "List.find (\<lambda>k. prefix k (lowercase l)) visibility_words = Some k" and le: "length k \<le> length l"
  then have "k \<in> set visibility_words" by (auto simp: find_Some_iff)
  then have "0 < length k" by (rule visibility_words_length)
  then have "length (trim_start (drop (length k) l)) < length l"
    using length_trim_start [of "drop (length k) l"] le unfolding length_drop by arith
  then show "((lowercase, trim_start (drop (length k) l)), lowercase, l) \<in> measure (\<lambda>(lowercase, l). length l)" by simp
qed simp

declare strip_visibility.simps [simp del]

definition hoisted_trace_decl :: "(string \<Rightarrow> string) \<Rightarrow> string \<Rightarrow> string option" where
  "hoisted_trace_decl lowercase line =
     (let l = strip_visibility lowercase (trim line); lower = lowercase l in
      if \<not> list_ex (\<lambda>k. prefix k lower) [''const '', ''let '', ''var '', ''static '', ''final '', ''val '']
         \<or> \<not> sublist ''trace'' lower
      then None
      else
        (case split_once ''='' l of
           None \<Rightarrow> None
         | Some (name, behind) \<Rightarrow>
             let val = ''='' @ behind in
             if \<not> sublist ''trace'' (lowercase name) then None
             else if list_ex (\<lambda>q. sublist (q # ''ores-trace-'') val) [CHR 0x22, CHR 0x27, CHR 0x60]
                     \<and> list_ex (\<lambda>(k, i). k = ''trace'') (marker_literals val)
             then Some (trim name)
             else None))"

definition next_is_mod :: "string list \<Rightarrow> nat \<Rightarrow> bool" where
  "next_is_mod lines idx =
     (case dropWhile (\<lambda>l. let t = trim_start l in t = [] \<or> prefix ''#['' t \<or> prefix ''//'' t) (drop (idx + 1) lines) of
        [] \<Rightarrow> False
      | l # _ \<Rightarrow> prefix ''mod '' (trim_start l) \<or> prefix ''pub mod '' (trim_start l))"

section \<open>One line\<close>

definition in_quotes :: "string \<Rightarrow> string" where
  "in_quotes s = CHR 0x22 # s @ [CHR 0x22]"

definition bad_call_msg :: "string \<Rightarrow> string \<Rightarrow> string \<Rightarrow> string" where
  "bad_call_msg kind m i =
     ''.'' @ m @ ''('' @ in_quotes i @ '') is not a compatible ''
     @ (if kind = ''trace'' then ''static marker'' else ''routine id'')
     @ ''; expected ^ores-'' @ kind @ ''-[A-Za-z0-9_-]{12,64}$''"

definition bad_marker_msg :: "string \<Rightarrow> string \<Rightarrow> string" where
  "bad_marker_msg kind i = in_quotes i @ '' does not match ^ores-'' @ kind @ ''-[A-Za-z0-9_-]{12,64}$''"

definition hoisted_msg :: "string \<Rightarrow> string" where
  "hoisted_msg name =
     ''static ores-trace-* id must stay inline at the call site, not in '' @ [CHR 0x60] @ name @ [CHR 0x60]"

definition legacy_msgs :: "string \<Rightarrow> string list" where
  "legacy_msgs line =
     (if \<not> is_matcher line \<and> sublist ''dd-trace-'' line then [''legacy dd-trace-* marker; use ores-trace-*''] else [])
     @ (if sublist ''.addRoutine('' line \<or> sublist ''.add_routine('' line
        then [''use addRoutineId()/add_routine_id(), not addRoutine()''] else [])"

definition call_msgs :: "string \<Rightarrow> string list \<Rightarrow> string \<Rightarrow> string list" where
  "call_msgs kind methods line =
     List.map_filter (\<lambda>(m, arg). case arg of
         Some i \<Rightarrow> if id_ok i kind then None else Some (bad_call_msg kind m i)
       | None \<Rightarrow> None) (scan_calls line methods)"

definition hoisted_msgs :: "(string \<Rightarrow> string) \<Rightarrow> string \<Rightarrow> string list" where
  "hoisted_msgs lowercase line =
     (case hoisted_trace_decl lowercase line of
        Some name \<Rightarrow> if is_matcher line then [] else [hoisted_msg name]
      | None \<Rightarrow> [])"

text \<open>A marker that a message about this line already names is not reported again.\<close>

definition marker_msgs :: "string list \<Rightarrow> string \<Rightarrow> string list" where
  "marker_msgs already line =
     (if is_matcher line \<or> is_pattern_decl line then []
      else
        List.map_filter (\<lambda>(kind, i).
          if list_ex (\<lambda>m. sublist (in_quotes i) m) already \<or> id_ok i kind then None
          else Some (bad_marker_msg kind i)) (marker_literals line))"

definition check_line :: "(string \<Rightarrow> string) \<Rightarrow> string \<Rightarrow> nat \<Rightarrow> string \<Rightarrow> violation list \<Rightarrow> violation list" where
  "check_line lowercase f no line findings =
     (if is_comment line then findings
      else
        let viol = map (\<lambda>msg. \<lparr>vi_file = f, vi_line = no, vi_msg = msg\<rparr>);
            findings = findings @ viol (legacy_msgs line @ call_msgs ''trace'' trace_methods line
              @ call_msgs ''routine'' routine_methods line @ hoisted_msgs lowercase line);
            already = map vi_msg (filter (\<lambda>v. vi_line v = no \<and> vi_file v = f) findings)
        in findings @ viol (marker_msgs already line))"

section \<open>A source tree\<close>

text \<open>A directory lists its entries with their names; a file has its text, unless it is not UTF-8.\<close>

datatype node = Symlink | Dir "(string \<times> node) list" | Source "string option"

fun walk_node :: "string list \<Rightarrow> string \<Rightarrow> node \<Rightarrow> (string list \<times> string option) list" where
  "walk_node dir name Symlink = []"
| "walk_node dir name (Source t) = [(dir @ [name], t)]"
| "walk_node dir name (Dir es) =
     (if name \<in> set skip_dirs then []
      else concat (map (\<lambda>(n, e). walk_node (dir @ [name]) n e) (sort_key fst es)))"

definition walk :: "(string \<times> node) list \<Rightarrow> (string list \<times> string option) list" where
  "walk es = concat (map (\<lambda>(n, e). walk_node [] n e) (sort_key fst es))"

text \<open>\<open>str::lines\<close>: a line ending is a newline with a carriage return before it or not; behind the last one
  there is no empty line, and a text that ends without one keeps its last character, a carriage return too.\<close>

definition file_lines :: "string \<Rightarrow> string list" where
  "file_lines text =
     (let parts = split_on (\<lambda>c. c = CHR 0x0A) text
      in map (\<lambda>l. case strip_suffix [CHR 0x0D] l of Some r \<Rightarrow> r | None \<Rightarrow> l) (butlast parts)
         @ (if last parts = [] then [] else [last parts]))"

definition skip_path :: "string \<Rightarrow> string list \<Rightarrow> bool" where
  "skip_path root names \<longleftrightarrow>
     list_ex (\<lambda>d. Normal d \<in> set (components root) \<or> d \<in> set names) skip_dirs"

definition is_test_file :: "(string \<Rightarrow> string) \<Rightarrow> string \<Rightarrow> bool" where
  "is_test_file lowercase name \<longleftrightarrow>
     (let n = lowercase name in
      sublist ''.test.'' n \<or> sublist ''.spec.'' n \<or> suffix ''_test.go'' n \<or> suffix ''_test.rs'' n
      \<or> suffix ''_test.exs'' n \<or> prefix ''test_'' n)"

definition source_ext :: "(string \<Rightarrow> string) \<Rightarrow> string \<Rightarrow> string list \<Rightarrow> string option" where
  "source_ext lowercase root names =
     (case map_option lowercase (extension (last names)) of
        None \<Rightarrow> None
      | Some e \<Rightarrow>
          if e \<notin> set exts \<or> skip_path root names \<or> is_test_file lowercase (last names) then None else Some e)"

text \<open>A Rust file is read up to its test module.\<close>

definition scanned_lines :: "string \<Rightarrow> string list \<Rightarrow> string list" where
  "scanned_lines ext lines =
     map snd (takeWhile (\<lambda>(i, l). \<not> (ext = ''rs'' \<and> prefix ''#[cfg(test)]'' (trim_start l) \<and> next_is_mod lines i))
       (enumerate 0 lines))"

definition has_marker :: "string \<Rightarrow> bool" where
  "has_marker line \<longleftrightarrow> sublist ''ores-trace-'' line \<or> sublist ''ores-routine-'' line"

definition check_lines :: "(string \<Rightarrow> string) \<Rightarrow> string \<Rightarrow> string list \<Rightarrow> violation list \<Rightarrow> violation list" where
  "check_lines lowercase f ls findings =
     foldl (\<lambda>fs (i, l). check_line lowercase f (i + 1) l fs) findings (enumerate 0 ls)"

record scan_state =
  sc_findings :: "violation list"
  sc_checked :: nat
  sc_markers :: nat

definition ignore_mark :: string where
  "ignore_mark = ''ores-trace-contract:ignore-file''"

definition check_file :: "(string \<Rightarrow> string) \<Rightarrow> string \<Rightarrow> scan_state \<Rightarrow> string list \<times> string option \<Rightarrow> scan_state" where
  "check_file lowercase root st f =
     (case f of (names, text) \<Rightarrow>
        (case source_ext lowercase root names of
           None \<Rightarrow> st
         | Some ext \<Rightarrow>
             let rel = join ''/'' names in
             (case text of
                None \<Rightarrow>
                  st\<lparr>sc_findings := sc_findings st @ [\<lparr>vi_file = rel, vi_line = 0,
                    vi_msg = ''source file could not be read as UTF-8, so it was not checked''\<rparr>]\<rparr>
              | Some t \<Rightarrow>
                  if sublist ignore_mark t then st
                  else
                    let ls = scanned_lines ext (file_lines t) in
                    \<lparr>sc_findings = check_lines lowercase rel ls (sc_findings st),
                     sc_checked = sc_checked st + 1,
                     sc_markers = sc_markers st + length (filter has_marker ls)\<rparr>)))"

datatype verdict = Refused string | Clean nat nat | Violations "violation list"

definition vacuous_scan :: "string \<Rightarrow> bool \<Rightarrow> nat \<Rightarrow> string option" where
  "vacuous_scan root is_dir checked =
     (if \<not> is_dir then Some (''root '' @ root @ '' is not a directory'')
      else if checked = 0 then
        Some (''no source files were checked under '' @ root @ ''; refusing to report a scan that covered nothing'')
      else None)"

text \<open>\<open>tree\<close> is the listing of the root, if the root is a directory.\<close>

definition contract_main :: "(string \<Rightarrow> string) \<Rightarrow> string \<Rightarrow> (string \<times> node) list option \<Rightarrow> verdict" where
  "contract_main lowercase root tree =
     (let files = (case tree of None \<Rightarrow> [] | Some es \<Rightarrow> walk es);
          st = foldl (check_file lowercase root) \<lparr>sc_findings = [], sc_checked = 0, sc_markers = 0\<rparr> files
      in case vacuous_scan root (tree \<noteq> None) (sc_checked st) of
           Some reason \<Rightarrow> Refused reason
         | None \<Rightarrow>
             if sc_findings st = [] then Clean (sc_checked st) (sc_markers st) else Violations (sc_findings st))"

fun exit_ok :: "verdict \<Rightarrow> bool" where
  "exit_ok (Clean checked markers) = True"
| "exit_ok _ = False"

end
