(* ===== verification/TraceContract_Soundness.thy ===== *)
theory TraceContract_Soundness
  imports TraceContract
begin

text \<open>
  What a clean scan means: no literal call site in a scanned line carries an incompatible identifier,
  and the grammar of identifiers with its canonical subset.
\<close>

section \<open>Identifiers\<close>

lemma id_chars_not_cont: "list_all is_id_char s \<Longrightarrow> \<forall>c \<in> set s. \<not> is_cont c"
proof
  fix c assume "list_all is_id_char s" "c \<in> set s"
  then have "is_id_char c" by (simp add: list_all_iff)
  then show "\<not> is_cont c"
    by (auto simp: is_id_char_def alnum_not_cont) (simp_all add: is_cont_def code_def)
qed

lemma id_width: "list_all is_id_char s \<Longrightarrow> length (utf8_chars s) = length s"
  using utf8_chars_ascii [OF id_chars_not_cont] by simp

lemma strip_case: "(case strip_prefix p s of Some r \<Rightarrow> P r | None \<Rightarrow> False) \<longleftrightarrow> (\<exists>r. s = p @ r \<and> P r)"
  by (auto simp: strip_prefix_def prefix_def)

lemma strip_prefix_append [simp]: "strip_prefix p (p @ r) = Some r"
  by (simp add: strip_prefix_Some)

lemma id_ok_iff: "id_ok i kind \<longleftrightarrow>
    (\<exists>rest. i = id_prefix kind @ rest \<and> 12 \<le> length rest \<and> length rest \<le> 64 \<and> list_all is_id_char rest)"
  unfolding id_ok_def strip_case Let_def min_id_width_def max_id_width_def using id_width by auto

lemma canonical_iff: "canonical_generated_id i kind \<longleftrightarrow>
    (\<exists>rest. i = id_prefix kind @ rest \<and> length rest = 21 \<and> list_all is_id_char rest)"
  unfolding canonical_generated_id_def strip_case canonical_generator_width_def using id_width by auto

lemma canonical_is_ok: "canonical_generated_id i kind \<Longrightarrow> id_ok i kind"
  by (auto simp: canonical_iff id_ok_iff)

section \<open>A literal call is found\<close>

lemma not_ws_start: "c \<in> insert CHR ''('' quote_chars \<Longrightarrow> \<not> is_ws (c # xs)"
  by (auto simp: is_ws_def unicode_whitespace_def quote_chars_def)

lemma trim_start_here: "c \<in> insert CHR ''('' quote_chars \<Longrightarrow> trim_start (c # s) = c # s"
proof -
  assume "c \<in> insert CHR ''('' quote_chars"
  then have "dropWhile is_ws (utf8_chars (c # s)) = utf8_chars (c # s)" by (simp add: not_ws_start)
  then show ?thesis unfolding trim_start_def by (simp only: concat_utf8_chars)
qed

lemma literal_arg_here:
  assumes "q \<in> quote_chars" and "q \<notin> set i"
  shows "literal_arg (CHR ''('' # q # i @ q # post) = Some (Some i)"
  using assms by (simp add: literal_arg_def trim_start_here takeWhile_append)

definition name_char :: "char \<Rightarrow> bool" where
  "name_char c \<longleftrightarrow> is_alnum c \<or> c = CHR ''_''"

lemma continues: "us \<noteq> [] \<Longrightarrow> list_all name_char us \<Longrightarrow> continues_name (us @ s)"
  by (cases us) (simp_all add: continues_name_def name_char_def)

lemma paren_no_name: "\<not> name_char CHR ''(''"
  by (simp add: name_char_def char_class_defs)

lemma method_at_hit:
  assumes "m \<in> set ms" and "\<And>k. k \<in> set ms \<Longrightarrow> list_all name_char k" and "q \<in> quote_chars" and "q \<notin> set i"
  shows "method_at ms (m @ CHR ''('' # q # i @ q # post) = [(m, Some i)]"
  using assms(1,2)
proof (induction ms)
  case (Cons k ms)
  let ?call = "CHR ''('' # q # i @ q # post"
  show ?case
  proof (cases "m = k")
    case True
    have "\<not> continues_name ?call" using paren_no_name by (simp add: continues_name_def name_char_def)
    with True show ?thesis
      using literal_arg_here [OF assms(3,4)] by simp
  next
    case False
    then have IH: "method_at ms (m @ ?call) = [(m, Some i)]" using Cons by auto
    show ?thesis
    proof (cases "strip_prefix k (m @ ?call)")
      case (Some after)
      then have eq: "m @ ?call = k @ after" by (simp add: strip_prefix_Some)
      have names: "list_all name_char m" "list_all name_char k" using Cons.prems by auto
      from eq obtain us where "m = k @ us \<and> us @ ?call = after \<or> m @ us = k \<and> ?call = us @ after"
        unfolding append_eq_append_conv2 by auto
      then show ?thesis
      proof
        assume us: "m = k @ us \<and> us @ ?call = after"
        then have "us \<noteq> []" and "list_all name_char us" using False names by auto
        then have "continues_name after" using us continues by blast
        then show ?thesis using Some IH by simp
      next
        assume us: "m @ us = k \<and> ?call = us @ after"
        then have "us \<noteq> []" using False by auto
        then have "CHR ''('' \<in> set us" using us by (cases us) auto
        then have False using us names(2) paren_no_name by (auto simp: list_all_iff)
        then show ?thesis ..
      qed
    qed (simp add: IH)
  qed
qed simp

lemma scan_from_at:
  "(case (if pre = [] then b else Some (last pre)) of None \<Rightarrow> True | Some q \<Rightarrow> q \<notin> quote_chars) \<Longrightarrow>
     set (method_at ms rest) \<subseteq> set (scan_from ms b (pre @ CHR ''.'' # rest))"
  by (induction pre arbitrary: b) (auto split: if_splits)

lemma names_of_methods: "k \<in> set trace_methods \<union> set routine_methods \<Longrightarrow> list_all name_char k"
  by (auto simp: trace_methods_def routine_methods_def name_char_def char_class_defs)

lemma call_found:
  assumes "m \<in> set methods" and "set methods \<subseteq> set trace_methods \<union> set routine_methods"
    and "q \<in> quote_chars" and "q \<notin> set i" and "pre = [] \<or> last pre \<notin> quote_chars"
  shows "(m, Some i) \<in> set (scan_calls (pre @ CHR ''.'' # m @ CHR ''('' # q # i @ q # post) methods)"
proof -
  have "method_at (by_length methods) (m @ CHR ''('' # q # i @ q # post) = [(m, Some i)]"
    using assms(1,2) names_of_methods by (intro method_at_hit assms(3,4)) (auto simp: by_length_def)
  then show ?thesis
    unfolding scan_calls_def
    using scan_from_at [of pre None "by_length methods" "m @ CHR ''('' # q # i @ q # post"] assms(5) by auto
qed

section \<open>Violations are never lost\<close>

lemma check_line_grows: "set findings \<subseteq> set (check_line lc f no line findings)"
  by (auto simp: check_line_def Let_def)

lemma foldl_grows:
  assumes "\<And>s x. g s \<subseteq> g (step s x)"
  shows "g s \<subseteq> g (foldl step s xs)"
proof (induction xs arbitrary: s)
  case (Cons x xs)
  have "g s \<subseteq> g (step s x)" by (rule assms)
  also have "\<dots> \<subseteq> g (foldl step (step s x) xs)" by (rule Cons.IH)
  finally show ?case by simp
qed simp

lemma foldl_reaches:
  assumes "\<And>s x. g s \<subseteq> g (step s x)" and "x \<in> set xs" and "\<And>s. g (step s x) \<noteq> {}"
  shows "g (foldl step s xs) \<noteq> {}"
proof -
  obtain ys zs where "xs = ys @ x # zs" using assms(2) by (meson split_list)
  then have "foldl step s xs = foldl step (step (foldl step s ys) x) zs" by simp
  with foldl_grows [of g step "step (foldl step s ys) x" zs, OF assms(1)] assms(3) show ?thesis by force
qed

lemma numbered_line_grows: "set fs \<subseteq> set ((\<lambda>fs (i, l). check_line lc f (i + 1) l fs) fs e)"
  using check_line_grows by (cases e) simp

lemma check_lines_grows: "set findings \<subseteq> set (check_lines lc f ls findings)"
  unfolding check_lines_def
  by (rule foldl_grows [where step = "\<lambda>fs (i, l). check_line lc f (i + 1) l fs", OF numbered_line_grows])

lemma check_file_grows: "set (sc_findings st) \<subseteq> set (sc_findings (check_file lc root st f))"
  using check_lines_grows by (simp add: check_file_def Let_def split: prod.split option.split) blast

lemma map_filter_Nil: "List.map_filter f xs = [] \<longleftrightarrow> (\<forall>x \<in> set xs. f x = None)"
  by (induction xs) (auto simp: map_filter_simps split: option.split)

lemma bad_call_reported:
  assumes "(m, Some i) \<in> set (scan_calls line methods)" and "\<not> id_ok i kind" and "\<not> is_comment line"
    and "(methods, kind) \<in> {(trace_methods, ''trace''), (routine_methods, ''routine'')}"
  shows "check_line lc f no line findings \<noteq> []"
proof -
  have "call_msgs kind methods line \<noteq> []"
    unfolding call_msgs_def map_filter_Nil using assms(1,2)
    by (intro notI) (drule bspec [of _ _ "(m, Some i)"], simp_all)
  then have "call_msgs ''trace'' trace_methods line \<noteq> [] \<or> call_msgs ''routine'' routine_methods line \<noteq> []"
    using assms(4) by auto
  then show ?thesis using assms(3) by (auto simp: check_line_def Let_def)
qed

lemma fold_line:
  assumes "\<And>no fs. check_line lc f no line fs \<noteq> []" and "line \<in> set ls"
  shows "check_lines lc f ls findings \<noteq> []"
proof -
  have "line \<in> snd ` set (enumerate 0 ls)" using assms(2) by (metis list.set_map map_snd_enumerate)
  then obtain n where "(n, line) \<in> set (enumerate 0 ls)" by auto
  from foldl_reaches [where g = set and step = "\<lambda>fs (i, l). check_line lc f (i + 1) l fs", OF numbered_line_grows this]
  show ?thesis
    unfolding check_lines_def using assms(1) by simp
qed

lemma fold_file:
  assumes "f \<in> set fs" and "\<And>st. sc_findings (check_file lc root st f) \<noteq> []"
  shows "sc_findings (foldl (check_file lc root) st fs) \<noteq> []"
  using foldl_reaches [where g = "\<lambda>st. set (sc_findings st)", OF check_file_grows assms(1)] assms(2) by simp

text \<open>C32: when the check of a source tree succeeds, every literal call site of a trace or routine method in
  the scanned part of a checked file carries an identifier of its kind's prefix and 12 to 64 letters,
  digits, underscores or hyphens: no call site is missed, whatever else stands on its line, unless
  the line is a comment or the call follows a quote.\<close>

theorem clean_scan_is_compatible:
  assumes "contract_main lc root (Some es) = Clean checked markers"
    and "(names, Some text) \<in> set (walk es)" and "source_ext lc root names = Some ext" and "\<not> sublist ignore_mark text"
    and "line \<in> set (scanned_lines ext (file_lines text))" and "\<not> is_comment line"
    and "(methods, kind) \<in> {(trace_methods, ''trace''), (routine_methods, ''routine'')}" and "m \<in> set methods"
    and "line = pre @ CHR ''.'' # m @ CHR ''('' # q # i @ q # post" and "q \<in> quote_chars" and "q \<notin> set i"
    and "pre = [] \<or> last pre \<notin> quote_chars"
  shows "\<exists>rest. i = ''ores-'' @ kind @ ''-'' @ rest \<and> 12 \<le> length rest \<and> length rest \<le> 64 \<and> list_all is_id_char rest"
proof (rule ccontr)
  assume no: "\<not> ?thesis"
  have bad: "\<not> id_ok i kind" using no unfolding id_ok_iff id_prefix_def append_assoc .
  have sub: "set methods \<subseteq> set trace_methods \<union> set routine_methods" using assms(7) by auto
  have call: "(m, Some i) \<in> set (scan_calls line methods)"
    unfolding assms(9) by (rule call_found [OF assms(8) sub assms(10,11,12)])
  have "check_lines lc f (scanned_lines ext (file_lines text)) fs \<noteq> []" for f fs
    by (rule fold_line [OF bad_call_reported [OF call bad assms(6,7)] assms(5)])
  then have "sc_findings (check_file lc root st (names, Some text)) \<noteq> []" for st
    using assms(3,4) by (simp add: check_file_def Let_def)
  then have "sc_findings (foldl (check_file lc root) st (walk es)) \<noteq> []" for st
    by (rule fold_file [OF assms(2)])
  then show False
    using assms(1) by (simp add: contract_main_def Let_def split: option.splits if_splits)
qed

definition sample_id :: string where
  "sample_id = ''ores-trace-ABCDEFabcdef''"

definition sample_line :: string where
  "sample_line = ''l.add_trace('' @ [CHR 0x22] @ sample_id @ [CHR 0x22] @ '');''"

definition sample_tree :: "(string \<times> node) list" where
  "sample_tree = [(''src'', Dir [(''a.rs'', Source (Some sample_line))])]"

lemma sample_calls: "scan_calls sample_line trace_methods = [(''add_trace'', Some sample_id)]"
  by code_simp

lemma sample_id_ok: "id_ok sample_id ''trace''"
  by code_simp

lemma sample_line_facts:
  "\<not> is_comment sample_line" "\<not> is_matcher sample_line" "legacy_msgs sample_line = []"
  "call_msgs ''routine'' routine_methods sample_line = []"
  "hoisted_trace_decl ascii_lower sample_line = None" "marker_literals sample_line = [(''trace'', sample_id)]"
  by code_simp+

lemma sample_has_marker: "has_marker sample_line"
  by code_simp

lemma sample_file_facts:
  "walk sample_tree = [([''src'', ''a.rs''], Some sample_line)]"
  "source_ext ascii_lower ''.'' [''src'', ''a.rs''] = Some ''rs''" "\<not> sublist ignore_mark sample_line"
  by code_simp+

lemma sample_lines: "file_lines sample_line = [sample_line]"
proof -
  have "split_on (\<lambda>c. c = CHR 0x0A) sample_line = [sample_line]"
    by (rule split_on_none) (simp add: sample_line_def sample_id_def)
  moreover have "sample_line \<noteq> []" by code_simp
  ultimately show ?thesis by (simp add: file_lines_def)
qed

lemma sample_scanned: "scanned_lines ''rs'' [sample_line] = [sample_line]"
proof -
  have "\<not> prefix ''#[cfg(test)]'' (trim_start sample_line)" by code_simp
  then show ?thesis by (simp add: scanned_lines_def del: prefix_code)
qed

lemma sample_line_clean: "check_line ascii_lower f no sample_line [] = []"
  by (simp add: check_line_def Let_def sample_line_facts call_msgs_def [of "''trace''"] sample_calls sample_id_ok
      hoisted_msgs_def marker_msgs_def map_filter_simps)

lemma sample_scan: "contract_main ascii_lower ''.'' (Some sample_tree) = Clean 1 1"
  by (simp add: contract_main_def Let_def sample_file_facts sample_lines sample_scanned check_file_def check_lines_def sample_line_clean
      sample_has_marker vacuous_scan_def)

theorem clean_scan_is_compatible_witness:
  "contract_main ascii_lower ''.'' (Some sample_tree) = Clean 1 1
   \<and> (\<exists>rest. sample_id = ''ores-trace-'' @ rest \<and> 12 \<le> length rest)"
proof -
  have f: "([''src'', ''a.rs''], Some sample_line) \<in> set (walk sample_tree)"
    and l: "sample_line \<in> set (scanned_lines ''rs'' (file_lines sample_line))"
    and m: "''add_trace'' \<in> set trace_methods"
    by (simp_all add: sample_file_facts sample_lines sample_scanned trace_methods_def)
  have line: "sample_line = ''l'' @ CHR ''.'' # ''add_trace'' @ CHR ''('' # CHR 0x22 # sample_id @ CHR 0x22 # '');''"
    by (simp add: sample_line_def)
  have q: "CHR 0x22 \<in> quote_chars" "CHR 0x22 \<notin> set sample_id" "''l'' = [] \<or> last ''l'' \<notin> quote_chars"
    by (simp_all add: quote_chars_def sample_id_def)
  have "\<exists>rest. sample_id = ''ores-'' @ ''trace'' @ ''-'' @ rest \<and> 12 \<le> length rest \<and> length rest \<le> 64
      \<and> list_all is_id_char rest"
    by (rule clean_scan_is_compatible [OF sample_scan f sample_file_facts(2,3) l sample_line_facts(1) _ m line q]) simp
  with sample_scan show ?thesis by auto
qed

end
