(* ===== verification/Coordinator_Tests.thy ===== *)
theory Coordinator_Tests
  imports Coordinator_Demo
begin

text \<open>
  The unit tests of the reference coordinator (tools/reference-fleet/src/lib.rs), as programs over the
  model: each runs to its end, so the model answers as the tests say the code does.
\<close>

definition passes :: "(coordinator, unit) io \<Rightarrow> bool" where
  "passes test \<longleftrightarrow> fst (test coordinator_default) = Inr ()"

abbreviation claiming :: "string \<Rightarrow> string \<Rightarrow> u64 \<Rightarrow> (coordinator, claim_error + lease) io" where
  "claiming resource holder ttl \<equiv> calling (\<lambda>c. claim c resource holder ttl)"

abbreviation committing :: "string \<Rightarrow> string \<Rightarrow> u64 \<Rightarrow> (coordinator, bool) io" where
  "committing resource holder token \<equiv> doing (\<lambda>c. commit_if_current c resource holder token)"

abbreviation advancing :: "u64 \<Rightarrow> (coordinator, unit) io" where
  "advancing s \<equiv> io_do (\<lambda>c. advance c s)"

definition exactly_one_agent_wins_a_task_race :: "(coordinator, unit) io" where
  "exactly_one_agent_wins_a_task_race =
     io_bind (claiming ''task:42'' ''coder-a'' 10) (\<lambda>r.
     io_bind (unwrap r) (\<lambda>winner.
     io_bind (claiming ''task:42'' ''coder-b'' 10) (\<lambda>r.
     io_bind (assert_m (r = Inl (HeldBy ''coder-a'' 10))) (\<lambda>_.
     io_bind (committing ''task:42'' ''coder-a'' (lease_token winner)) assert_m))))"

definition lease_renewal_extends_authority :: "(coordinator, unit) io" where
  "lease_renewal_extends_authority =
     io_bind (claiming ''task:42'' ''coder-a'' 5) (\<lambda>r.
     io_bind (unwrap r) (\<lambda>l.
     io_bind (advancing 4) (\<lambda>_.
     io_bind (calling (\<lambda>c. renew c ''task:42'' ''coder-a'' (lease_token l) 5)) (\<lambda>renewed.
     io_bind (assert_m renewed) (\<lambda>_.
     io_bind (advancing 4) (\<lambda>_.
     io_bind (committing ''task:42'' ''coder-a'' (lease_token l)) (\<lambda>committed.
     io_bind (assert_m committed) (\<lambda>_.
     io_bind (advancing 1) (\<lambda>_.
     io_bind (calling (\<lambda>c. renew c ''task:42'' ''coder-a'' (lease_token l) 5)) (\<lambda>revived.
       assert_m (\<not> revived)))))))))))"

definition superseded_holder_is_rejected_by_fencing_token :: "(coordinator, unit) io" where
  "superseded_holder_is_rejected_by_fencing_token =
     io_bind (claiming ''task:42'' ''coder-a'' 5) (\<lambda>r.
     io_bind (unwrap r) (\<lambda>stale.
     io_bind (advancing 5) (\<lambda>_.
     io_bind (claiming ''task:42'' ''coder-b'' 5) (\<lambda>r.
     io_bind (unwrap r) (\<lambda>current.
     io_bind (assert_m (lease_token stale < lease_token current)) (\<lambda>_.
     io_bind (committing ''task:42'' ''coder-a'' (lease_token stale)) (\<lambda>old.
     io_bind (assert_m (\<not> old)) (\<lambda>_.
     io_bind (committing ''task:42'' ''coder-b'' (lease_token current)) assert_m))))))))"

definition supervisor_fails_over_only_after_expiry :: "(coordinator, unit) io" where
  "supervisor_fails_over_only_after_expiry =
     io_bind (claiming ''leader:workspace-a'' ''planner-a'' 3) (\<lambda>r.
     io_bind (unwrap r) (\<lambda>_.
     io_bind (advancing 2) (\<lambda>_.
     io_bind (claiming ''leader:workspace-a'' ''planner-b'' 3) (\<lambda>r.
     io_bind (assert_m (\<not> is_ok r)) (\<lambda>_.
     io_bind (advancing 1) (\<lambda>_.
     io_bind (claiming ''leader:workspace-a'' ''planner-b'' 3) (\<lambda>r.
     io_bind (unwrap r) (\<lambda>l. assert_m (lease_holder l = ''planner-b'')))))))))"

definition semaphore_capacity_is_shared_across_workers :: "(coordinator, unit) io" where
  "semaphore_capacity_is_shared_across_workers =
     io_bind (calling (\<lambda>c. acquire_slot c ''browser'' ''research-a'' 2 5)) (\<lambda>a.
     io_bind (assert_m a) (\<lambda>_.
     io_bind (calling (\<lambda>c. acquire_slot c ''browser'' ''research-b'' 2 5)) (\<lambda>b.
     io_bind (assert_m b) (\<lambda>_.
     io_bind (calling (\<lambda>c. acquire_slot c ''browser'' ''research-c'' 2 5)) (\<lambda>c.
     io_bind (assert_m (\<not> c)) (\<lambda>_.
     io_bind (advancing 5) (\<lambda>_.
     io_bind (calling (\<lambda>c. acquire_slot c ''browser'' ''research-c'' 2 5)) assert_m)))))))"

definition quota_is_shared_and_resets_at_the_window_boundary :: "(coordinator, unit) io" where
  "quota_is_shared_and_resets_at_the_window_boundary =
     io_bind (calling (\<lambda>c. consume_quota c ''llm:org-a'' 6 10 60)) (\<lambda>a.
     io_bind (assert_m a) (\<lambda>_.
     io_bind (calling (\<lambda>c. consume_quota c ''llm:org-a'' 4 10 60)) (\<lambda>b.
     io_bind (assert_m b) (\<lambda>_.
     io_bind (calling (\<lambda>c. consume_quota c ''llm:org-a'' 1 10 60)) (\<lambda>c.
     io_bind (assert_m (\<not> c)) (\<lambda>_.
     io_bind (advancing 60) (\<lambda>_.
     io_bind (calling (\<lambda>c. consume_quota c ''llm:org-a'' 10 10 60)) assert_m)))))))"

definition dead_worker_disappears_after_heartbeat_ttl :: "(coordinator, unit) io" where
  "dead_worker_disappears_after_heartbeat_ttl =
     io_bind (calling (\<lambda>c. heartbeat c ''coder-a'' 5)) (\<lambda>_.
     io_bind (advancing 4) (\<lambda>_.
     io_bind (doing (\<lambda>c. worker_is_alive c ''coder-a'')) (\<lambda>alive.
     io_bind (assert_m alive) (\<lambda>_.
     io_bind (advancing 1) (\<lambda>_.
     io_bind (doing (\<lambda>c. worker_is_alive c ''coder-a'')) (\<lambda>alive.
     io_bind (assert_m (\<not> alive)) (\<lambda>_.
     io_bind (io_get (\<lambda>c. heartbeat_expired (metrics c))) (\<lambda>n.
     io_bind (assert_m (n = 1)) (\<lambda>_.
     io_bind (doing (\<lambda>c. worker_is_alive c ''coder-a'')) (\<lambda>alive.
     io_bind (assert_m (\<not> alive)) (\<lambda>_.
     io_bind (io_get (\<lambda>c. heartbeat_expired (metrics c))) (\<lambda>n.
       assert_m (n = 1)))))))))))))"

definition cron_fire_is_not_duplicated_across_leader_failover :: "(coordinator, unit) io" where
  "cron_fire_is_not_duplicated_across_leader_failover =
     io_bind (claiming ''leader:workspace-a'' ''planner-a'' 2) (\<lambda>r.
     io_bind (unwrap r) (\<lambda>first.
     io_bind (doing (\<lambda>c. fire_cron_once c ''leader:workspace-a'' ''planner-a'' (lease_token first) ''daily-review'' 86400)) (\<lambda>fired.
     io_bind (assert_m fired) (\<lambda>_.
     io_bind (advancing 2) (\<lambda>_.
     io_bind (claiming ''leader:workspace-a'' ''planner-b'' 2) (\<lambda>r.
     io_bind (unwrap r) (\<lambda>second.
     io_bind (doing (\<lambda>c. fire_cron_once c ''leader:workspace-a'' ''planner-b'' (lease_token second) ''daily-review'' 86400)) (\<lambda>again.
     io_bind (assert_m (\<not> again)) (\<lambda>_.
     io_bind (io_get (\<lambda>c. cron_duplicate_suppressed (metrics c))) (\<lambda>n.
       assert_m (n = 1)))))))))))"

definition cas_rejects_stale_revision_and_emits_watch_event :: "(coordinator, unit) io" where
  "cas_rejects_stale_revision_and_emits_watch_event =
     io_bind (doing (\<lambda>c. cas c ''fleet:model'' 0 ''gpt-primary'')) (\<lambda>r.
     io_bind (unwrap r) (\<lambda>first.
     io_bind (assert_m (kv_revision first = 1)) (\<lambda>_.
     io_bind (doing (\<lambda>c. cas c ''fleet:model'' 0 ''stale-write'')) (\<lambda>r.
     io_bind (assert_m (r = Inl (RevisionMismatch 0 1))) (\<lambda>_.
     io_bind (doing (\<lambda>c. cas c ''fleet:model'' 1 ''gpt-fallback'')) (\<lambda>r.
     io_bind (unwrap r) (\<lambda>second.
     io_bind (assert_m (kv_revision second = 2)) (\<lambda>_.
     io_bind (io_get (\<lambda>c. length (watch_events c))) (\<lambda>n.
       assert_m (n = 2))))))))))"

definition external_side_effect_requires_an_idempotency_key :: "(coordinator, unit) io" where
  "external_side_effect_requires_an_idempotency_key =
     io_bind (doing (\<lambda>c. perform_side_effect_once c ''email:task-42'' ''send'')) (\<lambda>sent.
     io_bind (assert_m sent) (\<lambda>_.
     io_bind (doing (\<lambda>c. perform_side_effect_once c ''email:task-42'' ''retry'')) (\<lambda>again.
     io_bind (assert_m (\<not> again)) (\<lambda>_.
     io_bind (io_get (\<lambda>c. side_effect_duplicates_suppressed (metrics c))) (\<lambda>n.
       assert_m (n = 1))))))"

lemmas program_eval = passes_def calling_def doing_def unwrap_def assert_m_def io_bind_def io_return_def io_do_def
  io_get_def coordinator_default_def metrics_default_def coordinator_ops active_lease_def sat_add_def sat_sub_def
  hm_defs Let_def is_ok_def

lemma coordinator_tests_pass:
  "passes exactly_one_agent_wins_a_task_race" "passes lease_renewal_extends_authority"
  "passes superseded_holder_is_rejected_by_fencing_token" "passes supervisor_fails_over_only_after_expiry"
  "passes semaphore_capacity_is_shared_across_workers" "passes quota_is_shared_and_resets_at_the_window_boundary"
  "passes dead_worker_disappears_after_heartbeat_ttl" "passes cron_fire_is_not_duplicated_across_leader_failover"
  "passes cas_rejects_stale_revision_and_emits_watch_event" "passes external_side_effect_requires_an_idempotency_key"
  unfolding exactly_one_agent_wins_a_task_race_def lease_renewal_extends_authority_def
    superseded_holder_is_rejected_by_fencing_token_def supervisor_fails_over_only_after_expiry_def
    semaphore_capacity_is_shared_across_workers_def quota_is_shared_and_resets_at_the_window_boundary_def
    dead_worker_disappears_after_heartbeat_ttl_def cron_fire_is_not_duplicated_across_leader_failover_def
    cas_rejects_stale_revision_and_emits_watch_event_def external_side_effect_requires_an_idempotency_key_def
  by (simp_all add: program_eval)

end
