(* ===== verification/Service_Tests.thy ===== *)
theory Service_Tests
  imports ControlPlane EventBus_Replay
begin

text \<open>
  Unit tests of the control-plane client and the event bus (src/src/control_plane.rs,
  src/src/event_bus.rs) as assertions on the model, one definition per test. What the redaction of a
  text does is left to its own component.
\<close>

section \<open>The control-plane client\<close>

definition organisation :: string where
  "organisation = ''fiducia-ai-control-plane''"

definition builds :: "governance_mode \<Rightarrow> string option \<Rightarrow> string option \<Rightarrow> string option \<Rightarrow> string option \<Rightarrow> bool" where
  "builds mode base secret node node_secret \<longleftrightarrow>
     is_ok (control_plane_new mode base secret node node_secret organisation ''agent-1'')"

definition authority_mode_cannot_be_inferred_from_a_missing_url :: bool where
  "authority_mode_cannot_be_inferred_from_a_missing_url \<longleftrightarrow>
     \<not> builds Governed None None None None
     \<and> (case control_plane_new UngovernedLocalOnly None None None None organisation ''agent-1'' of
          Inl _ \<Rightarrow> False
        | Inr local \<Rightarrow> \<not> cp_enabled local \<and> cp_governance_mode local = UngovernedLocalOnly)
     \<and> \<not> builds UngovernedLocalOnly (Some ''http://cp.invalid'') (Some ''cp-secret'') (Some ''http://node.invalid'')
           (Some ''node-secret'')"

lemma authority_mode_cannot_be_inferred_from_a_missing_url: authority_mode_cannot_be_inferred_from_a_missing_url
  by code_simp

definition governed_mode_requires_direct_node_authority :: bool where
  "governed_mode_requires_direct_node_authority \<longleftrightarrow>
     \<not> builds Governed (Some ''http://cp.invalid'') (Some ''cp-secret'') None (Some ''node-secret'')
     \<and> \<not> builds Governed (Some ''http://cp.invalid'') (Some ''cp-secret'') (Some ''http://node.invalid'') None
     \<and> \<not> builds Governed (Some ''http://cp.invalid'') None (Some ''http://node.invalid'') (Some ''node-secret'')"

lemma governed_mode_requires_direct_node_authority: governed_mode_requires_direct_node_authority
  by code_simp

definition builds_for :: "string \<Rightarrow> bool" where
  "builds_for org \<longleftrightarrow>
     is_ok (control_plane_new Governed (Some ''http://cp.invalid'') (Some ''cp-secret'') (Some ''http://node.invalid'')
       (Some ''node-secret'') org ''agent-1'')"

definition governed_mode_rejects_invalid_node_scope :: bool where
  "governed_mode_rejects_invalid_node_scope \<longleftrightarrow>
     \<not> builds_for ''org with spaces'' \<and> \<not> builds_for (replicate 129 CHR ''x'') \<and> builds_for ''valid-org''"

lemma governed_mode_rejects_invalid_node_scope: governed_mode_rejects_invalid_node_scope
  by code_simp

definition agent_uuid :: string where
  "agent_uuid = ''11111111-1111-4111-8111-111111111111''"

definition parses_authoritative_registration_and_claim_identity :: bool where
  "parses_authoritative_registration_and_claim_identity \<longleftrightarrow>
     registered_agent_id (\<lambda>s. s = agent_uuid) (JObject [(''id'', JString agent_uuid)]) = Inr agent_uuid
     \<and> \<not> is_ok (registered_agent_id (\<lambda>s. s = agent_uuid) (JObject [(''id'', JString ''local-instance'')]))
     \<and> claimed_fencing_token (JObject [(''fencing_token'', JInt 8)]) = Inr 8
     \<and> \<not> is_ok (claimed_fencing_token (JObject [(''fencing_token'', JInt 0)]))"

lemma parses_authoritative_registration_and_claim_identity: parses_authoritative_registration_and_claim_identity
  by code_simp

definition renewal :: "(string \<times> json) list \<Rightarrow> json" where
  "renewal leadership =
     JObject [(''committed'', JBool True),
       (''result'', JObject [(''output'', JObject ((''renewed'', JBool True) # leadership))])]"

definition election_renewal_requires_exact_candidate_and_token :: bool where
  "election_renewal_requires_exact_candidate_and_token \<longleftrightarrow>
     (let response = renewal [(''leadership'', JObject [(''leader'', JString agent_uuid), (''fencing_token'', JInt 8)])]
      in renewal_response_authorizes response agent_uuid 8
         \<and> \<not> renewal_response_authorizes response ''other'' 8 \<and> \<not> renewal_response_authorizes response agent_uuid 9
         \<and> \<not> renewal_response_authorizes (renewal []) agent_uuid 8)"

lemma election_renewal_requires_exact_candidate_and_token: election_renewal_requires_exact_candidate_and_token
  by code_simp

text \<open>A node that answers as given; what else the client talks to plays no part.\<close>

definition node_world :: "(node_client \<Rightarrow> string + json) \<Rightarrow> cp_world" where
  "node_world answer =
     \<lparr>w_send = (\<lambda>_. Inl ''unused''), w_renew = (\<lambda>node _ _ _ _. answer node), w_from_slice = (\<lambda>_. Inl ''unused''),
      w_is_uuid = (\<lambda>_. True), w_show_status = (\<lambda>_. ''unused'')\<rparr>"

definition work_uuid :: string where
  "work_uuid = ''22222222-2222-4222-8222-222222222222''"

definition renews :: "string + control_plane \<Rightarrow> (node_client \<Rightarrow> string + json) \<Rightarrow> bool" where
  "renews client answer \<longleftrightarrow>
     (case client of
        Inl _ \<Rightarrow> False
      | Inr cp \<Rightarrow> is_ok (renew_claim (node_world answer) (cp\<lparr>cp_agent_id := Some agent_uuid\<rparr>)
          \<lparr>wc_work_item_id = work_uuid, wc_fencing_token = 7\<rparr>))"

definition governed_client :: "string \<Rightarrow> string \<Rightarrow> string \<Rightarrow> string + control_plane" where
  "governed_client node_url node_secret org =
     control_plane_new Governed (Some ''http://cp.invalid'') (Some ''cp-secret'') (Some node_url) (Some node_secret) org ''agent-1''"

definition verify_fails_closed_when_node_unreachable :: bool where
  "verify_fails_closed_when_node_unreachable \<longleftrightarrow>
     (let client = governed_client ''http://127.0.0.1:9'' ''  node-secret  '' ''  fiducia-ai-control-plane  ''
      in is_ok client \<and> \<not> renews client (\<lambda>_. Inl ''connection refused''))"

lemma verify_fails_closed_when_node_unreachable: verify_fails_closed_when_node_unreachable
  by code_simp

definition direct_node_client_has_a_request_deadline :: bool where
  "direct_node_client_has_a_request_deadline \<longleftrightarrow>
     (case governed_client ''http://node.invalid'' ''node-secret'' organisation of
        Inl _ \<Rightarrow> False
      | Inr cp \<Rightarrow> (case cp_node cp of
          None \<Rightarrow> False
        | Some node \<Rightarrow> nc_request_timeout_ms node = Some node_fencing_request_timeout_ms))"

lemma direct_node_client_has_a_request_deadline: direct_node_client_has_a_request_deadline
  by code_simp

text \<open>The secret and the organisation travel in headers of the request; the node below accepts no others.\<close>

definition direct_node_renewal_is_authenticated_and_org_scoped :: bool where
  "direct_node_renewal_is_authenticated_and_org_scoped \<longleftrightarrow>
     renews (governed_client ''http://127.0.0.1:4000'' ''  node-secret  '' ''  fiducia-ai-control-plane  '')
       (\<lambda>node. if nc_secret node = ''node-secret'' \<and> nc_org_id node = organisation
               then Inr (renewal [(''leadership'', JObject [(''leader'', JString agent_uuid), (''fencing_token'', JInt 7)])])
               else Inl ''unauthorized'')"

lemma direct_node_renewal_is_authenticated_and_org_scoped: direct_node_renewal_is_authenticated_and_org_scoped
  by code_simp

section \<open>The event bus\<close>

definition bus :: event_bus where
  "bus = event_bus_new None None ''/tmp'' ''test.subject''"

definition ev :: "int \<Rightarrow> string \<Rightarrow> bus_op" where
  "ev seq kind =
     Emit \<lparr>be_task_id = ''t1'', be_thread_id = None, be_user_id = None, be_seq = seq,
           be_event = JObject [(''kind'', JString kind)]\<rparr> 0 ''now''"

definition after :: "bus_op list \<Rightarrow> event_bus" where
  "after ops = foldl (bus_step id) bus ops"

definition history_seqs :: "int \<Rightarrow> event_bus \<Rightarrow> int list option" where
  "history_seqs n b = map_option (\<lambda>(history, _, _). map st_seq history) (subscribe ''t1'' n b)"

definition replays_history_dedupes_and_marks_done :: bool where
  "replays_history_dedupes_and_marks_done \<longleftrightarrow>
     (let b = after [ev 0 ''status'', ev 0 ''status'', ev 1 ''done'']
      in history_seqs (- 1) b = Some [0, 1] \<and> map_option (snd \<circ> snd) (subscribe ''t1'' (- 1) b) = Some True)"

definition subscribe_filters_by_after_seq_for_resume :: bool where
  "subscribe_filters_by_after_seq_for_resume \<longleftrightarrow>
     history_seqs 0 (after [ev 0 ''status'', ev 1 ''claude'', ev 2 ''claude'']) = Some [1, 2]"

text \<open>What a receiver that was created at position \<open>p\<close> is sent.\<close>

definition received_from :: "nat \<Rightarrow> event_bus \<Rightarrow> int list option" where
  "received_from p b = map_option (\<lambda>ch. map st_seq (drop p (ch_sent ch))) (eb_tasks b ''t1'')"

definition live_subscriber_receives_new_events :: bool where
  "live_subscriber_receives_new_events \<longleftrightarrow>
     (case subscribe ''t1'' (- 1) (after [ev 0 ''status'']) of
        None \<Rightarrow> False
      | Some (_, p, _) \<Rightarrow> received_from p (after [ev 0 ''status'', ev 1 ''claude'']) = Some [1])"

definition gc_reclaims_task_buffer :: bool where
  "gc_reclaims_task_buffer \<longleftrightarrow>
     task_exists ''t1'' (after [ev 0 ''done'']) \<and> \<not> task_exists ''t1'' (after [ev 0 ''done'', Gc ''t1''])
     \<and> subscribe ''t1'' (- 1) (after [ev 0 ''done'', Gc ''t1'']) = None"

definition circuit_opens_at_the_failure_threshold :: bool where
  "circuit_opens_at_the_failure_threshold \<longleftrightarrow>
     (let b = (record_failure 0 ^^ 14) bus;
          opened = record_failure 0 b;
          later = circuit_allows (circuit_reset_ms + 1) opened
      in fst (circuit_allows 0 b) \<and> \<not> fst (circuit_allows 0 opened)
         \<and> fst later \<and> consecutive_failures (eb_circuit (snd later)) = 0)"

lemma channel_after: "eb_tasks (after ops) ''t1'' = channel_of (foldl (task_log id ''t1'') [] ops)"
  unfolding after_def bus_def by (rule run_channel) (simp add: event_bus_new_def channel_of_def)

lemma bus_tests:
  replays_history_dedupes_and_marks_done subscribe_filters_by_after_seq_for_resume
  live_subscriber_receives_new_events gc_reclaims_task_buffer
  unfolding replays_history_dedupes_and_marks_done_def subscribe_filters_by_after_seq_for_resume_def
    live_subscriber_receives_new_events_def gc_reclaims_task_buffer_def history_seqs_def received_from_def
  by (auto simp: subscribe_def task_exists_def channel_after task_log_def ev_def stored_of_def channel_of_def
      event_kind_def get_str_def replay_cap_def Let_def)

lemma failures_counted:
  "n < 15 \<Longrightarrow> (record_failure 0 ^^ n) bus =
     bus\<lparr>eb_circuit := \<lparr>consecutive_failures = of_nat n, is_open = False, last_fail_at = 0\<rparr>\<rparr>"
proof (induction n)
  case 0
  show ?case by (simp add: bus_def event_bus_new_def circuit_default_def)
next
  case (Suc n)
  then have "unat (of_nat (Suc n) :: u32) = Suc n"
    by (simp only: unat_of_nat) simp
  with Suc have "\<not> circuit_failure_threshold \<le> (of_nat (Suc n) :: u32)"
    by (simp only: circuit_failure_threshold_def word_le_nat_alt) simp
  with Suc show ?case by (simp add: record_failure_def Let_def add.commute)
qed

lemma circuit_opens_at_the_failure_threshold: circuit_opens_at_the_failure_threshold
  unfolding circuit_opens_at_the_failure_threshold_def Let_def failures_counted [of 14, simplified]
  by (simp add: record_failure_def circuit_allows_def circuit_failure_threshold_def circuit_reset_ms_def
      circuit_default_def Let_def)

text \<open>The newest 2000 of 2050 events are replayed, the oldest 50 are gone.\<close>

definition replay_history_is_capped_and_drops_oldest_first :: bool where
  "replay_history_is_capped_and_drops_oldest_first \<longleftrightarrow>
     history_seqs (- 1) (after (map (\<lambda>k. ev (int k) ''claude'') [0..<2050])) = Some (map int [50..<2050])"

lemma distinct_log:
  "first_per_seq {} (foldl (task_log id ''t1'') [] (map (\<lambda>k. ev (int k) kind) [0..<n])) =
     map (\<lambda>k. stored_of id \<lparr>be_task_id = ''t1'', be_thread_id = None, be_user_id = None, be_seq = int k,
       be_event = JObject [(''kind'', JString kind)]\<rparr>) [0..<n]
   \<and> st_seq ` set (foldl (task_log id ''t1'') [] (map (\<lambda>k. ev (int k) kind) [0..<n])) = int ` {0..<n}"
proof (induction n)
  case (Suc n)
  then show ?case
    by (auto simp: task_log_def ev_def first_per_seq_snoc stored_of_def atLeast0_lessThan_Suc)
qed simp

lemma replay_history_is_capped_and_drops_oldest_first: replay_history_is_capped_and_drops_oldest_first
proof -
  let ?log = "foldl (task_log id ''t1'') [] (map (\<lambda>k. ev (int k) ''claude'') [0..<2050])"
  have "?log \<noteq> []" using distinct_log [of "''claude''" 2050] by (auto simp del: upt_Suc)
  then show ?thesis
    unfolding replay_history_is_capped_and_drops_oldest_first_def history_seqs_def subscribe_def channel_after channel_of_def
    using distinct_log [of "''claude''" 2050]
    by (simp add: Let_def replay_cap_def drop_map stored_of_def filter_map comp_def del: upt_Suc upt_rec_numeral)
qed

definition grinning :: string where
  "grinning = [CHR 0xF0, CHR 0x9F, CHR 0x98, CHR 0x80]"

definition error_log_detail_clips_multibyte_text_on_character_boundaries :: bool where
  "error_log_detail_clips_multibyte_text_on_character_boundaries \<longleftrightarrow>
     length (filter (\<lambda>ch. ch = grinning)
       (utf8_chars (event_log_detail ''error'' (JObject [(''message'', JString (concat (replicate 250 grinning)))])))) = 200"

lemma grinning_start: "concat (replicate n grinning) = [] \<or> \<not> is_cont (hd (concat (replicate n grinning)))"
  by (cases n) (simp_all add: grinning_def is_cont_def code_def)

lemma grinning_chars: "utf8_chars (concat (replicate n grinning)) = replicate n grinning"
proof (induction n)
  case (Suc n)
  have "utf8_chars grinning = [grinning]" by (simp add: grinning_def is_cont_def code_def)
  with Suc show ?case using utf8_chars_append [OF grinning_start [of n], of grinning] by simp
qed simp

lemma error_log_detail_clips_multibyte_text_on_character_boundaries:
  error_log_detail_clips_multibyte_text_on_character_boundaries
proof -
  have detail: "event_log_detail ''error'' (JObject [(''message'', JString (concat (replicate 250 grinning)))])
      = '' message='' @ concat (replicate 200 grinning)"
    unfolding event_log_detail_def get_str_def take_chars_def by (simp add: grinning_chars)
  have "utf8_chars '' message='' = map (\<lambda>c. [c]) '' message=''"
    by (rule utf8_chars_ascii) (simp add: is_cont_def code_def)
  then have "utf8_chars ('' message='' @ concat (replicate 200 grinning)) = map (\<lambda>c. [c]) '' message='' @ replicate 200 grinning"
    by (simp only: utf8_chars_append [OF grinning_start] grinning_chars)
  then show ?thesis
    unfolding error_log_detail_clips_multibyte_text_on_character_boundaries_def detail
    by (simp only: filter_append) (simp add: grinning_def)
qed

end
