(* ===== verification/Outbox_Tests.thy ===== *)
theory Outbox_Tests
  imports Outbox
begin

text \<open>
  The unit tests of the durable outbox (src/src/nats.rs) as assertions on the model, one definition per
  test, in an empty temporary directory and without file errors.
\<close>

definition test_host :: host where
  "test_host =
     \<lparr>url = None, max_attempts = 0, connected = False, last_attempt = None, connect_attempts = 0,
      connect_failures = 0, jetstream_published = 0, core_published = 0, publish_failures = 0,
      serialization_failures = 0, outbox_persist_failures = 0, outbox_pending = 0, outbox_deferred = 0,
      dead_lettered = 0, unconfigured_skips = 0, unavailable_drops = 0,
      up = True, dial_log = [], outbox_dir_exists = False, dead_dir_exists = False, pending_dir = [],
      dead_dir = [], temporaries = [], stream = [], environ = (\<lambda>_. None), monotonic_ms = 0, wall_ms = 0,
      faults = [], dials = [], replies = [], sends = []\<rparr>"

definition bare :: "string option \<Rightarrow> u32 \<Rightarrow> host" where
  "bare u limit = with_outbox u limit test_host"

definition envelope :: "uuid \<Rightarrow> unit envelope" where
  "envelope i =
     \<lparr>env_message_id = i, env_tenant_id = (), env_idempotency_key = ''idem-observability'', env_created_at_ms = 1000,
      env_encoded = Inr [1, 2, 3]\<rparr>"

definition progress :: string where
  "progress = ''fiducia.executions.progress''"

definition test_record :: "uuid \<Rightarrow> outbox_record" where
  "test_record i = event_record (\<lambda>_ k. k) progress (envelope i) [1, 2, 3]"

definition publishing :: "uuid \<Rightarrow> host \<Rightarrow> host" where
  "publishing i = publish_event (\<lambda>_ k. k) progress (envelope i)"

definition unconfigured_publishes_are_counted_as_skips :: bool where
  "unconfigured_publishes_are_counted_as_skips \<longleftrightarrow>
     (let s = publishing 2 (publishing 1 (bare None 3)); snap = snapshot s
      in \<not> snap_configured snap \<and> snap_unconfigured_skips snap = 2 \<and> snap_outbox_pending snap = 0
         \<and> snap_connect_attempts snap = 0 \<and> \<not> outbox_dir_exists s)"

definition unreachable_broker_defers_durable_events :: bool where
  "unreachable_broker_defers_durable_events \<longleftrightarrow>
     (let s = publishing 2 (publishing 1 (bare (Some ''nats://127.0.0.1:1'') 3)); snap = snapshot s
      in snap_outbox_pending snap = 2 \<and> snap_unavailable_drops snap = 0 \<and> snap_outbox_deferred snap = 2
         \<and> snap_connect_attempts snap = 1 \<and> map_sum id length (fst (pending_records s)) = Inr 2)"

definition restart_recovers_pending_event :: bool where
  "restart_recovers_pending_event \<longleftrightarrow>
     (let first = snd (persist_record (test_record 1) (bare (Some ''nats://127.0.0.1:1'') 3));
          restarted = start (with_outbox (Some ''nats://127.0.0.1:1'') 3 first)
      in is_ok (fst restarted) \<and> fst (pending_records (snd restarted)) = Inr [test_record 1])"

definition unacknowledged_jetstream_publish_never_falls_back :: bool where
  "unacknowledged_jetstream_publish_never_falls_back \<longleftrightarrow>
     (let s = snd (persist_record (test_record 1) (bare (Some ''nats://configured'') 3));
          done = finalize_delivery (test_record 1) Unacknowledged 1000 s;
          snap = snapshot (snd done)
      in is_ok (fst done)
         \<and> map_sum id (map (\<lambda>r. (attempts r, dedup_id r))) (fst (pending_records (snd done))) = Inr [(1, ''idem-observability'')]
         \<and> snap_core_published snap = 0 \<and> snap_jetstream_published snap = 0)"

definition exhausted_event_moves_to_queryable_dead_letter_store :: bool where
  "exhausted_event_moves_to_queryable_dead_letter_store \<longleftrightarrow>
     (let s = snd (persist_record (test_record 1) (bare (Some ''nats://configured'') 1));
          done = finalize_delivery (test_record 1) Unacknowledged 1000 s
      in is_ok (fst done) \<and> fst (pending_records (snd done)) = Inr []
         \<and> map_sum id (map (\<lambda>d. (dl_message_id d, dl_dedup_id d, dl_attempts d))) (fst (dead_letters (snd done)))
             = Inr [(1, ''idem-observability'', 1)]
         \<and> snap_dead_lettered (snapshot (snd done)) = 1)"

lemmas outbox_eval = bare_def with_outbox_def test_host_def publishing_def publish_event_def envelope_def test_record_def
  event_record_def snapshot_def persist_record_def prepare_directories_def file_call_def write_record_def remove_pending_def
  rename_to_dead_def move_to_dead_letter_def retry_later_def drain_locked_def drain_outbox_def start_def pending_records_def
  dead_letter_records_def dead_letters_def read_records_def record_order_def client_def connect_retry_ms_def
  outbox_retry_ms_def io_defs hm_defs Let_def is_ok_def sat_add_def i64_sat_def

lemma outbox_tests:
  unconfigured_publishes_are_counted_as_skips unreachable_broker_defers_durable_events restart_recovers_pending_event
  unacknowledged_jetstream_publish_never_falls_back exhausted_event_moves_to_queryable_dead_letter_store
  unfolding unconfigured_publishes_are_counted_as_skips_def unreachable_broker_defers_durable_events_def
    restart_recovers_pending_event_def unacknowledged_jetstream_publish_never_falls_back_def
    exhausted_event_moves_to_queryable_dead_letter_store_def
  by (simp_all add: outbox_eval word_le_nat_alt)

end
