(* ===== verification/TraceContract_Tests.thy ===== *)
theory TraceContract_Tests
  imports TraceContract
begin

text \<open>
  Unit tests of the trace-marker checker (.github/ores-trace-contract.rs) as assertions on the model,
  one definition per test, on ASCII text.
\<close>

definition sample_id :: "string \<Rightarrow> nat \<Rightarrow> string" where
  "sample_id kind width = ''ores-'' @ kind @ ''-'' @ replicate width CHR ''A''"

definition msgs :: "string \<Rightarrow> string list" where
  "msgs line = map vi_msg (check_line ascii_lower ''x.rs'' 1 line [])"

definition trace_call :: "nat \<Rightarrow> string" where
  "trace_call width = ''l.info('' @ [CHR 0x22] @ ''x'' @ [CHR 0x22] @ '').add_trace('' @ [CHR 0x22]
     @ sample_id ''trace'' width @ [CHR 0x22] @ '', false);''"

definition quoted :: "string \<Rightarrow> string" where
  "quoted s = [CHR 0x22] @ s @ [CHR 0x22]"

definition compatibility_boundary_matrix_is_pinned :: bool where
  "compatibility_boundary_matrix_is_pinned \<longleftrightarrow>
     list_all (\<lambda>w. \<not> id_ok (sample_id ''trace'' w) ''trace'' \<and> \<not> id_ok (sample_id ''routine'' w) ''routine'') [11, 65]
     \<and> list_all (\<lambda>w. id_ok (sample_id ''trace'' w) ''trace'' \<and> id_ok (sample_id ''routine'' w) ''routine'')
         [12, 20, 21, 22, 41, 64]
     \<and> \<not> id_ok ''ores-trace-AAAAAAAAAAA!'' ''trace'' \<and> \<not> id_ok (sample_id ''routine'' 21) ''trace''"

lemma compatibility_boundary_matrix_is_pinned: compatibility_boundary_matrix_is_pinned
  by code_simp

definition canonical_generator_width_is_a_subset_of_compatibility :: bool where
  "canonical_generator_width_is_a_subset_of_compatibility \<longleftrightarrow>
     list_all (\<lambda>k. canonical_generated_id (sample_id k canonical_generator_width) k
                   \<and> id_ok (sample_id k canonical_generator_width) k) [''trace'', ''routine'']
     \<and> \<not> canonical_generated_id (sample_id ''trace'' 20) ''trace''
     \<and> \<not> canonical_generated_id (sample_id ''trace'' 22) ''trace''"

lemma canonical_generator_width_is_a_subset_of_compatibility: canonical_generator_width_is_a_subset_of_compatibility
  by code_simp

definition matcher_needle_does_not_hide_real_call_site :: bool where
  "matcher_needle_does_not_hide_real_call_site \<longleftrightarrow>
     msgs (''if p.contains('' @ quoted ''/health'' @ '') { '' @ trace_call 11 @ '' }'') \<noteq> []"

lemma matcher_needle_does_not_hide_real_call_site: matcher_needle_does_not_hide_real_call_site
  by code_simp

definition cfg_test_only_stops_at_test_module :: bool where
  "cfg_test_only_stops_at_test_module \<longleftrightarrow>
     next_is_mod [''#[cfg(test)]'', ''mod tests {''] 0
     \<and> \<not> next_is_mod [''#[cfg(test)]'', ''use std::fmt;'', ''pub fn real() {}''] 0"

lemma cfg_test_only_stops_at_test_module: cfg_test_only_stops_at_test_module
  by code_simp

definition prefix_constants_headers_and_comments_are_not_violations :: bool where
  "prefix_constants_headers_and_comments_are_not_violations \<longleftrightarrow>
     msgs (''const TracePrefix = '' @ quoted ''ores-trace-'' @ '';'') = []
     \<and> msgs (''const TRACE_HEADER: &str = '' @ quoted ''x-ores-trace-id'' @ '';'') = []
     \<and> msgs ''// historical ores-trace-abc'' = []"

lemma prefix_constants_headers_and_comments_are_not_violations: prefix_constants_headers_and_comments_are_not_violations
  by code_simp

definition retired_prefix_and_wrong_method_are_rejected :: bool where
  "retired_prefix_and_wrong_method_are_rejected \<longleftrightarrow>
     msgs (''l.add_trace('' @ quoted ''dd-trace-abcdefghijkl'' @ '', false);'') \<noteq> []
     \<and> list_ex (sublist ''addRoutineId'') (msgs ''l.addRoutine(ROUTINE_ID);'')"

lemma retired_prefix_and_wrong_method_are_rejected: retired_prefix_and_wrong_method_are_rejected
  by code_simp

definition longer_identifiers_are_not_call_sites :: bool where
  "longer_identifiers_are_not_call_sites \<longleftrightarrow> scan_calls ''x.addTraceIdFrom(ctx)'' trace_methods = []"

lemma longer_identifiers_are_not_call_sites: longer_identifiers_are_not_call_sites
  by code_simp

definition vacuous_scans_fail_closed :: bool where
  "vacuous_scans_fail_closed \<longleftrightarrow>
     vacuous_scan ''/nonexistent/ores-trace-contract-root'' False 0 \<noteq> None \<and> vacuous_scan ''.'' True 0 \<noteq> None
     \<and> vacuous_scan ''.'' True 1 = None"

lemma vacuous_scans_fail_closed: vacuous_scans_fail_closed
  by code_simp

end
