(* ===== verification/Spec2Isabelle.thy ===== *)
theory Spec2Isabelle
  imports Prelude Text Coordinator Coordinator_Leases Coordinator_Capacity Coordinator_Records Coordinator_Demo GitNames
    Net NatsTls Outbox Outbox_Durability Outbox_Delivery
    Json Sanitize EventBus EventBus_Replay Agents Config ControlPlane GitOps
    Paths Storage State Prompt Exec Orchestrator Orchestrator_Authority Orchestrator_Outcome Orchestrator_Branch
    Orchestrator_Course Orchestrator_Progress Renewal_Timing
    Append_Path ThreadOps HttpApi HttpApi_Body HttpApi_Safety HttpApi_Stream HttpApi_Worker Worker_Invariant
    Task_Steps Task_Stream Shared_Checkout Boot TraceContract TraceContract_Soundness
    Coordinator_Tests Unit_Tests Service_Tests Outbox_Tests TraceContract_Tests
begin

text \<open>
  A verification library for fiducia-ai-agent-manager, a worker that runs coding agents in a git
  workspace under the authority of a control plane. All paths are below src/.

  The program. A client dispatches a task over HTTP (src/http.rs). The worker registers it with the
  session of its thread (src/state.rs) and runs it (src/orchestrator.rs): prepare the workspace, claim
  the work item (\<open>src/control_plane.rs\<close>), run the agent's command line (src/agents.rs), commit and push
  (src/git.rs), publish the artifacts (src/storage.rs), report the terminal status. Everything a task
  says passes the event bus (\<open>src/event_bus.rs\<close>), which redacts it (src/sanitize.rs), numbers and keeps
  it for subscribers, and hands it to the NATS outbox (src/nats.rs). src/main.rs starts the worker from
  its configuration (src/config.rs). Beside it stand the reference coordinator for a fleet of workers
  (tools/reference-fleet) and a static checker of trace markers (.github/ores-trace-contract.rs).

  Where things are. A theory per component holds its records, datatypes and operations in the order
  of the code, under the code's names; the theories after it hold what is proved of them.

  \<^item> \<open>Prelude\<close>, \<open>Text\<close>, \<open>Json\<close>, \<open>Paths\<close>, \<open>Net\<close>: what the components share. Result types, calls with a state
    and errors, hash maps, saturating and wrapping integers, rules for calls (triples, frames, policies
    on traces), the contracts of stateful systems; Rust strings as bytes; \<open>serde\<close> values; \<open>std::path\<close>;
    address literals. What \<open>str\<close>, \<open>Path\<close> and \<open>IpAddr\<close> do is written out as far as the program uses it.
  \<^item> \<open>Coordinator\<close> (tools/reference-fleet/src/lib.rs): leases with fencing tokens, slots, quotas, heartbeats,
    cron, compare-and-swap, side effects. \<open>Coordinator_Leases\<close>: superseded and expired tokens have no
    effect, live leases exclude. \<open>Coordinator_Capacity\<close>: slots and quotas stay within capacity.
    \<open>Coordinator_Records\<close>: at most one fire, one effect per key, and the store is its log.
    \<open>Coordinator_Demo\<close>: the demonstration program (tools/reference-fleet/src/main.rs) runs to its report.
  \<^item> \<open>NatsTls\<close>, \<open>Outbox\<close> (src/nats.rs): when TLS is demanded; the durable outbox. \<open>Outbox_Durability\<close>: no
    accepted event is lost through failures and restarts, and the gauge counts the files.
    \<open>Outbox_Delivery\<close>: a drain with a working broker empties the outbox in order; dialling is paced.
  \<^item> \<open>Sanitize\<close>, \<open>EventBus\<close> (src/sanitize.rs, \<open>src/event_bus.rs\<close>). \<open>EventBus_Replay\<close>: a channel is the log of the
    first events per number, resuming is gapless, no configured secret leaves, when the circuit blocks.
  \<^item> \<open>Config\<close>, \<open>ControlPlane\<close>, \<open>Agents\<close>, \<open>GitNames\<close>, \<open>GitOps\<close>, \<open>Storage\<close>, \<open>Prompt\<close> (the files of these names): pure
    decisions and single calls, with their error texts: the startup mode, exact renewals, the agent's
    environment, branch names and argument vectors, SHA-256, the heuristics on prompts.
  \<^item> \<open>State\<close>, \<open>Exec\<close>, \<open>Orchestrator\<close> (src/state.rs, src/orchestrator.rs): the worker's maps, the machine a task
    runs on, and the run. \<open>Orchestrator_Authority\<close>: nothing is changed without authority.
    \<open>Orchestrator_Outcome\<close>: every run ends once and the work item is settled. \<open>Orchestrator_Branch\<close>: the base
    branch is off limits. \<open>Orchestrator_Course\<close>, \<open>Orchestrator_Progress\<close>: a governed run that nothing
    disturbs gets its work done, by exactly the expected commands. \<open>Renewal_Timing\<close>: a lost lease is noticed
    before it expires. \<open>Append_Path\<close>: where the deterministic edit may write.
  \<^item> \<open>ThreadOps\<close> (\<open>src/thread_ops.rs\<close>), \<open>HttpApi\<close>, \<open>HttpApi_Body\<close> (src/http.rs, src/util.rs): the explicit thread
    actions, every route, the parsers of the bodies. \<open>HttpApi_Safety\<close>: who gets in, what governance closes,
    what a dispatch does. \<open>HttpApi_Stream\<close>: the id of an event is the position to resume from.
  \<^item> \<open>HttpApi_Worker\<close>, \<open>Worker_Invariant\<close>: the whole worker under requests, runs and collections, its
    invariant, and what a collection reclaims. \<open>Task_Steps\<close>, \<open>Task_Stream\<close>: a run as small steps, and the
    end-to-end law that subscribers are sent exactly what tasks emit. \<open>Shared_Checkout\<close>: all sessions work in
    one directory. \<open>Boot\<close> (src/main.rs): the start fails
    closed, and the authority it settled never changes.
  \<^item> \<open>TraceContract\<close>, \<open>TraceContract_Soundness\<close> (.github/ores-trace-contract.rs): the checker, and what a
    clean scan means.
  \<^item> \<open>Coordinator_Tests\<close>, \<open>Unit_Tests\<close>, \<open>Service_Tests\<close>, \<open>Outbox_Tests\<close>, \<open>TraceContract_Tests\<close>: the unit tests of the
    code that need no process or socket, stated of the model and proved.

  How state and effects are modelled. A struct is a record, a shared map a hash map with its order, an
  \<open>Arc\<close> the key it is found under. An async function is a call on an explicit state that may fail; an
  error is a value, a panic another one, so both are branches. Everything outside answers from a
  script in the state: the ends of child processes, the control plane and the node, the file system,
  the broker, the agent's output, the clock. A theorem about all initial states is one about all
  answers. Concurrency is a script as well: at each await of a task the interrupts that arrive there
  are handled (cancellation, a tick of the renewal timer, a late line of the agent), and of those that
  need no await some may arrive before each check of the flags. The worker takes requests, runs and
  collections in any order; a run is one step of it, and what other tasks do meanwhile is to other
  records. The two variants of a git call, with and without a cancellation token, are one definition
  over two runners. A request handler without an await is one step; what two of them on different threads do
  to each other is shown only for two dispatches of the same task (\<open>HttpApi_Safety\<close>). What a task awaits is taken to answer.

  Integers. Counters and tokens are words of their width (\<open>sat_add\<close> for saturating addition), the sequence
  numbers \<open>int\<close> with \<open>i64_wrap\<close>, sizes \<open>nat\<close> where they cannot overflow. Bounds of the code appear as they
  are: 256 live tasks, 2000 replayed events, 15 failures and a minute for the circuit, five attempts,
  72 characters of a commit line. There is no fuel: every loop of the code is over data that exists,
  and its recursion is structural or has a measure.

  Parameters. The regular expression engine (\<open>Prompt\<close>, \<open>Sanitize\<close>), Unicode lower-casing, lossy UTF-8
  conversion, the parser of agent lines, debug forms of durations, the UUID check and the HTTP
  clients of the control plane and the node (\<open>cp_world\<close>) are arguments; no property assumes more of
  them than its hypotheses say.

  The contracts. \<open>step_system\<close>, \<open>monotone_system\<close>, \<open>retention\<close> and \<open>once_guard\<close> are the shapes of stateful
  components, interpreted on the coordinator, the bus, the outbox and the worker; \<open>lease_authority\<close> is
  what the fencing proofs need of the lease table; \<open>licence\<close> is the authority a task works under, with
  its governed and ungoverned instances; \<open>step_preorder\<close> is a relation between the states of a run.

  Not modelled. The HTTP server and its layers (routing tables, body limit, timeouts, tracing, the
  parsing of paths and query strings), the connection and protocol of the NATS client, the spawning of
  processes itself, telemetry and log lines, \<open>src/ores_log.rs\<close> (options of a logging crate),
  src/messaging.rs and src/lib.rs (re-exports): they hold no decision of the program. Two runs of
  different sessions interleaved in one checkout are not modelled; that sessions share it, and that a
  ready session does not look at it again, is shown in \<open>Shared_Checkout\<close> and \<open>Orchestrator_Branch\<close>. Tests that start processes or open
  sockets, scripts and deployment files are left out.
\<close>

end
